(* ===== verification/Prelude.thy ===== *)
theory Prelude
  imports Main "HOL-Library.List_Lexorder" "HOL-Library.Char_ord" "HOL-Library.Sublist"
begin

text \<open>
  Shared vocabulary of the development: Python dictionaries as association lists in
  insertion order, JSON values as \<open>json.loads\<close> returns them, documents up to their JSON
  reading, exceptions as the left summand of a result, and the generic facts about them.

  Text is a list of characters, compared like Python compares strings (lexicographically by
  code point). A stored document is represented by what \<open>json.loads\<close> makes of its text:
  \<open>None\<close> when it raises \<open>JSONDecodeError\<close>, and \<open>json.dumps v\<close> is then \<open>Some v\<close>.
  JSON numbers are integers: no document written by the modelled code holds a fraction.
\<close>

named_theorems dict_simps "reading a dictionary after an update"
named_theorems res_simps "results: the error branch and the value branch"

section \<open>Results\<close>

text \<open>A statement that may raise, followed by the rest of the block.\<close>

definition res_bind :: "'e + 'a \<Rightarrow> ('a \<Rightarrow> 'e + 'b) \<Rightarrow> 'e + 'b" where
  "res_bind x f = (case x of Inl e \<Rightarrow> Inl e | Inr a \<Rightarrow> f a)"

lemma res_bind_simps [simp, res_simps]:
  "res_bind (Inl e) f = Inl e"
  "res_bind (Inr a) f = f a"
  by (simp_all add: res_bind_def)

lemma res_bind_Inr_iff [res_simps]:
  "res_bind x f = Inr b \<longleftrightarrow> (\<exists>a. x = Inr a \<and> f a = Inr b)"
  by (cases x) auto

lemma res_bind_Inl_iff [res_simps]:
  "res_bind x f = Inl e \<longleftrightarrow> x = Inl e \<or> (\<exists>a. x = Inr a \<and> f a = Inl e)"
  by (cases x) auto

section \<open>Dictionaries\<close>

type_synonym ('k, 'v) dict = "('k \<times> 'v) list"

text \<open>
  \<open>d[k] = v\<close> keeps the position of a key that is already there and appends a new one;
  \<open>d.pop(k, None)\<close> drops it. Reading is \<^const>\<open>map_of\<close>.
\<close>

fun dict_set :: "'k \<Rightarrow> 'v \<Rightarrow> ('k, 'v) dict \<Rightarrow> ('k, 'v) dict" where
  "dict_set k v [] = [(k, v)]"
| "dict_set k v ((k', v') # d) = (if k = k' then (k, v) # d else (k', v') # dict_set k v d)"

definition dict_pop :: "'k \<Rightarrow> ('k, 'v) dict \<Rightarrow> ('k, 'v) dict" where
  "dict_pop k d = filter (\<lambda>p. fst p \<noteq> k) d"

definition dict_ok :: "('k, 'v) dict \<Rightarrow> bool" where
  "dict_ok d \<longleftrightarrow> distinct (map fst d)"

lemma map_of_dict_set [simp, dict_simps]: "map_of (dict_set k v d) = (map_of d)(k \<mapsto> v)"
  by (induction k v d rule: dict_set.induct) auto

lemma map_of_dict_pop [simp, dict_simps]: "map_of (dict_pop k d) = (map_of d)(k := None)"
  by (induction d) (auto simp: dict_pop_def)

lemma keys_dict_set [simp, dict_simps]: "fst ` set (dict_set k v d) = insert k (fst ` set d)"
  by (induction k v d rule: dict_set.induct) auto

lemma keys_dict_pop [simp, dict_simps]: "fst ` set (dict_pop k d) = fst ` set d - {k}"
  by (auto simp: dict_pop_def)

lemma dict_ok_Nil [simp]: "dict_ok []"
  by (simp add: dict_ok_def)

lemma dict_ok_set [simp, intro]: "dict_ok d \<Longrightarrow> dict_ok (dict_set k v d)"
proof (induction k v d rule: dict_set.induct)
  case (2 k v k' v' d)
  have "k' \<notin> fst ` set (dict_set k v d)" if "k \<noteq> k'"
    using 2(2) that unfolding keys_dict_set by (auto simp: dict_ok_def)
  with 2 show ?case by (auto simp: dict_ok_def)
qed (simp add: dict_ok_def)

lemma dict_ok_pop [simp, intro]: "dict_ok d \<Longrightarrow> dict_ok (dict_pop k d)"
  by (auto simp: dict_ok_def dict_pop_def distinct_map_filter)

lemma dict_mem_map_of: "dict_ok d \<Longrightarrow> (k, v) \<in> set d \<longleftrightarrow> map_of d k = Some v"
  by (simp add: dict_ok_def)

section \<open>JSON values\<close>

datatype json =
    JNull
  | JBool bool
  | JNum int
  | JStr string
  | JArr "json list"
  | JObj "(string \<times> json) list"

type_synonym doc = "json option"

text \<open>Python's truth value of a JSON value, and \<open>==\<close> on it (\<open>True == 1\<close> holds).\<close>

fun truthy :: "json \<Rightarrow> bool" where
  "truthy JNull = False"
| "truthy (JBool b) = b"
| "truthy (JNum n) = (n \<noteq> 0)"
| "truthy (JStr s) = (s \<noteq> [])"
| "truthy (JArr xs) = (xs \<noteq> [])"
| "truthy (JObj d) = (d \<noteq> [])"

fun is_num :: "json \<Rightarrow> int \<Rightarrow> bool" where
  "is_num (JNum m) n = (m = n)"
| "is_num (JBool b) n = ((if b then 1 else 0) = n)"
| "is_num _ n = False"

definition truthy_opt :: "json option \<Rightarrow> bool" where
  "truthy_opt x = (case x of None \<Rightarrow> False | Some v \<Rightarrow> truthy v)"

lemma truthy_opt_simps [simp]: "truthy_opt None = False" "truthy_opt (Some v) = truthy v"
  by (simp_all add: truthy_opt_def)

text \<open>Every element passes a typed reading, or the whole reading fails.\<close>

fun all_some :: "('a \<Rightarrow> 'b option) \<Rightarrow> 'a list \<Rightarrow> 'b list option" where
  "all_some f [] = Some []"
| "all_some f (x # xs) = (case f x of None \<Rightarrow> None | Some y \<Rightarrow> map_option ((#) y) (all_some f xs))"

lemma all_some_map [simp]: "(\<And>x. x \<in> set xs \<Longrightarrow> f (g x) = Some x) \<Longrightarrow> all_some f (map g xs) = Some xs"
  by (induction xs) auto

lemma all_some_length: "all_some f xs = Some ys \<Longrightarrow> length ys = length xs"
  by (induction xs arbitrary: ys) (auto split: option.splits)

fun as_str :: "json \<Rightarrow> string option" where
  "as_str (JStr s) = Some s"
| "as_str _ = None"

text \<open>\<open>str(x)\<close> of a scalar; the text of a list or an object is not modelled.\<close>

fun nat_str :: "nat \<Rightarrow> string" where
  "nat_str n = (if n < 10 then [''0123456789'' ! n] else nat_str (n div 10) @ [''0123456789'' ! (n mod 10)])"

declare nat_str.simps [simp del]

definition int_str :: "int \<Rightarrow> string" where
  "int_str n = (if n < 0 then CHR ''-'' # nat_str (nat (- n)) else nat_str (nat n))"

definition py_str :: "json option \<Rightarrow> string option" where
  "py_str x =
     (case x of Some (JStr s) \<Rightarrow> Some s | Some (JNum n) \<Rightarrow> Some (int_str n)
      | Some (JBool b) \<Rightarrow> Some (if b then ''True'' else ''False'') | Some JNull \<Rightarrow> Some ''None''
      | _ \<Rightarrow> None)"

lemma py_str_JStr [simp]: "py_str (Some (JStr s)) = Some s"
  by (simp add: py_str_def)

section \<open>Lists\<close>

text \<open>\<open>del xs[:-n]\<close> keeps the last \<open>n\<close> elements.\<close>

definition keep_last :: "nat \<Rightarrow> 'a list \<Rightarrow> 'a list" where
  "keep_last n xs = drop (length xs - n) xs"

lemma keep_last_short [simp]: "length xs \<le> n \<Longrightarrow> keep_last n xs = xs"
  by (simp add: keep_last_def)

lemma length_keep_last [simp]: "length (keep_last n xs) = min n (length xs)"
  by (simp add: keep_last_def)

lemma set_keep_last: "set (keep_last n xs) \<subseteq> set xs"
  by (simp add: keep_last_def set_drop_subset)

lemma last_in_keep_last: "0 < n \<Longrightarrow> x \<in> set (keep_last n (xs @ [x]))"
  by (simp add: keep_last_def)

lemma distinct_keep_last: "distinct xs \<Longrightarrow> distinct (keep_last n xs)"
  by (simp add: keep_last_def)

lemma keep_last_append [simp]: "keep_last n (keep_last n xs @ ys) = keep_last n (xs @ ys)"
proof (cases "length xs \<le> n")
  case False
  then have "drop (length xs - n) xs @ ys = drop (length xs - n) (xs @ ys)" by simp
  with False show ?thesis by (simp add: keep_last_def add.commute)
qed simp

lemma set_keep_last_suffix: "length ys \<le> n \<Longrightarrow> set ys \<subseteq> set (keep_last n (xs @ ys))"
  by (auto simp: keep_last_def)

text \<open>\<open>sorted(set(xs))\<close>.\<close>

definition sorted_set :: "'a::linorder list \<Rightarrow> 'a list" where
  "sorted_set xs = sort (remdups xs)"

lemma set_sorted_set [simp]: "set (sorted_set xs) = set xs"
  by (simp add: sorted_set_def)

lemma sorted_sorted_set [simp]: "sorted (sorted_set xs)" "distinct (sorted_set xs)"
  by (simp_all add: sorted_set_def)

lemma sorted_set_Nil_iff [simp]: "sorted_set xs = [] \<longleftrightarrow> xs = []"
  by (metis set_empty set_sorted_set)

end
