(* ===== verification/Fold_Transport.thy ===== *)
theory Fold_Transport
  imports Prelude
begin

text \<open>
  packages/coord-fold/coord_fold/transport.py: the reader and the writer through which the fold
  engine reaches the store. The \<open>fulcra\<close> command they launch is outside the repository: it is
  the record \<open>cli\<close> of functions on an unknown world \<open>'w\<close>, one per sub-command, whose outcome
  is an exit code with the two output streams or a failure to run at all (\<open>OSError\<close>, timeout).
  The locale \<open>pointer_store\<close> is the \<open>PointerTransport\<close> protocol together with the writer's
  \<open>save_doc\<close>, with the laws the fold relies on; \<open>fulcra_cli\<close> states the documented behaviour
  of the command, and the classes of transport.py are proved to turn the second into the first.
\<close>

section \<open>The command line\<close>

datatype 'o ran = Ran int 'o string | Failed string

text \<open>
  A line of \<open>get-records\<close> read as JSON: an object, of which the code reads \<open>id\<close>,
  \<open>recorded_at\<close> and \<open>note\<close>, or another JSON value. The note is usable when it is a
  string; it is then represented, like every text, by what \<open>json.loads\<close> makes of it.
\<close>

datatype note_text = NoText | Text doc

record stream_rec =
  rec_id :: "json option"
  rec_at :: "json option"
  rec_note :: note_text

datatype item = Rec stream_rec | NotObject

datatype line = Blank | Line "item option"

record 'w cli =
  cli_stat :: "string \<Rightarrow> 'w \<Rightarrow> unit ran \<times> 'w"
  cli_download :: "string \<Rightarrow> 'w \<Rightarrow> doc option ran \<times> 'w"
  cli_records :: "string \<Rightarrow> string \<Rightarrow> string \<Rightarrow> 'w \<Rightarrow> line list ran \<times> 'w"
  cli_record :: "string \<Rightarrow> string \<Rightarrow> string \<Rightarrow> json \<Rightarrow> json \<Rightarrow> 'w \<Rightarrow> unit ran \<times> 'w"
  cli_upload :: "doc \<Rightarrow> string \<Rightarrow> 'w \<Rightarrow> unit ran \<times> 'w"

section \<open>What the reader and the writer promise their client\<close>

datatype read_result = RdOk doc | RdAbsent | RdError

record 'w store =
  read_classified :: "string \<Rightarrow> 'w \<Rightarrow> read_result \<times> 'w"
  read_events :: "string \<Rightarrow> string \<Rightarrow> 'w \<Rightarrow> (item list \<times> bool) \<times> 'w"
  write_event :: "string \<times> string \<Rightarrow> json \<Rightarrow> json \<Rightarrow> string \<Rightarrow> 'w \<Rightarrow> bool \<times> 'w"
  save_doc :: "string \<Rightarrow> json \<Rightarrow> 'w \<Rightarrow> bool \<times> 'w"

section \<open>CliPointerReader\<close>

definition reader_stat :: "'w cli \<Rightarrow> string \<Rightarrow> 'w \<Rightarrow> (int \<times> string) \<times> 'w" where
  "reader_stat c p w =
     (case cli_stat c p w of
        (Failed e, w') \<Rightarrow> ((127, e), w')
      | (Ran rc _ err, w') \<Rightarrow> ((rc, err), w'))"

text \<open>The exit code is 1 when the downloaded temporary file cannot be read back.\<close>

definition reader_download :: "'w cli \<Rightarrow> string \<Rightarrow> 'w \<Rightarrow> (int \<times> doc) \<times> 'w" where
  "reader_download c p w =
     (case cli_download c p w of
        (Failed e, w') \<Rightarrow> ((127, None), w')
      | (Ran rc body err, w') \<Rightarrow>
          if rc \<noteq> 0 then ((rc, None), w')
          else (case body of None \<Rightarrow> ((1, None), w') | Some d \<Rightarrow> ((0, d), w')))"

definition far_future :: string where
  "far_future = ''2999-01-01T00:00:00Z''"

definition reader_records :: "'w cli \<Rightarrow> string \<Rightarrow> string \<Rightarrow> 'w \<Rightarrow> (int \<times> line list) \<times> 'w" where
  "reader_records c channel since w =
     (case cli_records c channel since far_future w of
        (Failed e, w') \<Rightarrow> ((127, []), w')
      | (Ran rc out err, w') \<Rightarrow> ((rc, out), w'))"

definition not_found :: string where
  "not_found = ''File not found''"

definition reader_classified :: "'w cli \<Rightarrow> string \<Rightarrow> 'w \<Rightarrow> read_result \<times> 'w" where
  "reader_classified c p w =
     (case reader_stat c p w of ((rc, err), w1) \<Rightarrow>
        if rc \<noteq> 0 then (if sublist not_found err then RdAbsent else RdError, w1)
        else (case reader_download c p w1 of ((rc, out), w2) \<Rightarrow>
                (if rc = 0 then RdOk out else RdError, w2)))"

text \<open>
  \<open>read_events\<close> is a generator: the records it yields, then whether it raised
  \<open>TransportUnavailable\<close> (a failed command, or a line that is not JSON).
\<close>

fun yield_lines :: "line list \<Rightarrow> item list \<times> bool" where
  "yield_lines [] = ([], False)"
| "yield_lines (Blank # ls) = yield_lines ls"
| "yield_lines (Line None # ls) = ([], True)"
| "yield_lines (Line (Some j) # ls) = (case yield_lines ls of (js, raised) \<Rightarrow> (j # js, raised))"

definition reader_events :: "'w cli \<Rightarrow> string \<Rightarrow> string \<Rightarrow> 'w \<Rightarrow> (item list \<times> bool) \<times> 'w" where
  "reader_events c channel since w =
     (case reader_records c channel since w of ((rc, out), w') \<Rightarrow>
        (if rc \<noteq> 0 then ([], True) else yield_lines out, w'))"

section \<open>CliPointerWriter\<close>

definition rc_of :: "unit ran \<Rightarrow> int" where
  "rc_of r = (case r of Failed e \<Rightarrow> 127 | Ran rc _ _ \<Rightarrow> rc)"

text \<open>
  The document on standard input is \<open>{"note": json.dumps(payload), "recorded_at": payload["at"]}\<close>:
  a note that reads back as the payload, and the payload's own time.
\<close>

definition writer_write_event ::
  "'w cli \<Rightarrow> string \<times> string \<Rightarrow> json \<Rightarrow> json \<Rightarrow> string \<Rightarrow> 'w \<Rightarrow> bool \<times> 'w" where
  "writer_write_event c cfg payload at sender w =
     (case cli_record c (fst cfg) (snd cfg) sender payload at w of (r, w') \<Rightarrow> (rc_of r = 0, w'))"

definition writer_save_doc :: "'w cli \<Rightarrow> string \<Rightarrow> json \<Rightarrow> 'w \<Rightarrow> bool \<times> 'w" where
  "writer_save_doc c p j w = (case cli_upload c (Some j) p w of (r, w') \<Rightarrow> (rc_of r = 0, w'))"

definition cli_store :: "'w cli \<Rightarrow> 'w store" where
  "cli_store c = \<lparr>read_classified = reader_classified c, read_events = reader_events c,
     write_event = writer_write_event c, save_doc = writer_save_doc c\<rparr>"

section \<open>The two interfaces\<close>

text \<open>
  \<open>contents w p\<close> is the document the remote store holds at a path. Reading does not change
  it and never invents it; an acknowledged save is what the path then holds; no write touches
  another path. A read may always fail.
\<close>

locale pointer_store =
  fixes st :: "'w store" and contents :: "'w \<Rightarrow> string \<Rightarrow> doc option"
  assumes read_ok: "read_classified st p w = (RdOk d, w') \<Longrightarrow> contents w p = Some d"
    and read_absent: "read_classified st p w = (RdAbsent, w') \<Longrightarrow> contents w p = None"
    and read_frame: "contents (snd (read_classified st p w)) = contents w"
    and events_frame: "contents (snd (read_events st ch since w)) = contents w"
    and event_frame: "contents (snd (write_event st cfg payload at sender w)) = contents w"
    and save_ok: "save_doc st p j w = (True, w') \<Longrightarrow> contents w' = (contents w)(p \<mapsto> Some j)"
    and save_frame: "q \<noteq> p \<Longrightarrow> contents (snd (save_doc st p j w)) q = contents w q"
begin

lemma read_after_save:
  assumes "save_doc st p j w = (True, w1)" and "read_classified st p w1 = (r, w2)"
  shows "r = RdOk (Some j) \<or> r = RdError"
proof (cases r)
  case (RdOk d)
  with assms read_ok [of p w1 d w2] save_ok [of p j w w1] show ?thesis by simp
next
  case RdAbsent
  with assms read_absent [of p w1 w2] save_ok [of p j w w1] show ?thesis by simp
qed simp

lemma reread_stable:
  assumes "read_classified st p w = (RdOk d, w1)" and "contents w' = contents w1"
    and "read_classified st p w' = (r, w2)"
  shows "r = RdOk d \<or> r = RdError"
proof -
  have "contents w' p = Some d"
    using read_ok [OF assms(1)] read_frame [of p w] assms(1,2) by simp
  then show ?thesis
    using read_ok [of p w' _ w2] read_absent [of p w' w2] assms(3) by (cases r) auto
qed

end

text \<open>The documented behaviour of \<open>fulcra file stat / download / upload\<close> and of the record commands.\<close>

locale fulcra_cli =
  fixes c :: "'w cli" and contents :: "'w \<Rightarrow> string \<Rightarrow> doc option"
  assumes stat_missing: "cli_stat c p w = (Ran rc u err, w') \<Longrightarrow> rc \<noteq> 0 \<Longrightarrow> sublist not_found err
      \<Longrightarrow> contents w p = None"
    and stat_unrun: "cli_stat c p w = (Failed e, w') \<Longrightarrow> \<not> sublist not_found e"
    and stat_frame: "contents (snd (cli_stat c p w)) = contents w"
    and download_ok: "cli_download c p w = (Ran 0 (Some d) err, w') \<Longrightarrow> contents w p = Some d"
    and download_frame: "contents (snd (cli_download c p w)) = contents w"
    and records_frame: "contents (snd (cli_records c ch since until w)) = contents w"
    and record_frame: "contents (snd (cli_record c dt v source payload at w)) = contents w"
    and upload_ok: "cli_upload c d p w = (Ran 0 u err, w') \<Longrightarrow> contents w' = (contents w)(p \<mapsto> d)"
    and upload_frame: "q \<noteq> p \<Longrightarrow> contents (snd (cli_upload c d p w)) q = contents w q"

sublocale fulcra_cli \<subseteq> ps: pointer_store "cli_store c" contents
proof
  fix p w d w'
  assume r: "read_classified (cli_store c) p w = (RdOk d, w')"
  then show "contents w p = Some d"
    using download_ok [of p _ d] stat_frame [of p w]
    by (fastforce simp: cli_store_def reader_classified_def reader_download_def reader_stat_def
        split: prod.splits ran.splits if_splits option.splits)
next
  fix p w w'
  assume "read_classified (cli_store c) p w = (RdAbsent, w')"
  then show "contents w p = None"
    using stat_missing [of p w] stat_unrun [of p w]
    by (fastforce simp: cli_store_def reader_classified_def reader_stat_def
        split: prod.splits ran.splits if_splits)
next
  fix p w
  show "contents (snd (read_classified (cli_store c) p w)) = contents w"
    using stat_frame [of p w] download_frame [of p "snd (cli_stat c p w)"]
    by (auto simp: cli_store_def reader_classified_def reader_download_def reader_stat_def
        split: prod.splits ran.splits option.splits)
next
  fix ch since w
  show "contents (snd (read_events (cli_store c) ch since w)) = contents w"
    using records_frame [of ch since far_future w]
    by (auto simp: cli_store_def reader_events_def reader_records_def split: prod.splits ran.splits)
next
  fix cfg :: "string \<times> string" and payload at :: json and sender w
  show "contents (snd (write_event (cli_store c) cfg payload at sender w)) = contents w"
    using record_frame [of "fst cfg" "snd cfg" sender payload at w]
    by (auto simp: cli_store_def writer_write_event_def split: prod.splits)
next
  fix p j w w'
  assume "save_doc (cli_store c) p j w = (True, w')"
  then show "contents w' = (contents w)(p \<mapsto> Some j)"
    using upload_ok [of "Some j" p w]
    by (auto simp: cli_store_def writer_save_doc_def rc_of_def split: prod.splits ran.splits)
next
  fix q p j w
  assume "(q :: string) \<noteq> p"
  then show "contents (snd (save_doc (cli_store c) p j w)) q = contents w q"
    using upload_frame [of q p "Some j" w]
    by (auto simp: cli_store_def writer_save_doc_def split: prod.splits)
qed

end
