(* ===== verification/Py_Time.thy ===== *)
theory Py_Time
  imports Prelude
begin

text \<open>
  The part of Python's \<open>datetime\<close> the modelled code calls: \<open>datetime.fromisoformat\<close> on
  calendar dates (extended or basic form, any one-character separator, hours to fractional
  seconds, \<open>Z\<close> or a numeric offset), subtraction of a duration, \<open>timestamp\<close>-like
  comparison and \<open>strftime("%Y-%m-%dT%H:%M:%SZ")\<close>. A value is its wall-clock reading in
  microseconds since 1970-01-01 with its UTC offset, if it has one. ISO week dates, which no
  module in scope writes, are refused.
\<close>

record pydt =
  wall :: int
  off :: "int option"

section \<open>Digits\<close>

definition digit_table :: "(char \<times> nat) list" where
  "digit_table = [(CHR ''0'', 0), (CHR ''1'', 1), (CHR ''2'', 2), (CHR ''3'', 3), (CHR ''4'', 4),
     (CHR ''5'', 5), (CHR ''6'', 6), (CHR ''7'', 7), (CHR ''8'', 8), (CHR ''9'', 9)]"

definition digit :: "char \<Rightarrow> nat option" where
  "digit c = map_of digit_table c"

fun digits :: "nat \<Rightarrow> nat \<Rightarrow> string \<Rightarrow> (nat \<times> string) option" where
  "digits 0 acc s = Some (acc, s)"
| "digits (Suc n) acc [] = None"
| "digits (Suc n) acc (c # s) = (case digit c of None \<Rightarrow> None | Some k \<Rightarrow> digits n (10 * acc + k) s)"

fun digit_chars :: "nat \<Rightarrow> nat \<Rightarrow> string" where
  "digit_chars 0 n = []"
| "digit_chars (Suc w) n = digit_chars w (n div 10) @ [fst (digit_table ! (n mod 10))]"

lemma digit_digit_chars: "d < 10 \<Longrightarrow> digit (fst (digit_table ! d)) = Some d"
  by (auto simp: digit_def digit_table_def numeral_eq_Suc less_Suc_eq)

lemma digits_add: "digits (m + n) acc s = Option.bind (digits m acc s) (\<lambda>(a, r). digits n a r)"
  by (induction m acc s rule: digits.induct) (auto split: option.splits)

lemma digits_digit_chars:
  "n < 10 ^ w \<Longrightarrow> digits w acc (digit_chars w n @ s) = Some (acc * 10 ^ w + n, s)"
proof (induction w arbitrary: n acc s)
  case (Suc w)
  from Suc.prems have "n div 10 < 10 ^ w" by auto
  with Suc.IH show ?case
    using digits_add [of w 1 acc] by (simp add: digit_digit_chars algebra_simps)
qed simp

lemma length_digit_chars [simp]: "length (digit_chars w n) = w"
  by (induction w arbitrary: n) auto

section \<open>The proleptic Gregorian calendar\<close>

definition leap :: "int \<Rightarrow> bool" where
  "leap y \<longleftrightarrow> y mod 4 = 0 \<and> (y mod 100 \<noteq> 0 \<or> y mod 400 = 0)"

definition month_starts :: "int list" where
  "month_starts = [0, 31, 59, 90, 120, 151, 181, 212, 243, 273, 304, 334, 365]"

definition days_before_month :: "int \<Rightarrow> nat \<Rightarrow> int" where
  "days_before_month y m = month_starts ! (m - 1) + (if 2 < m \<and> leap y then 1 else 0)"

definition days_in_month :: "int \<Rightarrow> nat \<Rightarrow> int" where
  "days_in_month y m = month_starts ! m - month_starts ! (m - 1) + (if m = 2 \<and> leap y then 1 else 0)"

definition days_before_year :: "int \<Rightarrow> int" where
  "days_before_year y = (y - 1) * 365 + (y - 1) div 4 - (y - 1) div 100 + (y - 1) div 400"

definition ymd_ord :: "int \<Rightarrow> nat \<Rightarrow> nat \<Rightarrow> int option" where
  "ymd_ord y m d =
     (if 1 \<le> y \<and> y \<le> 9999 \<and> 1 \<le> m \<and> m \<le> 12 \<and> 1 \<le> d \<and> int d \<le> days_in_month y m
      then Some (days_before_year y + days_before_month y m + int d) else None)"

definition ord_ymd :: "int \<Rightarrow> int \<times> nat \<times> nat" where
  "ord_ymd ord =
     (let n = ord - 1;
          n400 = n div 146097; n = n mod 146097;
          n100 = n div 36524; n = n mod 36524;
          n4 = n div 1461; n = n mod 1461;
          n1 = n div 365; n = n mod 365;
          y = n400 * 400 + 1 + n100 * 100 + n4 * 4 + n1
      in if n1 = 4 \<or> n100 = 4 then (y - 1, 12, 31)
         else let m = nat ((n + 50) div 32);
                  m = (if days_before_month y m > n then m - 1 else m)
              in (y, m, nat (n - days_before_month y m + 1)))"

definition epoch_ord :: int where
  "epoch_ord = 719163"

section \<open>datetime.fromisoformat\<close>

definition second_us :: int where "second_us = 1000000"
definition hour_us :: int where "hour_us = 3600 * second_us"

definition skip_sep :: "char \<Rightarrow> bool \<Rightarrow> string \<Rightarrow> string option" where
  "skip_sep c sep s = (if sep then (case s of x # r \<Rightarrow> if x = c then Some r else None | [] \<Rightarrow> None) else Some s)"

definition parse_date :: "string \<Rightarrow> (int \<times> string) option" where
  "parse_date s =
     Option.bind (digits 4 0 s) (\<lambda>(y, s).
       let sep = (case s of x # _ \<Rightarrow> x = CHR ''-'' | [] \<Rightarrow> False) in
       Option.bind (skip_sep (CHR ''-'') sep s) (\<lambda>s.
       Option.bind (digits 2 0 s) (\<lambda>(m, s).
       Option.bind (skip_sep (CHR ''-'') sep s) (\<lambda>s.
       Option.bind (digits 2 0 s) (\<lambda>(d, s).
         map_option (\<lambda>n. (n, s)) (ymd_ord (int y) m d))))))"

fun frac_us :: "nat \<Rightarrow> int \<Rightarrow> string \<Rightarrow> (int \<times> string) option" where
  "frac_us k acc [] = Some (acc, [])"
| "frac_us k acc (c # s) =
     (case digit c of None \<Rightarrow> Some (acc, c # s)
      | Some n \<Rightarrow> frac_us (Suc k) (if k < 6 then acc + int n * 10 ^ (5 - k) else acc) s)"

definition parse_frac :: "string \<Rightarrow> (int \<times> string) option" where
  "parse_frac s =
     (case s of x # y # r \<Rightarrow>
        if x = CHR ''.'' \<or> x = CHR '',''
        then (if digit y = None then None else frac_us 0 0 (y # r))
        else Some (0, s)
      | [x] \<Rightarrow> if x = CHR ''.'' \<or> x = CHR '','' then None else Some (0, s)
      | [] \<Rightarrow> Some (0, []))"

definition starts_digit :: "string \<Rightarrow> bool" where
  "starts_digit s = (case s of x # _ \<Rightarrow> digit x \<noteq> None | [] \<Rightarrow> False)"

definition more_time :: "bool \<Rightarrow> string \<Rightarrow> bool" where
  "more_time sep s = (if sep then (case s of x # _ \<Rightarrow> x = CHR '':'' | [] \<Rightarrow> False) else starts_digit s)"

definition parse_hms :: "string \<Rightarrow> ((nat \<times> nat \<times> nat \<times> int) \<times> string) option" where
  "parse_hms s =
     Option.bind (digits 2 0 s) (\<lambda>(h, s).
       let sep = (case s of x # _ \<Rightarrow> x = CHR '':'' | [] \<Rightarrow> False) in
       if \<not> more_time sep s then Some ((h, 0, 0, 0), s)
       else Option.bind (skip_sep (CHR '':'') sep s) (\<lambda>s.
         Option.bind (digits 2 0 s) (\<lambda>(mi, s).
         if \<not> more_time sep s then Some ((h, mi, 0, 0), s)
         else Option.bind (skip_sep (CHR '':'') sep s) (\<lambda>s.
           Option.bind (digits 2 0 s) (\<lambda>(sec, s).
           map_option (\<lambda>(us, s). ((h, mi, sec, us), s)) (parse_frac s))))))"

definition hms_us :: "nat \<times> nat \<times> nat \<times> int \<Rightarrow> int" where
  "hms_us = (\<lambda>(h, mi, sec, us). (int h * 3600 + int mi * 60 + int sec) * second_us + us)"

definition parse_offset :: "string \<Rightarrow> int option option" where
  "parse_offset s =
     (case s of [] \<Rightarrow> Some None
      | x # r \<Rightarrow>
          if x = CHR ''Z'' then (if r = [] then Some (Some 0) else None)
          else if x = CHR ''+'' \<or> x = CHR ''-'' then
            Option.bind (parse_hms r) (\<lambda>(t, r).
              if r = [] \<and> hms_us t < 24 * hour_us
              then Some (Some (if x = CHR ''-'' then - hms_us t else hms_us t)) else None)
          else None)"

definition time_ok :: "nat \<times> nat \<times> nat \<times> int \<Rightarrow> bool" where
  "time_ok = (\<lambda>(h, mi, sec, us). h < 24 \<and> mi < 60 \<and> sec < 60)"

definition fromisoformat :: "string \<Rightarrow> pydt option" where
  "fromisoformat s =
     Option.bind (parse_date s) (\<lambda>(n, s).
       let day = (n - epoch_ord) * 24 * hour_us in
       case s of [] \<Rightarrow> Some \<lparr>wall = day, off = None\<rparr>
       | _ # s \<Rightarrow>
           Option.bind (parse_hms s) (\<lambda>(t, s).
             if time_ok t
             then map_option (\<lambda>z. \<lparr>wall = day + hms_us t, off = z\<rparr>) (parse_offset s)
             else None))"

section \<open>Arithmetic, comparison and strftime\<close>

definition shift_us :: "int \<Rightarrow> pydt \<Rightarrow> pydt" where
  "shift_us us dt = dt\<lparr>wall := wall dt + us\<rparr>"

text \<open>A naive value read as UTC.\<close>

definition utc_us :: "pydt \<Rightarrow> int" where
  "utc_us dt = wall dt - (case off dt of None \<Rightarrow> 0 | Some z \<Rightarrow> z)"

definition strf_z :: "pydt \<Rightarrow> string" where
  "strf_z dt =
     (let d = wall dt div (24 * hour_us); t = nat (wall dt mod (24 * hour_us) div second_us);
          (y, m, day) = ord_ymd (d + epoch_ord)
      in digit_chars 4 (nat y) @ ''-'' @ digit_chars 2 m @ ''-'' @ digit_chars 2 day @ ''T''
         @ digit_chars 2 (t div 3600) @ '':'' @ digit_chars 2 (t mod 3600 div 60) @ '':''
         @ digit_chars 2 (t mod 60) @ ''Z'')"

text \<open>\<open>s.replace("Z", "+00:00")\<close>.\<close>

definition z_to_offset :: "string \<Rightarrow> string" where
  "z_to_offset s = concat (map (\<lambda>c. if c = CHR ''Z'' then ''+00:00'' else [c]) s)"

definition parse_z :: "string \<Rightarrow> pydt option" where
  "parse_z s = fromisoformat (z_to_offset s)"

text \<open>Kernel evaluation of a timestamp.\<close>

lemma digits_numeral:
  "digits (numeral v) acc (c # s)
     = (case digit c of None \<Rightarrow> None | Some k \<Rightarrow> digits (pred_numeral v) (10 * acc + k) s)"
  by (simp add: numeral_eq_Suc [of v])

lemma digit_chars_numeral:
  "digit_chars (numeral v) n
     = digit_chars (pred_numeral v) (n div 10) @ [fst (digit_table ! (n mod 10))]"
  by (simp add: numeral_eq_Suc [of v])

lemmas time_eval = digits_numeral digit_chars_numeral Let_def parse_z_def z_to_offset_def fromisoformat_def parse_date_def digit_def
  digit_table_def skip_sep_def ymd_ord_def days_in_month_def days_before_month_def
  days_before_year_def leap_def month_starts_def parse_hms_def more_time_def starts_digit_def
  parse_frac_def parse_offset_def hms_us_def time_ok_def second_us_def hour_us_def epoch_ord_def
  ord_ymd_def strf_z_def shift_us_def utc_us_def

end
