(* ===== verification/Fold_Events.thy ===== *)
theory Fold_Events
  imports Fold_Transport Py_Time
begin

text \<open>
  packages/coord-fold/coord_fold/events.py, pointers.py and channel.py: the signal-plane
  payload, the qualification of a pointer, and the channel configuration document.
\<close>

section \<open>Errors of the package\<close>

text \<open>
  \<open>NonTextSlug\<close>: an event whose slug is not a string. Python raises \<open>TypeError\<close> for a list or
  an object used as a dictionary key, and would key the row by a number that \<open>json.dumps\<close> then
  writes as text; the model stops there. \<open>IllShaped\<close>: a version-1 checkpoint whose fields do not
  have the types the code writes; Python raises \<open>KeyError\<close>/\<open>TypeError\<close> at the first use.
\<close>

datatype py_error = KeyError | AttributeError | TimeValueError | NonTextSlug | IllShaped

datatype fold_error =
    ChannelUnresolved
  | FoldRefused
  | FoldContended
  | TransportUnavailable
  | PyError py_error

section \<open>events.py\<close>

definition KINDS :: "string list" where
  "KINDS = [''open'', ''close'', ''claim'', ''release'', ''note'']"

definition PRIORITIES :: "string list" where
  "PRIORITIES = [''P0'', ''P1'', ''P2'', ''P3'']"

record payload =
  p_at :: string
  p_from :: string
  p_to :: string
  p_kind :: string
  p_slug :: string
  p_pri :: string
  p_ptr :: "string option"

text \<open>\<open>None\<close> is \<open>ValueError\<close>.\<close>

definition ptr_ok :: "string \<Rightarrow> bool" where
  "ptr_ok ptr \<longleftrightarrow> ptr \<noteq> [] \<and> last ptr \<noteq> CHR ''/'' \<and> CHR ''*'' \<notin> set ptr \<and> CHR ''?'' \<notin> set ptr"

definition build_payload ::
  "string \<Rightarrow> string \<Rightarrow> string \<Rightarrow> string \<Rightarrow> string \<Rightarrow> string \<Rightarrow> string option \<Rightarrow> payload option" where
  "build_payload at sender to kind slug pri ptr =
     (if kind \<notin> set KINDS then None
      else if pri \<notin> set PRIORITIES then None
      else if slug = [] then None
      else if ptr = None \<and> kind \<in> {''open'', ''close''} then None
      else if (case ptr of None \<Rightarrow> False | Some p \<Rightarrow> \<not> ptr_ok p) then None
      else Some \<lparr>p_at = at, p_from = sender, p_to = to, p_kind = kind, p_slug = slug,
                 p_pri = pri, p_ptr = ptr\<rparr>)"

definition payload_json :: "payload \<Rightarrow> json" where
  "payload_json p =
     JObj [(''v'', JNum 1), (''at'', JStr (p_at p)), (''from'', JStr (p_from p)),
           (''to'', JStr (p_to p)), (''kind'', JStr (p_kind p)), (''slug'', JStr (p_slug p)),
           (''pri'', JStr (p_pri p)),
           (''ptr'', case p_ptr p of None \<Rightarrow> JNull | Some q \<Rightarrow> JStr q)]"

text \<open>
  A parsed event. The kind is one of the five strings; the other fields are whatever the
  payload carries, \<open>None\<close> where the key is absent (reading it then raises \<open>KeyError\<close>).
\<close>

record event =
  ev_kind :: string
  ev_slug :: json
  ev_from :: "json option"
  ev_to :: "json option"
  ev_pri :: "json option"
  ev_ptr :: "json option"
  ev_at :: "json option"
  ev_id :: "json option"
  ev_recorded_at :: "json option"

definition parse_event :: "stream_rec \<Rightarrow> event option" where
  "parse_event r =
     (case rec_note r of
        Text (Some (JObj p)) \<Rightarrow>
          (case (map_of p ''v'', map_of p ''kind'', map_of p ''slug'') of
             (Some v, Some (JStr k), Some slug) \<Rightarrow>
               if is_num v 1 \<and> k \<in> set KINDS \<and> truthy slug
               then Some \<lparr>ev_kind = k, ev_slug = slug, ev_from = map_of p ''from'',
                          ev_to = map_of p ''to'', ev_pri = map_of p ''pri'',
                          ev_ptr = map_of p ''ptr'', ev_at = map_of p ''at'',
                          ev_id = rec_id r, ev_recorded_at = rec_at r\<rparr>
               else None
           | _ \<Rightarrow> None)
      | _ \<Rightarrow> None)"

definition payload_event :: "json option \<Rightarrow> json option \<Rightarrow> payload \<Rightarrow> event" where
  "payload_event rid at p =
     \<lparr>ev_kind = p_kind p, ev_slug = JStr (p_slug p), ev_from = Some (JStr (p_from p)),
      ev_to = Some (JStr (p_to p)), ev_pri = Some (JStr (p_pri p)),
      ev_ptr = Some (case p_ptr p of None \<Rightarrow> JNull | Some q \<Rightarrow> JStr q),
      ev_at = Some (JStr (p_at p)), ev_id = rid, ev_recorded_at = at\<rparr>"

lemma build_payload_SomeD:
  "build_payload at sender to kind slug pri ptr = Some p \<Longrightarrow>
     p_kind p = kind \<and> p_slug p = slug \<and> p_from p = sender \<and> p_to p = to \<and> p_at p = at
     \<and> p_pri p = pri \<and> p_ptr p = ptr \<and> kind \<in> set KINDS \<and> slug \<noteq> []"
  by (auto simp: build_payload_def split: if_splits)

lemma build_payload_ptr:
  "build_payload at sender to kind slug pri (Some q) = Some p \<Longrightarrow> ptr_ok q"
  by (auto simp: build_payload_def split: if_splits)

text \<open>What one agent emits is what the others read: a payload the builder accepts, once it is
  the note of a stream record, parses back to an event with exactly the fields it was built from.\<close>

theorem payload_roundtrip:
  assumes "build_payload at sender to kind slug pri ptr = Some p"
  shows "parse_event \<lparr>rec_id = rid, rec_at = rat, rec_note = Text (Some (payload_json p))\<rparr>
         = Some (payload_event rid rat p)"
  using build_payload_SomeD [OF assms]
  by (simp add: parse_event_def payload_json_def payload_event_def)

theorem payload_roundtrip_witness:
  "\<exists>p. parse_event \<lparr>rec_id = Some (JStr ''r1''), rec_at = None, rec_note = Text (Some (payload_json p))\<rparr>
        = Some (payload_event (Some (JStr ''r1'')) None p)
     \<and> p_kind p = ''open''"
  using payload_roundtrip
    [of "''t''" "''boss''" "''ann''" "''open''" "''fix''" "''P1''" "Some ''task/fix.md''" _ "Some (JStr ''r1'')" None]
  by (force simp: build_payload_def KINDS_def PRIORITIES_def ptr_ok_def)

section \<open>pointers.py\<close>

definition team_prefix :: string where "team_prefix = ''team/''"

definition qualify :: "string \<Rightarrow> string option \<Rightarrow> string" where
  "qualify team ptr =
     (let p = dropWhile (\<lambda>c. c = CHR ''/'') (case ptr of None \<Rightarrow> [] | Some p \<Rightarrow> p)
      in if prefix team_prefix p then p else team_prefix @ team @ ''/'' @ p)"

lemma qualify_prefix: "prefix team_prefix (qualify team ptr)"
  by (simp add: qualify_def Let_def)

lemma qualify_idem: "qualify team (Some (qualify team' ptr)) = qualify team' ptr"
proof -
  obtain s where "qualify team' ptr = team_prefix @ s"
    using qualify_prefix by (auto simp: prefix_def)
  then show ?thesis by (simp add: qualify_def team_prefix_def)
qed

section \<open>channel.py\<close>

definition config_path :: "string \<Rightarrow> string" where
  "config_path team = ''team/'' @ team @ ''/_coord/bus-v4/records.json''"

text \<open>
  The two required values are truthy and come out as \<open>str(cfg[k])\<close>; the text Python gives a list or
  an object is not modelled (\<open>IllShaped\<close>). A configuration that is not an object has no \<open>get\<close>.
\<close>

definition channel_resolve :: "'w store \<Rightarrow> string \<Rightarrow> 'w \<Rightarrow> (fold_error + string \<times> string) \<times> 'w" where
  "channel_resolve st team w =
     (case read_classified st (config_path team) w of (r, w') \<Rightarrow>
        (case r of
           RdOk (Some (JObj cfg)) \<Rightarrow>
             if truthy_opt (map_of cfg ''data_type'') \<and> truthy_opt (map_of cfg ''api_version'')
             then (case (py_str (map_of cfg ''data_type''), py_str (map_of cfg ''api_version'')) of
                     (Some d, Some v) \<Rightarrow> Inr (d, v)
                   | _ \<Rightarrow> Inl (PyError IllShaped))
             else Inl ChannelUnresolved
         | RdOk (Some _) \<Rightarrow> Inl (PyError AttributeError)
         | _ \<Rightarrow> Inl ChannelUnresolved, w'))"

end
