(* ===== verification/Fold_Checkpoint.thy ===== *)
theory Fold_Checkpoint
  imports Fold_Events
begin

text \<open>
  packages/coord-fold/coord_fold/checkpoint.py: the durable checkpoint of one agent, the
  application of one event to it, and its loading and saving. The properties: a saved
  checkpoint loads back as it was, an event already seen changes nothing, and the open set after
  any sequence of fresh events is what the last decisive event of each slug says.
\<close>

section \<open>The state\<close>

record row =
  r_pri :: json
  r_from :: json
  r_to :: "json option"
  r_ptr :: json
  r_at :: json
  r_claimed :: "json option"

record ckpt =
  cursor :: json
  open_rows :: "(string, row) dict"
  unread_events :: int
  unreadable :: "string list"
  seen :: "json list"
  generation :: int
  writer :: json

definition SEEN_CAP :: nat where
  "SEEN_CAP = 500"

definition ckpt_path :: "string \<Rightarrow> string \<Rightarrow> string" where
  "ckpt_path team agent = ''team/'' @ team @ ''/member/'' @ agent @ ''/fold/checkpoint.json''"

definition empty_ckpt :: "string \<Rightarrow> ckpt" where
  "empty_ckpt now = \<lparr>cursor = JStr now, open_rows = [], unread_events = 0, unreadable = [],
     seen = [], generation = 0, writer = JStr []\<rparr>"

section \<open>Applying an event\<close>

fun slug_key :: "json \<Rightarrow> py_error + string" where
  "slug_key (JStr s) = Inr s"
| "slug_key _ = Inl NonTextSlug"

definition update_rows :: "event \<Rightarrow> (string, row) dict \<Rightarrow> py_error + (string, row) dict" where
  "update_rows ev rows =
     (if ev_kind ev = ''open'' then
        (case (ev_pri ev, ev_from ev, ev_to ev, ev_ptr ev, ev_at ev) of
           (Some pri, Some frm, Some tgt, Some ptr, Some at) \<Rightarrow>
             res_bind (slug_key (ev_slug ev)) (\<lambda>slug.
               Inr (dict_set slug \<lparr>r_pri = pri, r_from = frm, r_to = Some tgt, r_ptr = ptr,
                                   r_at = at, r_claimed = None\<rparr> rows))
         | _ \<Rightarrow> Inl KeyError)
      else if ev_kind ev \<in> {''close'', ''release''} then
        res_bind (slug_key (ev_slug ev)) (\<lambda>slug. Inr (dict_pop slug rows))
      else if ev_kind ev = ''claim'' then
        res_bind (slug_key (ev_slug ev)) (\<lambda>slug.
          case map_of rows slug of
            None \<Rightarrow> Inr rows
          | Some r \<Rightarrow> (case ev_from ev of None \<Rightarrow> Inl KeyError
                        | Some frm \<Rightarrow> Inr (dict_set slug (r\<lparr>r_claimed := Some frm\<rparr>) rows)))
      else Inr rows)"

definition is_seen :: "event \<Rightarrow> json list \<Rightarrow> bool" where
  "is_seen ev ids = (case ev_id ev of None \<Rightarrow> False | Some rid \<Rightarrow> truthy rid \<and> rid \<in> set ids)"

definition remember :: "event \<Rightarrow> json list \<Rightarrow> json list" where
  "remember ev ids =
     (case ev_id ev of None \<Rightarrow> ids
      | Some rid \<Rightarrow> if truthy rid then keep_last SEEN_CAP (ids @ [rid]) else ids)"

definition apply_event :: "event \<Rightarrow> ckpt \<Rightarrow> py_error + ckpt" where
  "apply_event ev s =
     (if is_seen ev (seen s) then Inr s
      else res_bind (update_rows ev (open_rows s)) (\<lambda>rows.
             Inr (s\<lparr>open_rows := rows, seen := remember ev (seen s)\<rparr>)))"

fun apply_all :: "event list \<Rightarrow> ckpt \<Rightarrow> py_error + ckpt" where
  "apply_all [] s = Inr s"
| "apply_all (ev # evs) s = res_bind (apply_event ev s) (apply_all evs)"

lemma apply_all_append: "apply_all (xs @ ys) s = res_bind (apply_all xs s) (apply_all ys)"
proof (induction xs arbitrary: s)
  case (Cons x xs)
  then show ?case by (cases "apply_event x s") auto
qed simp

lemma apply_event_seen: "is_seen ev (seen s) \<Longrightarrow> apply_event ev s = Inr s"
  by (simp add: apply_event_def)

lemma remember_bound: "length ids \<le> SEEN_CAP \<Longrightarrow> length (remember ev ids) \<le> SEEN_CAP"
  by (auto simp: remember_def split: option.splits)

lemma remember_is_seen: "ev_id ev = Some rid \<Longrightarrow> truthy rid \<Longrightarrow> is_seen ev (remember ev ids)"
  by (simp add: is_seen_def remember_def last_in_keep_last SEEN_CAP_def)

lemma apply_event_frame:
  assumes "apply_event ev s = Inr s'"
  shows "cursor s' = cursor s" "generation s' = generation s" "writer s' = writer s"
    "unread_events s' = unread_events s" "unreadable s' = unreadable s"
  using assms by (auto simp: apply_event_def res_simps split: if_splits)

lemma apply_all_frame:
  assumes "apply_all evs s = Inr s'"
  shows "cursor s' = cursor s" "generation s' = generation s" "writer s' = writer s"
    "unread_events s' = unread_events s" "unreadable s' = unreadable s"
  using assms by (induction evs arbitrary: s) (auto simp: res_simps dest: apply_event_frame)

section \<open>The invariant\<close>

text \<open>Rows are keyed once, ids are bounded, and every remembered id is truthy.\<close>

definition ckpt_inv :: "ckpt \<Rightarrow> bool" where
  "ckpt_inv s \<longleftrightarrow> dict_ok (open_rows s) \<and> length (seen s) \<le> SEEN_CAP \<and> list_all truthy (seen s)"

lemma ckpt_inv_empty [simp]: "ckpt_inv (empty_ckpt now)"
  by (simp add: ckpt_inv_def empty_ckpt_def)

lemma update_rows_ok: "update_rows ev rows = Inr rows' \<Longrightarrow> dict_ok rows \<Longrightarrow> dict_ok rows'"
  by (auto simp: update_rows_def res_bind_def split: if_splits option.splits sum.splits)

lemma remember_truthy: "list_all truthy ids \<Longrightarrow> list_all truthy (remember ev ids)"
  using set_keep_last [of SEEN_CAP "ids @ [the (ev_id ev)]"]
  by (auto simp: remember_def list_all_iff split: option.splits)

lemma apply_event_inv: "apply_event ev s = Inr s' \<Longrightarrow> ckpt_inv s \<Longrightarrow> ckpt_inv s'"
  by (auto simp: apply_event_def ckpt_inv_def res_simps remember_bound remember_truthy
      split: if_splits dest: update_rows_ok)

lemma apply_all_inv: "apply_all evs s = Inr s' \<Longrightarrow> ckpt_inv s \<Longrightarrow> ckpt_inv s'"
  by (induction evs arbitrary: s) (auto simp: res_simps dest: apply_event_inv)

section \<open>Stored form\<close>

definition opt_field :: "string \<Rightarrow> json option \<Rightarrow> (string \<times> json) list" where
  "opt_field k x = (case x of None \<Rightarrow> [] | Some j \<Rightarrow> [(k, j)])"

definition row_json :: "row \<Rightarrow> json" where
  "row_json r = JObj ([(''pri'', r_pri r), (''from'', r_from r)] @ opt_field ''to'' (r_to r)
     @ [(''ptr'', r_ptr r), (''at'', r_at r)] @ opt_field ''claimed_by'' (r_claimed r))"

fun json_row :: "json \<Rightarrow> row option" where
  "json_row (JObj d) =
     (case (map_of d ''pri'', map_of d ''from'', map_of d ''ptr'', map_of d ''at'') of
        (Some pri, Some frm, Some ptr, Some at) \<Rightarrow>
          Some \<lparr>r_pri = pri, r_from = frm, r_to = map_of d ''to'', r_ptr = ptr, r_at = at,
                r_claimed = map_of d ''claimed_by''\<rparr>
      | _ \<Rightarrow> None)"
| "json_row _ = None"

definition ckpt_json :: "ckpt \<Rightarrow> json" where
  "ckpt_json s =
     JObj [(''v'', JNum 1), (''cursor'', cursor s),
           (''open'', JObj (map (\<lambda>(k, r). (k, row_json r)) (open_rows s))),
           (''unread_events'', JNum (unread_events s)),
           (''unreadable_pointers'', JArr (map JStr (unreadable s))),
           (''seen'', JArr (seen s)), (''generation'', JNum (generation s)),
           (''writer'', writer s)]"

definition int_field :: "json option \<Rightarrow> int option" where
  "int_field x = (case x of None \<Rightarrow> Some 0 | Some (JNum n) \<Rightarrow> Some n
     | Some (JBool b) \<Rightarrow> Some (if b then 1 else 0) | _ \<Rightarrow> None)"

definition keyed_row :: "string \<times> json \<Rightarrow> (string \<times> row) option" where
  "keyed_row kj = map_option (Pair (fst kj)) (json_row (snd kj))"

definition json_ckpt :: "(string \<times> json) list \<Rightarrow> ckpt option" where
  "json_ckpt d =
     (case (map_of d ''cursor'', map_of d ''open'', map_of d ''seen'',
            int_field (map_of d ''unread_events''), int_field (map_of d ''generation'')) of
        (Some cur, Some (JObj rows), Some (JArr ids), Some un, Some gen) \<Rightarrow>
          (case (all_some keyed_row rows,
                 (case map_of d ''unreadable_pointers'' of None \<Rightarrow> Some []
                  | Some (JArr xs) \<Rightarrow> all_some as_str xs | _ \<Rightarrow> None)) of
             (Some rs, Some bad) \<Rightarrow>
               Some \<lparr>cursor = cur, open_rows = rs, unread_events = un, unreadable = bad,
                     seen = ids, generation = gen,
                     writer = (case map_of d ''writer'' of None \<Rightarrow> JStr [] | Some x \<Rightarrow> x)\<rparr>
           | _ \<Rightarrow> None)
      | _ \<Rightarrow> None)"

text \<open>
  \<open>LIllShaped\<close> is a version-1 object whose fields have other types, with its generation where
  that is an integer; the source answers \<open>"ok"\<close> and raises when it uses the field.
\<close>

datatype loaded = LOk ckpt | LFresh | LCorrupt | LError | LIllShaped "int option"

definition classify_ckpt :: "read_result \<Rightarrow> loaded" where
  "classify_ckpt r =
     (case r of
        RdError \<Rightarrow> LError
      | RdAbsent \<Rightarrow> LFresh
      | RdOk (Some (JObj d)) \<Rightarrow>
          (case map_of d ''v'' of
             Some v \<Rightarrow> if is_num v 1
                        then (case json_ckpt d of Some s \<Rightarrow> LOk s | 
                               None \<Rightarrow> LIllShaped (int_field (map_of d ''generation'')))
                        else LCorrupt
           | None \<Rightarrow> LCorrupt)
      | RdOk _ \<Rightarrow> LCorrupt)"

definition ckpt_load :: "'w store \<Rightarrow> string \<Rightarrow> string \<Rightarrow> 'w \<Rightarrow> loaded \<times> 'w" where
  "ckpt_load st team agent w =
     (case read_classified st (ckpt_path team agent) w of (r, w') \<Rightarrow> (classify_ckpt r, w'))"

definition ckpt_save :: "'w store \<Rightarrow> string \<Rightarrow> string \<Rightarrow> ckpt \<Rightarrow> 'w \<Rightarrow> bool \<times> 'w" where
  "ckpt_save st team agent s w = save_doc st (ckpt_path team agent) (ckpt_json s) w"

lemma json_row_row_json [simp]: "json_row (row_json r) = Some r"
  by (simp add: row_json_def opt_field_def split: option.splits)

lemma keyed_rows [simp]:
  "all_some keyed_row (map (\<lambda>(k, r). (k, row_json r)) rows) = Some rows"
  by (induction rows) (auto simp: keyed_row_def)

lemma all_strs [simp]: "all_some as_str (map JStr xs) = Some xs"
  by (induction xs) auto

lemma classify_ckpt_json [simp]: "classify_ckpt (RdOk (Some (ckpt_json s))) = LOk s"
  by (simp add: classify_ckpt_def ckpt_json_def json_ckpt_def int_field_def)

text \<open>A checkpoint an acknowledged save wrote is the one the next load answers, whatever the
  store did in between to other documents: never a fresh start, never a corrupt document, never
  other rows or another generation; the read may only fail.\<close>

theorem ckpt_save_load:
  assumes "pointer_store st contents"
    and "ckpt_save st team agent s w = (True, w1)"
    and "ckpt_load st team agent w1 = (l, w2)"
  shows "l = LOk s \<or> l = LError"
proof -
  obtain r where r: "read_classified st (ckpt_path team agent) w1 = (r, w2)" "l = classify_ckpt r"
    using assms(3) by (auto simp: ckpt_load_def split: prod.splits)
  have "r = RdOk (Some (ckpt_json s)) \<or> r = RdError"
    using pointer_store.read_after_save [OF assms(1) _ r(1)] assms(2) by (simp add: ckpt_save_def)
  then show ?thesis
  proof
    assume "r = RdOk (Some (ckpt_json s))"
    with r(2) have "l = LOk s" by (simp only: classify_ckpt_json)
    then show ?thesis ..
  next
    assume "r = RdError"
    with r(2) show ?thesis by (simp add: classify_ckpt_def)
  qed
qed

section \<open>What a sequence of events leaves open\<close>

text \<open>The ids of a batch are new: no event of it is suppressed as seen.\<close>

definition event_ids :: "event list \<Rightarrow> json list" where
  "event_ids evs = filter truthy (List.map_filter ev_id evs)"

definition fresh_batch :: "event list \<Rightarrow> json list \<Rightarrow> bool" where
  "fresh_batch evs ids \<longleftrightarrow> distinct (event_ids evs) \<and> set (event_ids evs) \<inter> set ids = {}"

lemma event_ids_simps [simp]:
  "event_ids [] = []"
  "event_ids (ev # evs) = (case ev_id ev of None \<Rightarrow> event_ids evs
     | Some rid \<Rightarrow> if truthy rid then rid # event_ids evs else event_ids evs)"
  by (simp_all add: event_ids_def map_filter_simps split: option.splits)

lemma event_ids_append [simp]: "event_ids (xs @ ys) = event_ids xs @ event_ids ys"
  by (induction xs) (auto split: option.splits)

lemma remember_ids:
  "remember ev ids = (case event_ids [ev] of [] \<Rightarrow> ids | _ \<Rightarrow> keep_last SEEN_CAP (ids @ event_ids [ev]))"
  by (auto simp: remember_def split: option.splits)

lemma set_remember: "set (remember ev ids) \<subseteq> set ids \<union> set (event_ids [ev])"
  using set_keep_last [of SEEN_CAP "ids @ event_ids [ev]"]
  by (auto simp: remember_ids simp del: event_ids_simps split: list.splits)

lemma fresh_batch_Cons:
  assumes "fresh_batch (ev # evs) ids"
  shows "\<not> is_seen ev ids" "fresh_batch evs (remember ev ids)"
proof -
  show "\<not> is_seen ev ids"
    using assms by (auto simp: fresh_batch_def is_seen_def split: option.splits)
  have "set (event_ids [ev]) \<inter> set (event_ids evs) = {}"
    using assms by (auto simp: fresh_batch_def split: option.splits if_splits)
  with assms set_remember [of ev ids] show "fresh_batch evs (remember ev ids)"
    by (auto simp: fresh_batch_def split: option.splits if_splits)
qed

lemma apply_fresh:
  assumes "apply_all (ev # evs) s = Inr s'" and "fresh_batch (ev # evs) (seen s)"
  obtains rows where "update_rows ev (open_rows s) = Inr rows"
    and "apply_all evs (s\<lparr>open_rows := rows, seen := remember ev (seen s)\<rparr>) = Inr s'"
    and "fresh_batch evs (seen (s\<lparr>open_rows := rows, seen := remember ev (seen s)\<rparr>))"
  using assms fresh_batch_Cons [OF assms(2)] by (auto simp: apply_event_def res_simps)

text \<open>The last event that opens or drops a slug.\<close>

definition decisive :: "string \<Rightarrow> event \<Rightarrow> bool" where
  "decisive slug ev \<longleftrightarrow> ev_slug ev = JStr slug \<and> ev_kind ev \<in> {''open'', ''close'', ''release''}"

fun owed :: "string \<Rightarrow> event list \<Rightarrow> bool \<Rightarrow> bool" where
  "owed slug [] was = was"
| "owed slug (ev # evs) was = owed slug evs (if decisive slug ev then ev_kind ev = ''open'' else was)"

lemma slug_key_Inr [simp]: "slug_key j = Inr s \<longleftrightarrow> j = JStr s"
  by (cases j) auto

lemma update_rows_dom:
  assumes "update_rows ev rows = Inr rows'"
  shows "(map_of rows' slug \<noteq> None) \<longleftrightarrow>
         (if decisive slug ev then ev_kind ev = ''open'' else map_of rows slug \<noteq> None)"
  using assms
  by (auto simp: update_rows_def decisive_def res_bind_def split: if_splits option.splits sum.splits)

text \<open>C31. Refinement of the checkpoint to its meaning: after any batch of new events an obligation is
  open exactly when the last event that opens, closes or releases its slug is an open (or, if
  there is none, when it was open before); claims and notes never open or drop one.\<close>

theorem open_set_is_owed:
  assumes "apply_all evs s = Inr s'" and "fresh_batch evs (seen s)"
  shows "(map_of (open_rows s') slug \<noteq> None) = owed slug evs (map_of (open_rows s) slug \<noteq> None)"
  using assms
proof (induction evs arbitrary: s)
  case (Cons ev evs)
  then obtain rows where "update_rows ev (open_rows s) = Inr rows"
    and "apply_all evs (s\<lparr>open_rows := rows, seen := remember ev (seen s)\<rparr>) = Inr s'"
    and "fresh_batch evs (seen (s\<lparr>open_rows := rows, seen := remember ev (seen s)\<rparr>))"
    by (blast elim: apply_fresh)
  with Cons.IH show ?case using update_rows_dom [of ev "open_rows s" rows slug] by simp
qed simp

section \<open>Replaying an overlap\<close>

lemma seen_after:
  assumes "apply_all evs s = Inr s'" and "fresh_batch evs (seen s)" and "length (seen s) \<le> SEEN_CAP"
  shows "seen s' = keep_last SEEN_CAP (seen s @ event_ids evs)"
  using assms
proof (induction evs arbitrary: s)
  case (Cons ev evs)
  then obtain rows where "update_rows ev (open_rows s) = Inr rows"
    and *: "apply_all evs (s\<lparr>open_rows := rows, seen := remember ev (seen s)\<rparr>) = Inr s'"
    and "fresh_batch evs (seen (s\<lparr>open_rows := rows, seen := remember ev (seen s)\<rparr>))"
    by (blast elim: apply_fresh)
  with Cons.IH Cons.prems(3) have "seen s' = keep_last SEEN_CAP (remember ev (seen s) @ event_ids evs)"
    by (simp add: remember_bound)
  then show ?case by (auto simp: remember_def split: option.splits)
qed simp

lemma replay_seen:
  assumes "\<forall>ev\<in>set evs. is_seen ev (seen s)"
  shows "apply_all evs s = Inr s"
  using assms by (induction evs) (simp_all add: apply_event_seen)

end
