(* ===== verification/Fold_Run.thy ===== *)
theory Fold_Run
  imports Fold_Checkpoint
begin

text \<open>
  packages/coord-fold/coord_fold/fold.py: one pass of the fold. \<open>fold_read\<close> resolves the
  channel, loads the checkpoint and folds the records read from the cursor (less an overlap);
  \<open>fold_verify\<close> checks the pointers of the open rows; \<open>fold_commit\<close> re-reads the checkpoint,
  refuses when its generation moved, and saves; \<open>fold_run\<close> is the three in order.
\<close>

section \<open>Relevance\<close>

definition BROADCAST :: string where "BROADCAST = ''all''"

definition EPOCH :: string where "EPOCH = ''1970-01-01T00:00:00Z''"

definition OWN_ACTIONS :: "string list" where
  "OWN_ACTIONS = [''claim'', ''release'', ''close'']"

text \<open>An obligation belongs to its assignee: the addressed one, everybody but the sender of a
  broadcast, and the agent's own actions on a row it holds.\<close>

definition relevant :: "string \<Rightarrow> event \<Rightarrow> py_error + bool" where
  "relevant agent ev =
     (case ev_to ev of
        None \<Rightarrow> Inl KeyError
      | Some tgt \<Rightarrow>
          if tgt = JStr agent then Inr True
          else (case ev_from ev of
                  None \<Rightarrow> Inl KeyError
                | Some frm \<Rightarrow>
                    Inr (tgt = JStr BROADCAST \<and> frm \<noteq> JStr agent
                         \<or> frm = JStr agent \<and> ev_kind ev \<in> set OWN_ACTIONS)))"

text \<open>The relevant event of a stream item, if it is one.\<close>

definition classify_item :: "string \<Rightarrow> item \<Rightarrow> py_error + event option" where
  "classify_item agent it =
     (case it of
        NotObject \<Rightarrow> Inl AttributeError
      | Rec r \<Rightarrow> (case parse_event r of
                   None \<Rightarrow> Inr None
                 | Some ev \<Rightarrow> res_bind (relevant agent ev) (\<lambda>b. Inr (if b then Some ev else None))))"

definition item_at :: "item \<Rightarrow> json \<Rightarrow> json" where
  "item_at it dflt =
     (case it of Rec r \<Rightarrow> (case rec_at r of Some a \<Rightarrow> if truthy a then a else dflt | None \<Rightarrow> dflt)
      | NotObject \<Rightarrow> dflt)"

section \<open>The loop over the records\<close>

record pass =
  ps_state :: ckpt
  ps_applied :: int
  ps_unread :: int
  ps_last :: json

definition pass_step :: "string \<Rightarrow> int \<Rightarrow> item \<Rightarrow> pass \<Rightarrow> py_error + pass" where
  "pass_step agent max_events it p =
     (let at = item_at it (ps_last p) in
      res_bind (classify_item agent it) (\<lambda>c.
        case c of
          None \<Rightarrow> Inr (if ps_unread p = 0 then p\<lparr>ps_last := at\<rparr> else p)
        | Some ev \<Rightarrow>
            if max_events \<le> ps_applied p then Inr (p\<lparr>ps_unread := ps_unread p + 1\<rparr>)
            else res_bind (apply_event ev (ps_state p)) (\<lambda>s.
                   Inr (p\<lparr>ps_state := s, ps_applied := ps_applied p + 1, ps_last := at\<rparr>))))"

fun pass_loop :: "string \<Rightarrow> int \<Rightarrow> item list \<Rightarrow> pass \<Rightarrow> py_error + pass" where
  "pass_loop agent m [] p = Inr p"
| "pass_loop agent m (it # its) p = res_bind (pass_step agent m it p) (pass_loop agent m its)"

definition start_pass :: "ckpt \<Rightarrow> pass" where
  "start_pass s = \<lparr>ps_state = s, ps_applied = 0, ps_unread = 0, ps_last = cursor s\<rparr>"

section \<open>One pass\<close>

datatype source = SrcOk | SrcFresh | SrcRebuild

record outcome =
  out_state :: ckpt
  out_source :: source
  out_applied :: int
  out_unread :: int
  out_rc :: int

definition OVERLAP_SECONDS :: int where "OVERLAP_SECONDS = 5"

definition minus_overlap :: "json \<Rightarrow> py_error + string" where
  "minus_overlap cur =
     (case cur of
        JStr s \<Rightarrow> (case parse_z s of
                    None \<Rightarrow> Inl TimeValueError
                  | Some dt \<Rightarrow> Inr (strf_z (shift_us (- OVERLAP_SECONDS * second_us) dt)))
      | _ \<Rightarrow> Inl AttributeError)"

definition fold_start :: "bool \<Rightarrow> loaded \<Rightarrow> fold_error + ckpt \<times> source" where
  "fold_start rebuild l =
     (case l of
        LCorrupt \<Rightarrow> Inl FoldRefused
      | LError \<Rightarrow> Inl TransportUnavailable
      | LIllShaped _ \<Rightarrow> Inl (PyError IllShaped)
      | LFresh \<Rightarrow> Inr (empty_ckpt EPOCH, SrcFresh)
      | LOk s \<Rightarrow>
          if rebuild
          then Inr ((empty_ckpt EPOCH)\<lparr>generation := generation s, writer := writer s\<rparr>, SrcRebuild)
          else Inr (s, SrcOk))"

definition py :: "py_error + 'a \<Rightarrow> fold_error + 'a" where
  "py r = (case r of Inl e \<Rightarrow> Inl (PyError e) | Inr a \<Rightarrow> Inr a)"

text \<open>
  The folded state before verification, with the counts. A generator that raises part-way raises
  after the records it yielded were processed; nothing is saved then.
\<close>

definition fold_pass :: "string \<Rightarrow> int \<Rightarrow> item list \<Rightarrow> bool \<Rightarrow> ckpt \<Rightarrow> fold_error + pass" where
  "fold_pass agent max_events its raised s =
     res_bind (py (pass_loop agent max_events its (start_pass s))) (\<lambda>p.
       if raised then Inl TransportUnavailable
       else if ps_applied p = 0 \<and> ps_unread p \<noteq> 0 then Inl FoldRefused
       else Inr (p\<lparr>ps_state := (ps_state p)\<lparr>cursor := ps_last p, unread_events := ps_unread p,
                                         unreadable := []\<rparr>\<rparr>))"

definition fold_read ::
  "'w store \<Rightarrow> string \<Rightarrow> string \<Rightarrow> int \<Rightarrow> bool \<Rightarrow> 'w \<Rightarrow> (fold_error + source \<times> pass) \<times> 'w" where
  "fold_read st team agent max_events rebuild w =
     (case channel_resolve st team w of (cfg, w1) \<Rightarrow>
       (case cfg of Inl e \<Rightarrow> (Inl e, w1) | Inr cfg \<Rightarrow>
       (case ckpt_load st team agent w1 of (l, w2) \<Rightarrow>
       (case fold_start rebuild l of Inl e \<Rightarrow> (Inl e, w2) | Inr (s, src) \<Rightarrow>
       (case minus_overlap (cursor s) of Inl e \<Rightarrow> (Inl (PyError e), w2) | Inr since \<Rightarrow>
       (case read_events st (fst cfg) since w2 of ((its, raised), w3) \<Rightarrow>
         (res_bind (fold_pass agent max_events its raised s) (\<lambda>p. Inr (src, p)), w3)))))))"

definition row_ptr :: "row \<Rightarrow> py_error + string option" where
  "row_ptr r = (case r_ptr r of JStr s \<Rightarrow> Inr (Some s)
     | j \<Rightarrow> if truthy j then Inl AttributeError else Inr None)"

fun unreadable_slugs ::
  "'w store \<Rightarrow> string \<Rightarrow> (string, row) dict \<Rightarrow> 'w \<Rightarrow> (py_error + string list) \<times> 'w" where
  "unreadable_slugs st team [] w = (Inr [], w)"
| "unreadable_slugs st team ((slug, r) # rows) w =
     (case row_ptr r of
        Inl e \<Rightarrow> (Inl e, w)
      | Inr ptr \<Rightarrow>
          (case read_classified st (qualify team ptr) w of (res, w1) \<Rightarrow>
           (case unreadable_slugs st team rows w1 of (rest, w2) \<Rightarrow>
             (res_bind rest (\<lambda>bad. Inr (case res of RdOk _ \<Rightarrow> bad | _ \<Rightarrow> slug # bad)), w2))))"

definition fold_verify :: "'w store \<Rightarrow> string \<Rightarrow> bool \<Rightarrow> ckpt \<Rightarrow> 'w \<Rightarrow> (fold_error + ckpt) \<times> 'w" where
  "fold_verify st team verify s w =
     (if \<not> verify then (Inr s, w)
      else (case unreadable_slugs st team (open_rows s) w of (r, w') \<Rightarrow>
              (res_bind (py r) (\<lambda>bad. Inr (s\<lparr>unreadable := bad\<rparr>)), w')))"

definition generation_moved :: "int \<Rightarrow> loaded \<Rightarrow> fold_error + bool" where
  "generation_moved gen l =
     (case l of
        LError \<Rightarrow> Inl TransportUnavailable
      | LOk s \<Rightarrow> Inr (generation s \<noteq> gen)
      | LIllShaped (Some g) \<Rightarrow> Inr (g \<noteq> gen)
      | LIllShaped None \<Rightarrow> Inl (PyError IllShaped)
      | _ \<Rightarrow> Inr False)"

definition fold_commit ::
  "'w store \<Rightarrow> string \<Rightarrow> string \<Rightarrow> string \<Rightarrow> int \<Rightarrow> ckpt \<Rightarrow> 'w \<Rightarrow> (fold_error + ckpt) \<times> 'w" where
  "fold_commit st team agent writer_id gen s w =
     (case ckpt_load st team agent w of (l, w1) \<Rightarrow>
       (case generation_moved gen l of
          Inl e \<Rightarrow> (Inl e, w1)
        | Inr True \<Rightarrow> (Inl FoldContended, w1)
        | Inr False \<Rightarrow>
            let s' = s\<lparr>generation := gen + 1, writer := JStr writer_id\<rparr> in
            (case ckpt_save st team agent s' w1 of (ok, w2) \<Rightarrow>
              (if ok then Inr s' else Inl TransportUnavailable, w2))))"

definition fold_run ::
  "'w store \<Rightarrow> string \<Rightarrow> string \<Rightarrow> string \<Rightarrow> int \<Rightarrow> bool \<Rightarrow> bool \<Rightarrow> 'w \<Rightarrow> (fold_error + outcome) \<times> 'w" where
  "fold_run st team agent writer_id max_events verify rebuild w =
     (case fold_read st team agent max_events rebuild w of (r, w1) \<Rightarrow>
       (case r of Inl e \<Rightarrow> (Inl e, w1) | Inr (src, p) \<Rightarrow>
       (case fold_verify st team verify (ps_state p) w1 of (r, w2) \<Rightarrow>
       (case r of Inl e \<Rightarrow> (Inl e, w2) | Inr s \<Rightarrow>
       (case fold_commit st team agent writer_id (generation s) s w2 of (r, w3) \<Rightarrow>
         (res_bind r (\<lambda>s'. Inr \<lparr>out_state = s', out_source = src, out_applied = ps_applied p,
            out_unread = ps_unread p, out_rc = (if unreadable s' = [] then 0 else 3)\<rparr>), w3))))))"

section \<open>What the loop computes\<close>

definition relevant_events :: "string \<Rightarrow> item list \<Rightarrow> event list" where
  "relevant_events agent its =
     List.map_filter (\<lambda>it. case classify_item agent it of Inr c \<Rightarrow> c | Inl _ \<Rightarrow> None) its"

text \<open>The records before the first relevant event that is not applied.\<close>

fun observed :: "string \<Rightarrow> nat \<Rightarrow> item list \<Rightarrow> item list" where
  "observed agent n [] = []"
| "observed agent n (it # its) =
     (case classify_item agent it of
        Inr (Some ev) \<Rightarrow> (case n of 0 \<Rightarrow> [] | Suc k \<Rightarrow> it # observed agent k its)
      | _ \<Rightarrow> it # observed agent n its)"

definition last_at :: "item list \<Rightarrow> json \<Rightarrow> json" where
  "last_at its dflt = foldl (\<lambda>a it. item_at it a) dflt its"

lemma relevant_events_simps [simp]:
  "relevant_events agent [] = []"
  "relevant_events agent (it # its) =
     (case classify_item agent it of Inr (Some ev) \<Rightarrow> ev # relevant_events agent its
      | _ \<Rightarrow> relevant_events agent its)"
  by (auto simp: relevant_events_def map_filter_simps split: sum.splits option.splits)

lemma relevant_events_append [simp]:
  "relevant_events agent (xs @ ys) = relevant_events agent xs @ relevant_events agent ys"
  by (induction xs) (auto split: sum.splits option.splits)

lemma pass_loop_full:
  assumes "pass_loop agent m its p = Inr p'" and "ps_unread p > 0" and "m \<le> ps_applied p"
  shows "p' = p\<lparr>ps_unread := ps_unread p + int (length (relevant_events agent its))\<rparr>"
  using assms
proof (induction its arbitrary: p)
  case (Cons it its)
  then obtain c where c: "classify_item agent it = Inr c"
    by (auto simp: pass_step_def Let_def res_simps)
  show ?case
  proof (cases c)
    case None
    with Cons c show ?thesis by (simp add: pass_step_def Let_def)
  next
    case (Some ev)
    with Cons.prems c have "pass_loop agent m its (p\<lparr>ps_unread := ps_unread p + 1\<rparr>) = Inr p'"
      by (simp add: pass_step_def Let_def)
    from Cons.IH [OF this] Cons.prems c Some show ?thesis by simp
  qed
qed simp

text \<open>With room for \<open>n\<close> more events, the loop applies the first \<open>n\<close> relevant ones, counts the
  rest, and stops observing at the first it did not apply.\<close>

lemma pass_loop_spec:
  assumes "pass_loop agent m its p = Inr p'" and "ps_unread p = 0"
    and "n = nat (m - ps_applied p)"
  shows "apply_all (take n (relevant_events agent its)) (ps_state p) = Inr (ps_state p')
       \<and> ps_applied p' = ps_applied p + int (length (take n (relevant_events agent its)))
       \<and> ps_unread p' = int (length (drop n (relevant_events agent its)))
       \<and> ps_last p' = last_at (observed agent n its) (ps_last p)"
  using assms
proof (induction its arbitrary: p n)
  case (Cons it its)
  note IH = Cons.IH and prems = Cons.prems
  from prems obtain c where c: "classify_item agent it = Inr c"
    by (auto simp: pass_step_def Let_def res_simps)
  show ?case
  proof (cases c)
    case None
    with prems c have "pass_loop agent m its (p\<lparr>ps_last := item_at it (ps_last p)\<rparr>) = Inr p'"
      by (simp add: pass_step_def Let_def)
    from IH [OF this _ refl] prems c None show ?thesis by (simp add: last_at_def)
  next
    case (Some ev)
    show ?thesis
    proof (cases "m \<le> ps_applied p")
      case True
      with prems c Some have "pass_loop agent m its (p\<lparr>ps_unread := 1\<rparr>) = Inr p'"
        by (simp add: pass_step_def Let_def)
      from pass_loop_full [OF this] True prems c Some show ?thesis by (simp add: last_at_def)
    next
      case False
      with prems c Some obtain s where s: "apply_event ev (ps_state p) = Inr s"
        and "pass_loop agent m its (p\<lparr>ps_state := s, ps_applied := ps_applied p + 1,
               ps_last := item_at it (ps_last p)\<rparr>) = Inr p'"
        by (auto simp: pass_step_def Let_def res_simps)
      from IH [OF this(2) _ refl] prems(2) have
        "apply_all (take (nat (m - (ps_applied p + 1))) (relevant_events agent its)) s = Inr (ps_state p')
         \<and> ps_applied p' = ps_applied p + 1
             + int (length (take (nat (m - (ps_applied p + 1))) (relevant_events agent its)))
         \<and> ps_unread p' = int (length (drop (nat (m - (ps_applied p + 1))) (relevant_events agent its)))
         \<and> ps_last p' = last_at (observed agent (nat (m - (ps_applied p + 1))) its) (item_at it (ps_last p))"
        by simp
      moreover have "n = Suc (nat (m - (ps_applied p + 1)))"
        using False prems(3) by simp
      ultimately show ?thesis using s c Some by (simp add: last_at_def)
    qed
  qed
qed (simp add: last_at_def)

end
