(* ===== verification/Fold_Props.thy ===== *)
theory Fold_Props
  imports Fold_Run
begin

text \<open>
  What one pass of the fold guarantees: which events it applies and where its cursor stops, that
  bounded passes over overlapping windows compute what one pass over the whole stream would,
  whom an obligation belongs to, what is in the store after each outcome, and two ways in which
  a pass makes no progress.
\<close>

section \<open>One pass\<close>

lemma pass_loop_classified:
  assumes "pass_loop agent m its p = Inr p'" and "it \<in> set its"
  shows "\<exists>c. classify_item agent it = Inr c"
  using assms
proof (induction its arbitrary: p)
  case (Cons x its)
  then obtain q where "pass_step agent m x p = Inr q" and "pass_loop agent m its q = Inr p'"
    by (auto simp: res_simps)
  with Cons show ?case by (auto simp: pass_step_def Let_def res_simps)
qed simp

lemma pass_loop_total:
  assumes "\<forall>it\<in>set its. \<exists>c. classify_item agent it = Inr c"
    and "apply_all (take (nat (m - ps_applied p)) (relevant_events agent its)) (ps_state p) = Inr s"
  shows "\<exists>p'. pass_loop agent m its p = Inr p'"
  using assms
proof (induction its arbitrary: p)
  case (Cons it its)
  from Cons.prems(1) obtain c where c: "classify_item agent it = Inr c" by auto
  show ?case
  proof (cases c)
    case None
    with Cons c show ?thesis by (simp add: pass_step_def Let_def)
  next
    case (Some ev)
    show ?thesis
    proof (cases "m \<le> ps_applied p")
      case True
      with Cons c Some show ?thesis by (simp add: pass_step_def Let_def)
    next
      case False
      then have "nat (m - ps_applied p) = Suc (nat (m - (ps_applied p + 1)))" by simp
      with Cons.prems(2) c Some obtain s1 where s1: "apply_event ev (ps_state p) = Inr s1"
        and rest: "apply_all (take (nat (m - (ps_applied p + 1))) (relevant_events agent its)) s1 = Inr s"
        by (auto simp: res_simps)
      let ?q = "p\<lparr>ps_state := s1, ps_applied := ps_applied p + 1, ps_last := item_at it (ps_last p)\<rparr>"
      have "\<exists>p'. pass_loop agent m its ?q = Inr p'"
        using Cons.IH [of ?q] Cons.prems(1) rest by simp
      with False c Some s1 show ?thesis by (simp add: pass_step_def Let_def)
    qed
  qed
qed simp

text \<open>C3. One bounded pass: of the relevant events of the window, in stream order, exactly the first
  \<open>max_events\<close> are applied and the others counted as unread; the cursor becomes the time of the
  last record before the first unapplied relevant event, and nothing else of the checkpoint moves.\<close>

theorem fold_pass_spec:
  assumes "fold_pass agent m its raised s = Inr p"
  defines "evs \<equiv> relevant_events agent its"
  shows "\<not> raised \<and>
     (\<exists>s'. apply_all (take (nat m) evs) s = Inr s' \<and>
       ps_state p = s'\<lparr>cursor := last_at (observed agent (nat m) its) (cursor s),
                       unread_events := int (length (drop (nat m) evs)), unreadable := []\<rparr>) \<and>
     ps_applied p = int (length (take (nat m) evs)) \<and>
     ps_unread p = int (length (drop (nat m) evs)) \<and>
     generation (ps_state p) = generation s"
proof -
  from assms(1) obtain q where q: "pass_loop agent m its (start_pass s) = Inr q"
    and r: "\<not> raised" "p = q\<lparr>ps_state := (ps_state q)\<lparr>cursor := ps_last q,
              unread_events := ps_unread q, unreadable := []\<rparr>\<rparr>"
    by (auto simp: fold_pass_def py_def res_simps split: sum.splits if_splits)
  from pass_loop_spec [OF q _ refl] have spec:
    "apply_all (take (nat m) evs) s = Inr (ps_state q)"
    "ps_applied q = int (length (take (nat m) evs))"
    "ps_unread q = int (length (drop (nat m) evs))"
    "ps_last q = last_at (observed agent (nat m) its) (cursor s)"
    by (auto simp: start_pass_def evs_def)
  with r show ?thesis using apply_all_frame(2) [OF spec(1)] by simp
qed

lemma fold_pass_exists:
  assumes "\<forall>it\<in>set its. \<exists>c. classify_item agent it = Inr c"
    and "apply_all (take (nat m) (relevant_events agent its)) s = Inr s'"
    and "0 < m \<or> relevant_events agent its = []"
  shows "\<exists>p. fold_pass agent m its False s = Inr p"
proof -
  obtain q where q: "pass_loop agent m its (start_pass s) = Inr q"
    using pass_loop_total [of its agent m "start_pass s"] assms(1,2) by (auto simp: start_pass_def)
  from pass_loop_spec [OF q _ refl] have
    "ps_applied q = int (length (take (nat m) (relevant_events agent its)))"
    "ps_unread q = int (length (drop (nat m) (relevant_events agent its)))"
    by (auto simp: start_pass_def)
  with assms(3) have "\<not> (ps_applied q = 0 \<and> ps_unread q \<noteq> 0)" by auto
  with q show ?thesis by (simp add: fold_pass_def py_def)
qed

lemma fold_pass_classified:
  "fold_pass agent m its raised s = Inr p \<Longrightarrow> it \<in> set its \<Longrightarrow> \<exists>c. classify_item agent it = Inr c"
  by (auto simp: fold_pass_def py_def res_simps split: sum.splits intro: pass_loop_classified)

lemma apply_all_cursor:
  "apply_all evs (s\<lparr>cursor := c, unread_events := u, unreadable := b\<rparr>)
   = res_bind (apply_all evs s) (\<lambda>s'. Inr (s'\<lparr>cursor := c, unread_events := u, unreadable := b\<rparr>))"
proof (induction evs arbitrary: s)
  case (Cons ev evs)
  have "apply_event ev (s\<lparr>cursor := c, unread_events := u, unreadable := b\<rparr>)
      = res_bind (apply_event ev s) (\<lambda>s'. Inr (s'\<lparr>cursor := c, unread_events := u, unreadable := b\<rparr>))"
    by (auto simp: apply_event_def res_bind_def split: sum.splits)
  with Cons show ?case by (cases "apply_event ev s") auto
qed simp

section \<open>Passes over overlapping windows\<close>

lemma overlap_is_seen:
  assumes "apply_all (xs @ ys) s = Inr s'" and "fresh_batch (xs @ ys) (seen s)"
    and "length (seen s) \<le> SEEN_CAP" and "length ys \<le> SEEN_CAP"
    and "\<forall>ev\<in>set ys. \<exists>rid. ev_id ev = Some rid \<and> truthy rid"
  shows "\<forall>ev\<in>set ys. is_seen ev (seen s')"
proof -
  have len: "length (event_ids ys) \<le> length ys"
    by (induction ys) (auto split: option.splits)
  have mem: "ev_id ev = Some rid \<and> truthy rid \<Longrightarrow> ev \<in> set ys \<Longrightarrow> rid \<in> set (event_ids ys)" for ev rid
    by (induction ys) (auto split: option.splits)
  have "seen s' = keep_last SEEN_CAP ((seen s @ event_ids xs) @ event_ids ys)"
    using seen_after [OF assms(1-3)] by simp
  then have "set (event_ids ys) \<subseteq> set (seen s')"
    using set_keep_last_suffix len assms(4) by (metis le_trans)
  with mem assms(5) show ?thesis by (fastforce simp: is_seen_def)
qed

text \<open>C30. Resuming is exact while the overlap is remembered. A first pass reads \<open>os @ ns\<close>: \<open>os\<close> are
  records of earlier passes whose events the checkpoint still remembers, the events of \<open>ns\<close> are
  new, with distinct ids (the ids the checkpoint does not know yet). The second pass re-reads a tail
  \<open>ys\<close> of that window and goes on to \<open>zs\<close>. When neither pass leaves an event unread, and every
  event of \<open>ys\<close> has an id among the last 500 the first pass leaves remembered, the agent ends with
  the open rows and the remembered ids that one pass over \<open>os @ ns @ zs\<close> gives. An overlap whose
  ids were pushed out of the 500 in between is not covered: its events are applied again.\<close>

theorem resumed_pass_exact:
  assumes p1: "fold_pass agent m1 (os @ ns) False s = Inr p1" and "ps_unread p1 = 0" and tail: "os @ ns = xs @ ys"
    and p2: "fold_pass agent m2 (ys @ zs) False (ps_state p1) = Inr p2" and "ps_unread p2 = 0"
    and old: "\<forall>ev\<in>set (relevant_events agent os). is_seen ev (seen s)"
    and fresh: "fresh_batch (relevant_events agent ns) (seen s)"
    and inv: "ckpt_inv s"
    and remembered: "\<forall>ev\<in>set (relevant_events agent ys). \<exists>rid. ev_id ev = Some rid \<and> truthy rid
      \<and> rid \<in> set (keep_last SEEN_CAP (seen s @ event_ids (relevant_events agent ns)))"
    and m3: "int (length (relevant_events agent (os @ ns @ zs))) < m3"
  shows "\<exists>p3. fold_pass agent m3 (os @ ns @ zs) False s = Inr p3 \<and>
           open_rows (ps_state p3) = open_rows (ps_state p2) \<and>
           seen (ps_state p3) = seen (ps_state p2)"
proof -
  let ?o = "relevant_events agent os" and ?n = "relevant_events agent ns" and ?y = "relevant_events agent ys"
    and ?z = "relevant_events agent zs"
  from fold_pass_spec [OF p1] \<open>ps_unread p1 = 0\<close> obtain s1 c1 where
    s1: "apply_all (?o @ ?n) s = Inr s1"
    and st1: "ps_state p1 = s1\<lparr>cursor := c1, unread_events := 0, unreadable := []\<rparr>" by auto
  have "apply_all ?o s = Inr s" using old by (simp add: replay_seen)
  with s1 have n: "apply_all ?n s = Inr s1" by (simp add: apply_all_append res_simps)
  have "seen s1 = keep_last SEEN_CAP (seen s @ event_ids ?n)"
    using seen_after [OF n fresh] inv by (simp add: ckpt_inv_def)
  with remembered have "\<forall>ev\<in>set ?y. is_seen ev (seen s1)" by (fastforce simp: is_seen_def)
  then have "apply_all ?y s1 = Inr s1" by (rule replay_seen)
  moreover from fold_pass_spec [OF p2] \<open>ps_unread p2 = 0\<close> obtain s2 c2 where
    "apply_all (?y @ ?z) (ps_state p1) = Inr s2"
    and st2: "ps_state p2 = s2\<lparr>cursor := c2, unread_events := 0, unreadable := []\<rparr>" by auto
  ultimately obtain s3 where s3: "apply_all ?z s1 = Inr s3"
    and s2: "s2 = s3\<lparr>cursor := c1, unread_events := 0, unreadable := []\<rparr>"
    by (auto simp: st1 apply_all_cursor apply_all_append res_simps)
  have all: "apply_all (?o @ ?n @ ?z) s = Inr s3"
    using s1 s3 by (auto simp: apply_all_append res_simps)
  have "\<forall>it\<in>set (os @ ns @ zs). \<exists>c. classify_item agent it = Inr c"
    using fold_pass_classified [OF p1] fold_pass_classified [OF p2] by auto
  with fold_pass_exists [of "os @ ns @ zs" agent m3 s s3] all m3
  obtain p3 where p3: "fold_pass agent m3 (os @ ns @ zs) False s = Inr p3" by auto
  from fold_pass_spec [OF p3] all m3 obtain c3 u3 where
    "ps_state p3 = s3\<lparr>cursor := c3, unread_events := u3, unreadable := []\<rparr>" by auto
  with p3 st2 s2 show ?thesis by simp
qed

section \<open>Whose obligation it is\<close>

definition assigned :: "string \<Rightarrow> row \<Rightarrow> bool" where
  "assigned agent r \<longleftrightarrow> r_to r = Some (JStr agent)
     \<or> r_to r = Some (JStr BROADCAST) \<and> r_from r \<noteq> JStr agent"

definition assignee_inv :: "string \<Rightarrow> ckpt \<Rightarrow> bool" where
  "assignee_inv agent s \<longleftrightarrow> (\<forall>slug r. map_of (open_rows s) slug = Some r \<longrightarrow> assigned agent r)"

lemma update_rows_cases:
  assumes "update_rows ev rows = Inr rows'" and "map_of rows' slug = Some r"
  obtains "map_of rows slug = Some r"
  | r0 frm where "map_of rows slug = Some r0" "r = r0\<lparr>r_claimed := Some frm\<rparr>"
  | frm tgt where "ev_kind ev = ''open''" "ev_from ev = Some frm" "ev_to ev = Some tgt"
      "r_from r = frm" "r_to r = Some tgt"
  using assms
  by (auto simp: update_rows_def res_bind_def split: if_splits option.splits sum.splits)

lemma assigned_claimed [simp]: "assigned agent (r\<lparr>r_claimed := x\<rparr>) = assigned agent r"
  by (simp add: assigned_def)

lemma relevant_open_assigned:
  assumes "relevant agent ev = Inr True" and "ev_kind ev = ''open''"
    and "ev_from ev = Some (r_from r)" and "ev_to ev = r_to r"
  shows "assigned agent r"
  using assms by (auto simp: relevant_def assigned_def OWN_ACTIONS_def split: option.splits if_splits)

lemma apply_event_assignee:
  assumes "apply_event ev s = Inr s'" and "relevant agent ev = Inr True" and "assignee_inv agent s"
  shows "assignee_inv agent s'"
proof (cases "is_seen ev (seen s)")
  case False
  with assms(1) obtain rows where u: "update_rows ev (open_rows s) = Inr rows"
    and rows: "open_rows s' = rows"
    by (auto simp: apply_event_def res_simps)
  have "assigned agent r" if "map_of rows slug = Some r" for slug r
    using u that
  proof (cases rule: update_rows_cases)
    case (3 frm tgt)
    with relevant_open_assigned assms(2) show ?thesis by simp
  qed (use assms(3) in \<open>auto simp: assignee_inv_def\<close>)
  with rows show ?thesis by (simp add: assignee_inv_def)
qed (use assms in \<open>simp add: apply_event_def\<close>)

lemma relevant_events_relevant:
  "ev \<in> set (relevant_events agent its) \<Longrightarrow> relevant agent ev = Inr True"
  by (induction its)
    (auto simp: classify_item_def res_bind_def split: item.splits sum.splits option.splits if_splits)

lemma apply_all_assignee:
  "apply_all evs s = Inr s' \<Longrightarrow> \<forall>ev\<in>set evs. relevant agent ev = Inr True \<Longrightarrow> assignee_inv agent s
   \<Longrightarrow> assignee_inv agent s'"
  by (induction evs arbitrary: s) (auto simp: res_simps dest: apply_event_assignee)

text \<open>The assignee ruling is an invariant of every pass: each open row is addressed to the agent,
  or is a broadcast somebody else sent; nothing an agent sends to another ever opens for itself.\<close>

theorem fold_pass_assignee:
  assumes "fold_pass agent m its raised s = Inr p" and "assignee_inv agent s"
  shows "assignee_inv agent (ps_state p)"
proof -
  from fold_pass_spec [OF assms(1)] obtain s' c u where
    "apply_all (take (nat m) (relevant_events agent its)) s = Inr s'"
    and st: "ps_state p = s'\<lparr>cursor := c, unread_events := u, unreadable := []\<rparr>" by auto
  then have "assignee_inv agent s'"
    using apply_all_assignee [of _ s s' agent] assms(2)
    by (metis in_set_takeD relevant_events_relevant)
  with st show ?thesis by (simp add: assignee_inv_def)
qed

section \<open>Passes without progress\<close>

text \<open>C32. Suppressed replays use up the budget: when the first \<open>max_events\<close> relevant records of the
  window are all already seen and more follow, the pass ends normally (it is not the refused
  "no progress" case) with the same open rows and the same seen ids, and applies nothing new.\<close>

theorem replays_exhaust_budget:
  assumes "\<forall>it\<in>set its. \<exists>c. classify_item agent it = Inr c"
    and "\<forall>ev\<in>set (take (nat m) (relevant_events agent its)). is_seen ev (seen s)"
    and "0 < m" and "m < int (length (relevant_events agent its))"
  shows "\<exists>p. fold_pass agent m its False s = Inr p \<and> ps_applied p = m \<and> 0 < ps_unread p \<and>
           open_rows (ps_state p) = open_rows s \<and> seen (ps_state p) = seen s \<and>
           cursor (ps_state p) = last_at (observed agent (nat m) its) (cursor s)"
proof -
  have same: "apply_all (take (nat m) (relevant_events agent its)) s = Inr s"
    by (rule replay_seen) (rule assms(2))
  with fold_pass_exists [OF assms(1)] assms(3)
  obtain p where p: "fold_pass agent m its False s = Inr p" by blast
  from fold_pass_spec [OF p] same assms(3,4) show ?thesis
    using p by (intro exI [of _ p]) (auto simp: min_def)
qed

text \<open>A poison record: one stream item that is not an object, or one version-1 payload without a
  \<open>to\<close>, in the window makes every pass raise before anything is saved, whatever else the window
  holds and however often the pass is retried.\<close>

theorem poison_record_blocks:
  assumes "it \<in> set its" and "classify_item agent it = Inl e"
  shows "\<exists>e'. fold_pass agent m its raised s = Inl e'"
proof (cases "fold_pass agent m its raised s")
  case (Inr p)
  from fold_pass_classified [OF Inr assms(1)] assms(2) show ?thesis by simp
qed simp

end
