(* ===== verification/Fold_Race.thy ===== *)
theory Fold_Race
  imports Fold_Props
begin

text \<open>
  The fold against its store: what each outcome of \<open>fold_run\<close> leaves in the store, and several
  hosts running passes of one agent at the same time. The second part is a step relation over
  the stored checkpoint and the hosts' program counters; its steps are the code's own
  \<open>fold_start\<close>, \<open>fold_pass\<close> and \<open>generation_moved\<close>.
\<close>

section \<open>Reads leave the store alone\<close>

lemma ckpt_load_frame:
  "pointer_store st contents \<Longrightarrow> contents (snd (ckpt_load st team agent w)) = contents w"
  using pointer_store.read_frame [of st contents "ckpt_path team agent" w]
  by (auto simp: ckpt_load_def split: prod.splits)

lemma channel_frame:
  "pointer_store st contents \<Longrightarrow> contents (snd (channel_resolve st team w)) = contents w"
  using pointer_store.read_frame [of st contents "config_path team" w]
  by (auto simp: channel_resolve_def split: prod.splits)

lemma fold_read_frame:
  assumes "pointer_store st contents"
  shows "contents (snd (fold_read st team agent m rebuild w)) = contents w"
  using channel_frame [OF assms, of team w]
    ckpt_load_frame [OF assms, of team agent "snd (channel_resolve st team w)"]
    pointer_store.events_frame [OF assms]
  by (auto simp: fold_read_def split: prod.splits sum.splits) (metis snd_conv)+

lemma unreadable_frame:
  assumes "pointer_store st contents"
  shows "contents (snd (unreadable_slugs st team rows w)) = contents w"
  using pointer_store.read_frame [OF assms]
  by (induction st team rows w rule: unreadable_slugs.induct)
    (auto split: prod.splits sum.splits, metis snd_conv)

lemma fold_verify_frame:
  assumes "pointer_store st contents"
  shows "contents (snd (fold_verify st team verify s w)) = contents w"
  using unreadable_frame [OF assms, of team "open_rows s" w]
  by (auto simp: fold_verify_def split: prod.splits)

lemma fold_verify_state:
  "fold_verify st team verify s w = (Inr s', w') \<Longrightarrow> \<exists>bad. s' = s\<lparr>unreadable := bad\<rparr>"
  by (auto simp: fold_verify_def res_simps split: if_splits prod.splits
      intro: exI [of _ "unreadable s"])

lemma fold_verify_generation:
  "fold_verify st team verify s w = (Inr s', w') \<Longrightarrow> generation s' = generation s"
  by (drule fold_verify_state) auto

lemma fold_read_start:
  assumes "fold_read st team agent m rebuild w = (Inr (src, p), w')"
  obtains w1 w2 l s where "snd (channel_resolve st team w) = w1"
    and "ckpt_load st team agent w1 = (l, w2)" and "fold_start rebuild l = Inr (s, src)"
    and "generation (ps_state p) = generation s"
proof -
  from assms obtain cfg w1 l w2 s its raised where
    "channel_resolve st team w = (Inr cfg, w1)" "ckpt_load st team agent w1 = (l, w2)"
    "fold_start rebuild l = Inr (s, src)" "fold_pass agent m its raised s = Inr p"
    by (auto simp: fold_read_def res_simps split: prod.splits sum.splits)
  with that show thesis using fold_pass_spec [of agent m its raised s p] by simp
qed

section \<open>What one run leaves in the store\<close>

text \<open>The generation a pass that finds \<open>d\<close> at the checkpoint path starts from.\<close>

definition base_generation :: "doc option \<Rightarrow> int \<Rightarrow> bool" where
  "base_generation d g =
     (case d of None \<Rightarrow> g = 0
      | Some d \<Rightarrow> (case classify_ckpt (RdOk d) of LOk s \<Rightarrow> g = generation s | _ \<Rightarrow> False))"

lemma start_generation:
  assumes ps: "pointer_store st contents"
    and load: "ckpt_load st team agent w = (l, w')" and start: "fold_start rebuild l = Inr (s, src)"
  shows "base_generation (contents w (ckpt_path team agent)) (generation s)"
proof -
  obtain rd where rd: "read_classified st (ckpt_path team agent) w = (rd, w')" and l: "l = classify_ckpt rd"
    using load by (auto simp: ckpt_load_def split: prod.splits)
  show ?thesis
  proof (cases rd)
    case (RdOk d)
    with pointer_store.read_ok [OF ps] rd have "contents w (ckpt_path team agent) = Some d" by metis
    moreover have "\<exists>s1. l = LOk s1 \<and> generation s = generation s1"
      using start RdOk l
      by (cases l) (auto simp: fold_start_def classify_ckpt_def split: if_splits option.splits json.splits)
    ultimately show ?thesis using RdOk l by (auto simp: base_generation_def)
  next
    case RdAbsent
    with pointer_store.read_absent [OF ps] rd have "contents w (ckpt_path team agent) = None" by metis
    with RdAbsent start l show ?thesis
      by (auto simp: base_generation_def fold_start_def classify_ckpt_def empty_ckpt_def)
  next
    case RdError
    with start l show ?thesis by (simp add: fold_start_def classify_ckpt_def)
  qed
qed

lemma fold_commit_effect:
  assumes ps: "pointer_store st contents" and run: "fold_commit st team agent wid gen s w = (r, w')"
  shows "r = Inr s' \<Longrightarrow> s' = s\<lparr>generation := gen + 1, writer := JStr wid\<rparr> \<and>
           contents w' = (contents w)(ckpt_path team agent \<mapsto> Some (ckpt_json s'))"
    and "r = Inl e \<Longrightarrow> e \<noteq> TransportUnavailable \<Longrightarrow> contents w' = contents w"
    and "q \<noteq> ckpt_path team agent \<Longrightarrow> contents w' q = contents w q"
proof -
  let ?s' = "s\<lparr>generation := gen + 1, writer := JStr wid\<rparr>"
  obtain l w1 where l: "ckpt_load st team agent w = (l, w1)" by fastforce
  have c1: "contents w1 = contents w" using ckpt_load_frame [OF ps, of team agent w] l by simp
  obtain ok w2 where save: "ckpt_save st team agent ?s' w1 = (ok, w2)" by fastforce
  note steps = run l save
  have saved: "ok \<Longrightarrow> contents w2 = (contents w)(ckpt_path team agent \<mapsto> Some (ckpt_json ?s'))"
    using pointer_store.save_ok [OF ps, of _ _ w1 w2] save c1 by (simp add: ckpt_save_def)
  have frame: "q \<noteq> ckpt_path team agent \<Longrightarrow> contents w2 q = contents w q"
    using pointer_store.save_frame [OF ps, of q "ckpt_path team agent" "ckpt_json ?s'" w1] save c1
    by (simp add: ckpt_save_def)
  show "s' = ?s' \<and> contents w' = (contents w)(ckpt_path team agent \<mapsto> Some (ckpt_json s'))" if "r = Inr s'"
    using steps saved that
    by (auto simp: fold_commit_def Let_def split: sum.splits bool.splits if_splits)
  show "contents w' = contents w" if "r = Inl e" "e \<noteq> TransportUnavailable"
    using steps c1 that
    by (auto simp: fold_commit_def Let_def split: sum.splits bool.splits if_splits)
  show "contents w' q = contents w q" if "q \<noteq> ckpt_path team agent"
    using steps c1 frame that
    by (auto simp: fold_commit_def Let_def split: sum.splits bool.splits if_splits)
qed

lemma fold_run_error_before_commit:
  assumes "fold_run st team agent wid m verify rebuild w = (r, w')"
    and "fold_read st team agent m rebuild w = (r1, w1)"
    and "(\<exists>e. r1 = Inl e) \<or> (\<exists>src p e. r1 = Inr (src, p) \<and>
           fst (fold_verify st team verify (ps_state p) w1) = Inl e)"
  shows "\<exists>e. r = Inl e \<and> (w' = w1 \<or> (\<exists>s. w' = snd (fold_verify st team verify s w1)))"
  using assms by (auto simp: fold_run_def split: prod.splits) (metis snd_conv)

text \<open>The three phases of a run that reaches its commit.\<close>

lemma fold_run_phases:
  assumes ps: "pointer_store st contents"
    and run: "fold_run st team agent wid m verify rebuild w = (r, w')"
  obtains e where "r = Inl e" and "contents w' = contents w"
  | src s w2 r3 and p :: pass where "fold_commit st team agent wid (generation s) s w2 = (r3, w')"
      and "contents w2 = contents w" and "base_generation (contents w (ckpt_path team agent)) (generation s)"
      and "r = res_bind r3 (\<lambda>s'. Inr \<lparr>out_state = s', out_source = src, out_applied = ps_applied p,
             out_unread = ps_unread p, out_rc = (if unreadable s' = [] then 0 else 3)\<rparr>)"
proof -
  obtain r1 w1 where r1: "fold_read st team agent m rebuild w = (r1, w1)" by fastforce
  have c1: "contents w1 = contents w" using fold_read_frame [OF ps, of team agent m rebuild w] r1 by simp
  have c2: "contents (snd (fold_verify st team verify s w1)) = contents w" for s
    using fold_verify_frame [OF ps] c1 by simp
  show thesis
  proof (cases "\<exists>src p s. r1 = Inr (src, p) \<and> fst (fold_verify st team verify (ps_state p) w1) = Inr s")
    case False
    then have "\<exists>e. r = Inl e \<and> (w' = w1 \<or> (\<exists>s. w' = snd (fold_verify st team verify s w1)))"
      by (intro fold_run_error_before_commit [OF run r1]) (metis old.prod.exhaust sum.exhaust)
    with c1 c2 that(1) show thesis by metis
  next
    case True
    then obtain src p s where r1': "r1 = Inr (src, p)"
      and v: "fst (fold_verify st team verify (ps_state p) w1) = Inr s" by blast
    define w2 where "w2 = snd (fold_verify st team verify (ps_state p) w1)"
    have vw: "fold_verify st team verify (ps_state p) w1 = (Inr s, w2)"
      using v by (metis prod.collapse w2_def)
    obtain r3 w3 where r3: "fold_commit st team agent wid (generation s) s w2 = (r3, w3)" by fastforce
    obtain v1 v2 l0 s0 where
      "snd (channel_resolve st team w) = v1" and "ckpt_load st team agent v1 = (l0, v2)"
      and "fold_start rebuild l0 = Inr (s0, src)" and "generation (ps_state p) = generation s0"
      by (rule fold_read_start [OF r1 [unfolded r1']])
    moreover have "generation s = generation (ps_state p)"
      by (rule fold_verify_generation [OF vw])
    ultimately have "base_generation (contents w (ckpt_path team agent)) (generation s)"
      using start_generation [OF ps] channel_frame [OF ps, of team w] by metis
    moreover have "r = res_bind r3 (\<lambda>s'. Inr \<lparr>out_state = s', out_source = src, out_applied = ps_applied p,
             out_unread = ps_unread p, out_rc = (if unreadable s' = [] then 0 else 3)\<rparr>)" and "w' = w3"
      using run r1 r1' vw r3 by (auto simp: fold_run_def)
    ultimately show thesis using that(2) [of s w2 r3 src p] r3 c2 by (simp add: w2_def)
  qed
qed

text \<open>The effect of a run: on success the store holds exactly the returned checkpoint at the
  agent's path, one generation past the one the pass started from; a run that is refused,
  contended or raises changes no document at all; and no run ever touches another path.\<close>

theorem fold_run_effect:
  assumes ps: "pointer_store st contents"
    and run: "fold_run st team agent wid m verify rebuild w = (r, w')"
  shows "(case r of
            Inr out \<Rightarrow>
              contents w' = (contents w)(ckpt_path team agent \<mapsto> Some (ckpt_json (out_state out))) \<and>
              writer (out_state out) = JStr wid \<and>
              base_generation (contents w (ckpt_path team agent)) (generation (out_state out) - 1)
          | Inl e \<Rightarrow> e \<noteq> TransportUnavailable \<longrightarrow> contents w' = contents w)
       \<and> (\<forall>q. q \<noteq> ckpt_path team agent \<longrightarrow> contents w' q = contents w q)"
proof (rule fold_run_phases [OF ps run])
  fix src s w2 r3 and p :: pass
  assume commit: "fold_commit st team agent wid (generation s) s w2 = (r3, w')"
    and "contents w2 = contents w" "base_generation (contents w (ckpt_path team agent)) (generation s)"
    and "r = res_bind r3 (\<lambda>s'. Inr \<lparr>out_state = s', out_source = src, out_applied = ps_applied p,
             out_unread = ps_unread p, out_rc = (if unreadable s' = [] then 0 else 3)\<rparr>)"
  with fold_commit_effect [OF ps commit] show ?thesis by (cases r3) auto
qed simp

section \<open>Several hosts\<close>

text \<open>
  The checkpoint document (\<open>None\<close> when absent), and per host: the document its pass started
  from with the state it computed, before and after the re-read. \<open>saves\<close> records, per save, the
  document the pass started from and the one it replaced.
\<close>

datatype host = Idle | Working "ckpt option" ckpt | Cleared "ckpt option" ckpt

record race =
  doc_now :: "ckpt option"
  hosts :: "nat \<Rightarrow> host"
  saves :: "(ckpt option \<times> ckpt option) list"

definition as_loaded :: "ckpt option \<Rightarrow> loaded" where
  "as_loaded d = (case d of None \<Rightarrow> LFresh | Some s \<Rightarrow> LOk s)"

definition set_host :: "nat \<Rightarrow> host \<Rightarrow> race \<Rightarrow> race" where
  "set_host h x r = r\<lparr>hosts := (hosts r)(h := x)\<rparr>"

definition saved :: "string \<Rightarrow> ckpt \<Rightarrow> ckpt" where
  "saved wid s = s\<lparr>generation := generation s + 1, writer := JStr wid\<rparr>"

definition host_save :: "nat \<Rightarrow> string \<Rightarrow> ckpt option \<Rightarrow> ckpt \<Rightarrow> race \<Rightarrow> race" where
  "host_save h wid base s r =
     (set_host h Idle r)\<lparr>doc_now := Some (saved wid s), saves := (base, doc_now r) # saves r\<rparr>"

text \<open>\<open>atomic\<close>: no other host acts between a re-read and the save it allows.\<close>

inductive race_step :: "bool \<Rightarrow> race \<Rightarrow> race \<Rightarrow> bool" for atomic where
  start: "hosts r h = Idle \<Longrightarrow> fold_start rebuild (as_loaded (doc_now r)) = Inr (s, src) \<Longrightarrow>
     fold_pass agent m its False s = Inr p \<Longrightarrow>
     race_step atomic r (set_host h (Working (doc_now r) (ps_state p)) r)"
| refuse: "hosts r h = Working base s \<Longrightarrow>
     generation_moved (generation s) (as_loaded (doc_now r)) = Inr True \<Longrightarrow>
     race_step atomic r (set_host h Idle r)"
| reread: "\<not> atomic \<Longrightarrow> hosts r h = Working base s \<Longrightarrow>
     generation_moved (generation s) (as_loaded (doc_now r)) = Inr False \<Longrightarrow>
     race_step atomic r (set_host h (Cleared base s) r)"
| save: "\<not> atomic \<Longrightarrow> hosts r h = Cleared base s \<Longrightarrow> race_step atomic r (host_save h wid base s r)"
| commit: "hosts r h = Working base s \<Longrightarrow>
     generation_moved (generation s) (as_loaded (doc_now r)) = Inr False \<Longrightarrow>
     race_step atomic r (host_save h wid base s r)"

inductive_cases race_stepE: "race_step atomic r r'"

definition race_init :: "ckpt option \<Rightarrow> race" where
  "race_init d = \<lparr>doc_now = d, hosts = (\<lambda>_. Idle), saves = []\<rparr>"

definition doc_generation :: "ckpt option \<Rightarrow> int" where
  "doc_generation d = (case d of None \<Rightarrow> 0 | Some s \<Rightarrow> generation s)"

text \<open>A host at work knows the generation it started from; the document is still that one, or newer.\<close>

fun host_ok :: "ckpt option \<Rightarrow> host \<Rightarrow> bool" where
  "host_ok d Idle = True"
| "host_ok d (Cleared base s) = False"
| "host_ok d (Working base s) =
     (generation s = doc_generation base \<and>
      (base = d \<or> d \<noteq> None \<and> doc_generation base < doc_generation d))"

definition race_inv :: "race \<Rightarrow> bool" where
  "race_inv r \<longleftrightarrow> (\<forall>h. host_ok (doc_now r) (hosts r h)) \<and> (\<forall>(base, old)\<in>set (saves r). base = old)"

lemma race_inv_init: "race_inv (race_init d)"
  by (simp add: race_inv_def race_init_def)

lemma host_ok_newer:
  "host_ok d x \<Longrightarrow> doc_generation d < doc_generation (Some s) \<Longrightarrow> host_ok (Some s) x"
  by (cases x) auto

lemma race_inv_set_host: "race_inv r \<Longrightarrow> host_ok (doc_now r) x \<Longrightarrow> race_inv (set_host h x r)"
  by (auto simp: race_inv_def set_host_def)

lemma start_pass_generation:
  assumes "fold_start rebuild (as_loaded d) = Inr (s, src)" and "fold_pass agent m its raised s = Inr p"
  shows "generation (ps_state p) = doc_generation d"
proof -
  have "generation s = doc_generation d"
    using assms(1) by (auto simp: fold_start_def as_loaded_def doc_generation_def empty_ckpt_def
      split: option.splits if_splits)
  then show ?thesis using fold_pass_spec [OF assms(2)] by simp
qed

lemma not_moved_current:
  assumes "race_inv r" and "hosts r h = Working base s"
    and "generation_moved (generation s) (as_loaded (doc_now r)) = Inr False"
  shows "base = doc_now r" and "generation s = doc_generation (doc_now r)"
proof -
  from assms(1) have "host_ok (doc_now r) (hosts r h)" by (simp add: race_inv_def)
  with assms(2) have *: "generation s = doc_generation base"
    "base = doc_now r \<or> doc_now r \<noteq> None \<and> doc_generation base < doc_generation (doc_now r)"
    by auto
  with assms(3) show "base = doc_now r"
    by (auto simp: generation_moved_def as_loaded_def doc_generation_def)
  with * show "generation s = doc_generation (doc_now r)" by simp
qed

lemma race_inv_commit:
  assumes "race_inv r" and "hosts r h = Working base s"
    and "generation_moved (generation s) (as_loaded (doc_now r)) = Inr False"
  shows "race_inv (host_save h wid base s r)"
proof -
  note cur = not_moved_current [OF assms]
  have "doc_generation (doc_now r) < doc_generation (Some (saved wid s))"
    using cur(2) by (simp add: saved_def doc_generation_def)
  with assms(1) cur(1) show ?thesis
    by (auto simp: race_inv_def host_save_def set_host_def intro: host_ok_newer)
qed

lemma race_step_inv: "race_step True r r' \<Longrightarrow> race_inv r \<Longrightarrow> race_inv r'"
proof (induction rule: race_step.induct)
  case (start r h rebuild s src agent m its p)
  with start_pass_generation [OF start(2,3)] show ?case by (simp add: race_inv_set_host)
next
  case (refuse r h base s)
  then show ?case by (simp add: race_inv_set_host)
next
  case (commit r h base s wid)
  then show ?case by (intro race_inv_commit)
qed auto

text \<open>C4. No lost update: when nothing comes between a host's re-read and its save, then however the
  passes of any number of hosts interleave, every save replaces exactly the checkpoint its own
  pass started from - the saves form one sequential history.\<close>

theorem no_lost_update:
  assumes "(race_step True)\<^sup>*\<^sup>* (race_init d) r" and "(base, replaced) \<in> set (saves r)"
  shows "base = replaced"
proof -
  from assms(1) have "race_inv r"
    by (induction rule: rtranclp_induct) (auto simp: race_inv_init intro: race_step_inv)
  with assms(2) show ?thesis by (auto simp: race_inv_def)
qed

end
