(* ===== verification/Fold_Memory.thy ===== *)
theory Fold_Memory
  imports Fold_Race
begin

text \<open>
  An in-memory instance of the \<open>fulcra\<close> command: files by path, the records in stream order,
  and a switch that makes every command time out. It satisfies the documented behaviour
  \<open>fulcra_cli\<close>, so the reader and writer of transport.py over it satisfy \<open>pointer_store\<close>; the
  witnesses of the fold's theorems run in it.
\<close>

record mem =
  files :: "string \<Rightarrow> doc option"
  stream :: "stream_rec list"
  up :: bool

definition in_window :: "string \<Rightarrow> string \<Rightarrow> stream_rec \<Rightarrow> bool" where
  "in_window since til r =
     (case rec_at r of Some (JStr t) \<Rightarrow> since \<le> t \<and> t < til | _ \<Rightarrow> False)"

definition mem_cli :: "mem cli" where
  "mem_cli = \<lparr>
     cli_stat = (\<lambda>p w. (if \<not> up w then Failed ''timed out''
        else if files w p = None then Ran 1 () not_found else Ran 0 () [], w)),
     cli_download = (\<lambda>p w. (if \<not> up w then Failed ''timed out''
        else case files w p of None \<Rightarrow> Ran 1 None [] | Some d \<Rightarrow> Ran 0 (Some d) [], w)),
     cli_records = (\<lambda>ch since til w. (if \<not> up w then Failed ''timed out''
        else Ran 0 (map (\<lambda>r. Line (Some (Rec r))) (filter (in_window since til) (stream w))) [], w)),
     cli_record = (\<lambda>dt v source payload at w. (if \<not> up w then (Failed ''timed out'', w)
        else (Ran 0 () [], w\<lparr>stream := stream w @ [\<lparr>rec_id = Some (JStr (CHR ''r'' # nat_str (length (stream w)))),
                rec_at = Some at, rec_note = Text (Some payload)\<rparr>]\<rparr>))),
     cli_upload = (\<lambda>d p w. (if \<not> up w then (Failed ''timed out'', w)
        else (Ran 0 () [], w\<lparr>files := (files w)(p \<mapsto> d)\<rparr>)))\<rparr>"

interpretation mem: fulcra_cli mem_cli files
proof
  fix p w e w'
  assume "cli_stat mem_cli p w = (Failed e, w')"
  then have "e = ''timed out''" by (auto simp: mem_cli_def split: if_splits)
  then show "\<not> sublist not_found e" by (simp add: not_found_def sublist_code)
qed (auto simp: mem_cli_def split: if_splits option.splits)

abbreviation mem_store :: "mem store" where
  "mem_store \<equiv> cli_store mem_cli"

section \<open>A team, its stream and one agent\<close>

definition ev_open :: "string \<Rightarrow> string \<Rightarrow> string \<Rightarrow> string \<Rightarrow> payload" where
  "ev_open at sender tgt slug = \<lparr>p_at = at, p_from = sender, p_to = tgt, p_kind = ''open'',
     p_slug = slug, p_pri = ''P1'', p_ptr = Some ''task/x.md''\<rparr>"

definition rec_of :: "string \<Rightarrow> payload \<Rightarrow> stream_rec" where
  "rec_of rid p = \<lparr>rec_id = Some (JStr rid), rec_at = Some (JStr (p_at p)),
     rec_note = Text (Some (payload_json p))\<rparr>"

definition t1 :: string where "t1 = ''2026-09-05T20:30:00Z''"
definition t2 :: string where "t2 = ''2026-09-05T20:30:01Z''"

definition two_opens :: "stream_rec list" where
  "two_opens = [rec_of ''r1'' (ev_open t1 ''boss'' ''ann'' ''fix''),
                rec_of ''r2'' (ev_open t2 ''boss'' ''ann'' ''doc'')]"

definition team_files :: "string \<Rightarrow> doc option" where
  "team_files = [config_path ''t'' \<mapsto>
     Some (JObj [(''data_type'', JStr ''BusEvent''), (''api_version'', JStr ''v1'')])]"

definition mem0 :: mem where
  "mem0 = \<lparr>files = team_files, stream = two_opens, up = True\<rparr>"

lemmas mem_eval = mem0_def team_files_def two_opens_def rec_of_def ev_open_def t1_def t2_def
  mem_cli_def in_window_def payload_json_def cli_store_def reader_classified_def reader_stat_def
  reader_download_def reader_events_def reader_records_def writer_save_doc_def rc_of_def
  far_future_def not_found_def

lemmas fold_eval = fold_run_def fold_read_def fold_verify_def fold_commit_def fold_start_def
  fold_pass_def pass_step_def start_pass_def classify_item_def parse_event_def relevant_def
  item_at_def apply_event_def update_rows_def is_seen_def remember_def keep_last_def SEEN_CAP_def
  channel_resolve_def config_path_def ckpt_load_def ckpt_save_def ckpt_path_def classify_ckpt_def
  generation_moved_def minus_overlap_def OVERLAP_SECONDS_def EPOCH_def empty_ckpt_def py_def
  BROADCAST_def OWN_ACTIONS_def KINDS_def qualify_def team_prefix_def row_ptr_def

section \<open>Witnesses\<close>

lemmas mem_pointer_store = mem.ps.pointer_store_axioms

theorem ckpt_save_load_witness:
  "\<exists>w1. ckpt_save mem_store ''t'' ''ann'' (empty_ckpt t1) mem0 = (True, w1) \<and>
     fst (ckpt_load mem_store ''t'' ''ann'' w1) \<in> {LOk (empty_ckpt t1), LError}"
proof -
  obtain w1 where w1: "ckpt_save mem_store ''t'' ''ann'' (empty_ckpt t1) mem0 = (True, w1)"
    by (simp add: ckpt_save_def mem_eval)
  obtain l w2 where l: "ckpt_load mem_store ''t'' ''ann'' w1 = (l, w2)" by fastforce
  from ckpt_save_load [OF mem_pointer_store w1 l] w1 l show ?thesis by auto
qed

definition open_ev :: "string \<Rightarrow> string \<Rightarrow> event" where
  "open_ev rid slug = payload_event (Some (JStr rid)) (Some (JStr t1)) (ev_open t1 ''boss'' ''ann'' slug)"

definition close_ev :: "string \<Rightarrow> string \<Rightarrow> event" where
  "close_ev rid slug = (open_ev rid slug)\<lparr>ev_kind := ''close''\<rparr>"

lemmas ev_eval = open_ev_def close_ev_def payload_event_def ev_open_def t1_def t2_def rec_of_def
  payload_json_def

theorem open_set_is_owed_witness:
  "\<exists>s'. apply_all [open_ev ''r1'' ''fix'', open_ev ''r2'' ''doc'', close_ev ''r3'' ''fix''] (empty_ckpt t1) = Inr s'
     \<and> map_of (open_rows s') ''doc'' \<noteq> None \<and> map_of (open_rows s') ''fix'' = None"
proof -
  let ?evs = "[open_ev ''r1'' ''fix'', open_ev ''r2'' ''doc'', close_ev ''r3'' ''fix'']"
  obtain s' where s': "apply_all ?evs (empty_ckpt t1) = Inr s'"
    by (simp add: fold_eval ev_eval)
  have "fresh_batch ?evs (seen (empty_ckpt t1))"
    by (simp add: fresh_batch_def ev_eval empty_ckpt_def)
  from open_set_is_owed [OF s' this, of "''doc''"] open_set_is_owed [OF s' this, of "''fix''"] s'
  show ?thesis by (simp add: decisive_def ev_eval empty_ckpt_def)
qed

definition open_item :: "string \<Rightarrow> string \<Rightarrow> item" where
  "open_item rid slug = Rec (rec_of rid (ev_open t1 ''boss'' ''ann'' slug))"

lemmas item_eval = open_item_def ev_eval fold_eval

theorem fold_pass_spec_witness:
  "\<exists>p. fold_pass ''ann'' 1 [open_item ''r1'' ''fix'', open_item ''r2'' ''doc''] False (empty_ckpt t2) = Inr p
     \<and> ps_applied p = 1 \<and> ps_unread p = 1 \<and> cursor (ps_state p) = JStr t1"
proof -
  obtain p where p: "fold_pass ''ann'' 1 [open_item ''r1'' ''fix'', open_item ''r2'' ''doc''] False
      (empty_ckpt t2) = Inr p"
    by (simp add: item_eval)
  from fold_pass_spec [OF p] p show ?thesis
    by (auto simp: item_eval last_at_def numeral_eq_Suc)
qed

text \<open>A checkpoint that remembers the record it is given again.\<close>

definition resumed_ckpt :: ckpt where
  "resumed_ckpt = (empty_ckpt t2)\<lparr>seen := [JStr ''r0'']\<rparr>"

theorem resumed_pass_exact_witness:
  "\<exists>p3. fold_pass ''ann'' 10 ([open_item ''r0'' ''gone''] @ [open_item ''r1'' ''fix'', open_item ''r2'' ''doc''] @ [open_item ''r3'' ''rev'']) False
      resumed_ckpt = Inr p3 \<and> map fst (open_rows (ps_state p3)) = [''fix'', ''doc'', ''rev'']"
proof -
  let ?o = "[open_item ''r0'' ''gone'']" and ?n = "[open_item ''r1'' ''fix'', open_item ''r2'' ''doc'']"
    and ?x = "[open_item ''r0'' ''gone'', open_item ''r1'' ''fix'']" and ?y = "[open_item ''r2'' ''doc'']" and ?z = "[open_item ''r3'' ''rev'']"
  obtain p1 where p1: "fold_pass ''ann'' 10 (?o @ ?n) False resumed_ckpt = Inr p1"
    and p1s: "ps_unread p1 = 0" and
    st1: "ps_state p1 = \<lparr>cursor = JStr t1, open_rows = [
        (''fix'', \<lparr>r_pri = JStr ''P1'', r_from = JStr ''boss'', r_to = Some (JStr ''ann''),
           r_ptr = JStr ''task/x.md'', r_at = JStr t1, r_claimed = None\<rparr>),
        (''doc'', \<lparr>r_pri = JStr ''P1'', r_from = JStr ''boss'', r_to = Some (JStr ''ann''),
           r_ptr = JStr ''task/x.md'', r_at = JStr t1, r_claimed = None\<rparr>)],
        unread_events = 0, unreadable = [], seen = [JStr ''r0'', JStr ''r1'', JStr ''r2''], generation = 0, writer = JStr []\<rparr>"
    by (simp add: item_eval resumed_ckpt_def)
  obtain p2 where p2: "fold_pass ''ann'' 10 (?y @ ?z) False (ps_state p1) = Inr p2"
    and p2s: "ps_unread p2 = 0" "map fst (open_rows (ps_state p2)) = [''fix'', ''doc'', ''rev'']"
    unfolding st1 by (simp add: item_eval)
  have "\<exists>p3. fold_pass ''ann'' 10 (?o @ ?n @ ?z) False resumed_ckpt = Inr p3 \<and>
      open_rows (ps_state p3) = open_rows (ps_state p2) \<and> seen (ps_state p3) = seen (ps_state p2)"
  proof (rule resumed_pass_exact [OF p1 p1s _ p2 p2s(1)])
    show "?o @ ?n = ?x @ ?y" by simp
    show "\<forall>ev\<in>set (relevant_events ''ann'' ?o). is_seen ev (seen resumed_ckpt)" by (simp add: item_eval resumed_ckpt_def is_seen_def)
    show "fresh_batch (relevant_events ''ann'' ?n) (seen resumed_ckpt)"
      by (simp add: item_eval fresh_batch_def resumed_ckpt_def)
    show "ckpt_inv resumed_ckpt" by (simp add: ckpt_inv_def resumed_ckpt_def item_eval)
    show "\<forall>ev\<in>set (relevant_events ''ann'' ?y). \<exists>rid. ev_id ev = Some rid \<and> truthy rid
        \<and> rid \<in> set (keep_last SEEN_CAP (seen resumed_ckpt @ event_ids (relevant_events ''ann'' ?n)))"
      by (simp add: item_eval resumed_ckpt_def keep_last_def)
    show "int (length (relevant_events ''ann'' (?o @ ?n @ ?z))) < 10" by (simp add: item_eval)
  qed
  with p2s(2) show ?thesis by auto
qed

theorem fold_pass_assignee_witness:
  "\<exists>p. fold_pass ''ann'' 9 [open_item ''r1'' ''fix''] False (empty_ckpt t2) = Inr p
     \<and> assignee_inv ''ann'' (ps_state p) \<and> open_rows (ps_state p) \<noteq> []"
proof -
  obtain p where p: "fold_pass ''ann'' 9 [open_item ''r1'' ''fix''] False (empty_ckpt t2) = Inr p"
    and ne: "open_rows (ps_state p) \<noteq> []"
    by (simp add: item_eval)
  have "assignee_inv ''ann'' (empty_ckpt t2)" by (simp add: assignee_inv_def empty_ckpt_def)
  from fold_pass_assignee [OF p this] p ne show ?thesis by blast
qed

text \<open>The checkpoint after one pass with a budget of one event is a fixed point of that pass, although
  a second event is waiting: it is never applied.\<close>

theorem replays_exhaust_budget_witness:
  "\<exists>p. fold_pass ''ann'' 1 [open_item ''r1'' ''fix'', open_item ''r2'' ''doc''] False
         ((empty_ckpt t1)\<lparr>seen := [JStr ''r1''], unread_events := 1\<rparr>) = Inr p
     \<and> 0 < ps_unread p
     \<and> ps_state p = (empty_ckpt t1)\<lparr>seen := [JStr ''r1''], unread_events := 1\<rparr>"
proof -
  let ?its = "[open_item ''r1'' ''fix'', open_item ''r2'' ''doc'']"
  let ?s = "(empty_ckpt t1)\<lparr>seen := [JStr ''r1''], unread_events := 1\<rparr>"
  have "\<exists>p. fold_pass ''ann'' 1 ?its False ?s = Inr p \<and> ps_applied p = 1 \<and> 0 < ps_unread p \<and>
           open_rows (ps_state p) = open_rows ?s \<and> seen (ps_state p) = seen ?s \<and>
           cursor (ps_state p) = last_at (observed ''ann'' (nat 1) ?its) (cursor ?s)"
    by (rule replays_exhaust_budget) (simp_all add: item_eval)
  then obtain p where p: "fold_pass ''ann'' 1 ?its False ?s = Inr p" "0 < ps_unread p" by blast
  moreover from p(1) have "ps_state p = ?s" by (auto simp: item_eval)
  ultimately show ?thesis by blast
qed

text \<open>A version-1 payload without the key \<open>to\<close>.\<close>

definition poison :: item where
  "poison = Rec \<lparr>rec_id = Some (JStr ''r9''), rec_at = Some (JStr t1),
     rec_note = Text (Some (JObj [(''v'', JNum 1), (''kind'', JStr ''open''), (''slug'', JStr ''x'')]))\<rparr>"

theorem poison_record_blocks_witness:
  "\<exists>e. fold_pass ''ann'' 10 [open_item ''r1'' ''fix'', poison] False (empty_ckpt t1) = Inl e"
  by (rule poison_record_blocks [where it = poison and e = KeyError])
    (simp_all add: poison_def fold_eval)

theorem fold_run_effect_witness:
  "\<exists>out w'. fold_run mem_store ''t'' ''ann'' ''w1'' 10 False False mem0 = (Inr out, w') \<and>
     files w' (ckpt_path ''t'' ''ann'') = Some (Some (ckpt_json (out_state out))) \<and>
     generation (out_state out) = 1"
proof -
  obtain out w' where run: "fold_run mem_store ''t'' ''ann'' ''w1'' 10 False False mem0 = (Inr out, w')"
    and gen: "generation (out_state out) = 1"
    by (simp add: mem_eval fold_eval time_eval sublist_code)
  from fold_run_effect [OF mem_pointer_store run] run gen show ?thesis by auto
qed

section \<open>Concurrent hosts\<close>

lemma empty_pass:
  "fold_pass ''ann'' 9 [] False s = Inr \<lparr>ps_state = s\<lparr>unread_events := 0, unreadable := []\<rparr>,
     ps_applied = 0, ps_unread = 0, ps_last = cursor s\<rparr>"
  by (simp add: fold_pass_def py_def start_pass_def)

lemma two_steps: "R a b \<Longrightarrow> R b c \<Longrightarrow> R\<^sup>*\<^sup>* a c"
  by (rule rtranclp.rtrancl_into_rtrancl [OF r_into_rtranclp])

lemma race_first_start:
  assumes "hosts r h = Idle" and "doc_now r = None"
  shows "race_step atomic r (set_host h (Working None (empty_ckpt EPOCH)) r)"
  using race_step.start [OF assms(1) _ empty_pass, where s = "empty_ckpt EPOCH" and src = SrcFresh and rebuild = False] assms(2)
  by (simp add: fold_start_def as_loaded_def empty_ckpt_def)

theorem no_lost_update_witness:
  "\<exists>r base replaced. (race_step True)\<^sup>*\<^sup>* (race_init None) r \<and>
     (base, replaced) \<in> set (saves r) \<and> base = replaced"
proof -
  let ?r0 = "race_init None"
  let ?r1 = "set_host 0 (Working None (empty_ckpt EPOCH)) ?r0"
  let ?r2 = "host_save 0 ''w'' None (empty_ckpt EPOCH) ?r1"
  have s1: "race_step True ?r0 ?r1" by (rule race_first_start) (simp_all add: race_init_def)
  have s2: "race_step True ?r1 ?r2"
    by (rule race_step.commit)
      (simp_all add: set_host_def race_init_def generation_moved_def as_loaded_def)
  note steps = two_steps [of "race_step True", OF s1 s2]
  have mem: "(None, None) \<in> set (saves ?r2)" by (simp add: host_save_def set_host_def race_init_def)
  from steps mem no_lost_update [OF steps mem] show ?thesis by blast
qed

text \<open>The re-read is not a transaction: when another host's save may come between a re-read and the
  save it allowed, two hosts can both start from no checkpoint, both pass the check, and the
  second save silently replaces the first one's.\<close>

theorem lost_update_possible:
  "\<exists>r base replaced. (race_step False)\<^sup>*\<^sup>* (race_init None) r \<and>
     (base, replaced) \<in> set (saves r) \<and> base = None \<and> replaced \<noteq> None"
proof -
  let ?s = "empty_ckpt EPOCH"
  let ?r0 = "race_init None"
  let ?r1 = "set_host 0 (Working None ?s) ?r0"
  let ?r2 = "set_host 1 (Working None ?s) ?r1"
  let ?r3 = "set_host 0 (Cleared None ?s) ?r2"
  let ?r4 = "set_host 1 (Cleared None ?s) ?r3"
  let ?r5 = "host_save 0 ''w0'' None ?s ?r4"
  let ?r6 = "host_save 1 ''w1'' None ?s ?r5"
  have start: "race_step False ?r0 ?r1" "race_step False ?r1 ?r2"
    by (rule race_first_start; simp add: race_init_def set_host_def)+
  have checked: "race_step False ?r2 ?r3" "race_step False ?r3 ?r4"
    by (rule race_step.reread;
        simp add: race_init_def set_host_def generation_moved_def as_loaded_def empty_ckpt_def)+
  have save: "race_step False ?r4 ?r5" "race_step False ?r5 ?r6"
    by (rule race_step.save; simp add: race_init_def set_host_def host_save_def)+
  have "(race_step False)\<^sup>*\<^sup>* ?r0 ?r6"
    using two_steps [of "race_step False", OF start] two_steps [of "race_step False", OF checked]
      two_steps [of "race_step False", OF save] by (meson rtranclp_trans)
  moreover have "(None, Some (saved ''w0'' ?s)) \<in> set (saves ?r6)"
    by (simp add: host_save_def set_host_def race_init_def)
  ultimately show ?thesis by blast
qed

end
