(* ===== verification/Fold_Cli.thy ===== *)
theory Fold_Cli
  imports Fold_Memory
begin

text \<open>
  packages/coord-fold/coord_fold/cli.py: the six verbs, as functions to the exit code and the
  world. 0 is done, 2 refused, 3 unknown. The text a verb prints is not modelled. An exception
  no verb catches is the left result.
\<close>

definition RC_OK :: int where "RC_OK = 0"
definition RC_REFUSED :: int where "RC_REFUSED = 2"
definition RC_UNKNOWN :: int where "RC_UNKNOWN = 3"

definition emit_kind ::
  "'w store \<Rightarrow> string \<Rightarrow> string \<Rightarrow> string \<Rightarrow> string \<Rightarrow> string \<Rightarrow> string \<Rightarrow> string option \<Rightarrow> string
   \<Rightarrow> 'w \<Rightarrow> (fold_error + int) \<times> 'w" where
  "emit_kind st team sender tgt kind slug pri ptr at w =
     (case channel_resolve st team w of (cfg, w1) \<Rightarrow>
       (case cfg of
          Inl ChannelUnresolved \<Rightarrow> (Inr RC_REFUSED, w1)
        | Inl e \<Rightarrow> (Inl e, w1)
        | Inr cfg \<Rightarrow>
            (case build_payload at sender tgt kind slug pri ptr of
               None \<Rightarrow> (Inr RC_REFUSED, w1)
             | Some p \<Rightarrow>
                 (case write_event st cfg (payload_json p) (JStr at) sender w1 of (ok, w2) \<Rightarrow>
                    (Inr (if ok then RC_OK else RC_UNKNOWN), w2)))))"

datatype owed = Owed row | NotOwed | OwedUnknown

definition owed_row :: "'w store \<Rightarrow> string \<Rightarrow> string \<Rightarrow> string \<Rightarrow> 'w \<Rightarrow> (fold_error + owed) \<times> 'w" where
  "owed_row st team agent slug w =
     (case ckpt_load st team agent w of (l, w1) \<Rightarrow>
       (case l of
          LError \<Rightarrow> Inr OwedUnknown
        | LFresh \<Rightarrow> Inr NotOwed
        | LCorrupt \<Rightarrow> Inr NotOwed
        | LIllShaped _ \<Rightarrow> Inl (PyError IllShaped)
        | LOk s \<Rightarrow> Inr (case map_of (open_rows s) slug of Some r \<Rightarrow> Owed r | None \<Rightarrow> NotOwed), w1))"

definition cmd_fold ::
  "'w store \<Rightarrow> string \<Rightarrow> string \<Rightarrow> string \<Rightarrow> int \<Rightarrow> bool \<Rightarrow> bool \<Rightarrow> 'w \<Rightarrow> (fold_error + int) \<times> 'w" where
  "cmd_fold st team agent wid m verify rebuild w =
     (case fold_run st team agent wid m verify rebuild w of (r, w') \<Rightarrow>
       (case r of
          Inr out \<Rightarrow> Inr (out_rc out)
        | Inl (PyError e) \<Rightarrow> Inl (PyError e)
        | Inl TransportUnavailable \<Rightarrow> Inr RC_UNKNOWN
        | Inl _ \<Rightarrow> Inr RC_REFUSED, w'))"

definition cmd_emit ::
  "'w store \<Rightarrow> string \<Rightarrow> string \<Rightarrow> string \<Rightarrow> string \<Rightarrow> string \<Rightarrow> string \<Rightarrow> string option \<Rightarrow> string
   \<Rightarrow> 'w \<Rightarrow> (fold_error + int) \<times> 'w" where
  "cmd_emit st team sender tgt kind slug pri ptr at w = emit_kind st team sender tgt kind slug pri ptr at w"

text \<open>
  What a verb passes on from the row: the sender, the priority and the pointer. A sender that is
  not a string is not written by any emitter (\<open>IllShaped\<close>); a priority that is not a string is
  not one of the four and is refused; a truthy pointer that is not a string has no \<open>endswith\<close>.
\<close>

definition emit_for_row ::
  "'w store \<Rightarrow> string \<Rightarrow> string \<Rightarrow> string \<Rightarrow> string \<Rightarrow> row \<Rightarrow> json \<Rightarrow> string \<Rightarrow> 'w \<Rightarrow> (fold_error + int) \<times> 'w" where
  "emit_for_row st team agent kind slug r ptr at w =
     (case (as_str (r_from r), ptr) of
        (None, _) \<Rightarrow> (Inl (PyError IllShaped), w)
      | (Some frm, JNull) \<Rightarrow>
          emit_kind st team agent frm kind slug (case as_str (r_pri r) of Some p \<Rightarrow> p | None \<Rightarrow> []) None at w
      | (Some frm, JStr q) \<Rightarrow>
          emit_kind st team agent frm kind slug (case as_str (r_pri r) of Some p \<Rightarrow> p | None \<Rightarrow> []) (Some q) at w
      | _ \<Rightarrow> (Inl (PyError AttributeError), w))"

definition cmd_claim ::
  "'w store \<Rightarrow> string \<Rightarrow> string \<Rightarrow> string \<Rightarrow> string \<Rightarrow> 'w \<Rightarrow> (fold_error + int) \<times> 'w" where
  "cmd_claim st team agent slug at w =
     (case owed_row st team agent slug w of (r, w1) \<Rightarrow>
       (case r of
          Inl e \<Rightarrow> (Inl e, w1)
        | Inr OwedUnknown \<Rightarrow> (Inr RC_UNKNOWN, w1)
        | Inr NotOwed \<Rightarrow> (Inr RC_REFUSED, w1)
        | Inr (Owed row) \<Rightarrow> emit_for_row st team agent ''claim'' slug row (r_ptr row) at w1))"

definition cmd_release ::
  "'w store \<Rightarrow> string \<Rightarrow> string \<Rightarrow> string \<Rightarrow> string \<Rightarrow> 'w \<Rightarrow> (fold_error + int) \<times> 'w" where
  "cmd_release st team agent slug at w =
     (case owed_row st team agent slug w of (r, w1) \<Rightarrow>
       (case r of
          Inl e \<Rightarrow> (Inl e, w1)
        | Inr OwedUnknown \<Rightarrow> (Inr RC_UNKNOWN, w1)
        | Inr NotOwed \<Rightarrow> (Inr RC_REFUSED, w1)
        | Inr (Owed row) \<Rightarrow> emit_for_row st team agent ''release'' slug row (r_ptr row) at w1))"

definition cmd_close ::
  "'w store \<Rightarrow> string \<Rightarrow> string \<Rightarrow> string \<Rightarrow> string \<Rightarrow> string \<Rightarrow> 'w \<Rightarrow> (fold_error + int) \<times> 'w" where
  "cmd_close st team agent slug evidence at w =
     (case owed_row st team agent slug w of (r, w1) \<Rightarrow>
       (case r of
          Inl e \<Rightarrow> (Inl e, w1)
        | Inr OwedUnknown \<Rightarrow> (Inr RC_UNKNOWN, w1)
        | Inr NotOwed \<Rightarrow> (Inr RC_REFUSED, w1)
        | Inr (Owed row) \<Rightarrow>
            (case read_classified st (qualify team (Some evidence)) w1 of (ev, w2) \<Rightarrow>
              (case ev of
                 RdAbsent \<Rightarrow> (Inr RC_REFUSED, w2)
               | RdError \<Rightarrow> (Inr RC_UNKNOWN, w2)
               | RdOk _ \<Rightarrow> emit_for_row st team agent ''close'' slug row (JStr evidence) at w2))))"

definition cmd_status :: "'w store \<Rightarrow> string \<Rightarrow> string \<Rightarrow> 'w \<Rightarrow> (fold_error + int) \<times> 'w" where
  "cmd_status st team agent w =
     (case ckpt_load st team agent w of (l, w1) \<Rightarrow>
       (case l of
          LFresh \<Rightarrow> Inr RC_REFUSED
        | LCorrupt \<Rightarrow> Inr RC_REFUSED
        | LError \<Rightarrow> Inr RC_UNKNOWN
        | LIllShaped _ \<Rightarrow> Inl (PyError IllShaped)
        | LOk s \<Rightarrow> Inr (if unreadable s = [] then RC_OK else RC_UNKNOWN), w1))"

lemmas rc_defs = RC_OK_def RC_REFUSED_def RC_UNKNOWN_def

section \<open>What a verb may claim\<close>

lemma emit_kind_done:
  assumes "emit_kind st team sender tgt kind slug pri ptr at w = (Inr RC_OK, w')"
  shows "\<exists>p. build_payload at sender tgt kind slug pri ptr = Some p"
  using assms by (auto simp: emit_kind_def rc_defs split: prod.splits sum.splits fold_error.splits option.splits)

lemma owed_row_Owed:
  assumes "pointer_store st contents" and "owed_row st team agent slug w = (Inr (Owed r), w1)"
  shows "contents w1 = contents w \<and>
    (\<exists>d s. contents w (ckpt_path team agent) = Some d \<and> classify_ckpt (RdOk d) = LOk s
           \<and> map_of (open_rows s) slug = Some r)"
proof -
  obtain l where l: "ckpt_load st team agent w = (l, w1)"
    and "\<exists>s. l = LOk s \<and> map_of (open_rows s) slug = Some r"
    using assms(2) by (auto simp: owed_row_def split: prod.splits loaded.splits option.splits)
  then obtain s where s: "l = LOk s" "map_of (open_rows s) slug = Some r" by blast
  obtain rd where rd: "read_classified st (ckpt_path team agent) w = (rd, w1)" "classify_ckpt rd = LOk s"
    using l s by (auto simp: ckpt_load_def split: prod.splits)
  then obtain d where "rd = RdOk d" by (cases rd) (auto simp: classify_ckpt_def)
  with rd pointer_store.read_ok [OF assms(1)] have "contents w (ckpt_path team agent) = Some d" by metis
  with \<open>rd = RdOk d\<close> rd s ckpt_load_frame [OF assms(1), of team agent w] l show ?thesis by auto
qed

text \<open>A close is only ever reported done for an obligation that is open in the agent's stored
  checkpoint, with an evidence document that the store holds; and it left every document as it was.\<close>

theorem close_needs_evidence:
  assumes ps: "pointer_store st contents"
    and ok: "cmd_close st team agent slug evidence at w = (Inr RC_OK, w')"
  shows "contents w (qualify team (Some evidence)) \<noteq> None \<and> ptr_ok evidence \<and>
    (\<exists>d s. contents w (ckpt_path team agent) = Some d \<and> classify_ckpt (RdOk d) = LOk s
           \<and> map_of (open_rows s) slug \<noteq> None)"
proof -
  from ok obtain r w1 where r: "owed_row st team agent slug w = (Inr (Owed r), w1)"
    by (auto simp: cmd_close_def rc_defs split: prod.splits sum.splits owed.splits)
  with ok obtain d w2 where d: "read_classified st (qualify team (Some evidence)) w1 = (RdOk d, w2)"
    and e: "emit_for_row st team agent ''close'' slug r (JStr evidence) at w2 = (Inr RC_OK, w')"
    by (auto simp: cmd_close_def rc_defs split: prod.splits read_result.splits)
  have "ptr_ok evidence"
    using e emit_kind_done build_payload_ptr
    by (fastforce simp: emit_for_row_def split: option.splits)
  moreover have "contents w1 (qualify team (Some evidence)) = Some d"
    using pointer_store.read_ok [OF ps d] .
  ultimately show ?thesis using owed_row_Owed [OF ps r] by fastforce
qed

text \<open>What an agent closes or releases goes away: the payload these verbs write for an open row
  is relevant to the agent itself although it is addressed to the sender of the obligation, and
  applying it to the agent's checkpoint removes the row.\<close>

theorem own_action_discharges:
  assumes "build_payload at agent tgt kind slug pri ptr = Some p" and "kind \<in> {''close'', ''release''}"
    and "\<not> is_seen (payload_event rid rat p) (seen s)"
  shows "relevant agent (payload_event rid rat p) = Inr True \<and>
    (\<exists>s'. apply_event (payload_event rid rat p) s = Inr s' \<and> map_of (open_rows s') slug = None \<and>
          (\<forall>other. other \<noteq> slug \<longrightarrow> map_of (open_rows s') other = map_of (open_rows s) other))"
  using assms build_payload_SomeD [OF assms(1)]
  by (auto simp: relevant_def payload_event_def OWN_ACTIONS_def BROADCAST_def apply_event_def
      update_rows_def)

text \<open>A verb never turns an unreadable store into an answer: with every read failing, every verb
  but an emit ends unknown or refused, never done, and an emit is refused before it writes.\<close>

theorem unreadable_store_never_ok:
  assumes "\<forall>p w. \<exists>w'. read_classified st p w = (RdError, w')"
  shows "fst (cmd_fold st team agent wid m verify rebuild w) = Inr RC_REFUSED
       \<and> fst (cmd_status st team agent w) = Inr RC_UNKNOWN
       \<and> fst (cmd_claim st team agent slug at w) = Inr RC_UNKNOWN
       \<and> fst (cmd_release st team agent slug at w) = Inr RC_UNKNOWN
       \<and> fst (cmd_close st team agent slug evidence at w) = Inr RC_UNKNOWN
       \<and> fst (cmd_emit st team agent tgt kind slug pri ptr at w) = Inr RC_REFUSED"
proof -
  have load: "\<exists>w'. ckpt_load st team agent w = (LError, w')" for w
    using assms [rule_format, of "ckpt_path team agent" w]
    by (auto simp: ckpt_load_def classify_ckpt_def)
  have cfg: "\<exists>w'. channel_resolve st team w = (Inl ChannelUnresolved, w')" for w
    using assms [rule_format, of "config_path team" w] by (auto simp: channel_resolve_def)
  from load [of w] cfg [of w] show ?thesis
    by (auto simp: cmd_fold_def fold_run_def fold_read_def cmd_status_def cmd_claim_def owed_row_def
        cmd_release_def cmd_close_def cmd_emit_def emit_kind_def)
qed

section \<open>Witnesses\<close>

definition mem1 :: mem where
  "mem1 = mem0\<lparr>files := team_files(ckpt_path ''t'' ''ann'' \<mapsto>
     Some (ckpt_json ((empty_ckpt t1)\<lparr>open_rows := [(''fix'',
       \<lparr>r_pri = JStr ''P1'', r_from = JStr ''boss'', r_to = Some (JStr ''ann''),
        r_ptr = JStr ''task/x.md'', r_at = JStr t1, r_claimed = None\<rparr>)]\<rparr>)),
     ''team/t/done.md'' \<mapsto> None)\<rparr>"

theorem close_needs_evidence_witness:
  "\<exists>w'. cmd_close mem_store ''t'' ''ann'' ''fix'' ''done.md'' t2 mem1 = (Inr RC_OK, w')
     \<and> files mem1 (qualify ''t'' (Some ''done.md'')) \<noteq> None"
proof -
  obtain w' where w': "cmd_close mem_store ''t'' ''ann'' ''fix'' ''done.md'' t2 mem1 = (Inr RC_OK, w')"
    by (simp add: cmd_close_def owed_row_def mem1_def emit_for_row_def emit_kind_def mem_eval fold_eval
        build_payload_def PRIORITIES_def ptr_ok_def writer_write_event_def ckpt_json_def json_ckpt_def
        int_field_def keyed_row_def row_json_def opt_field_def rc_defs)
  from close_needs_evidence [OF mem_pointer_store w'] w' show ?thesis by blast
qed

theorem own_action_discharges_witness:
  "\<exists>p s'. build_payload t1 ''ann'' ''boss'' ''close'' ''fix'' ''P1'' (Some ''done.md'') = Some p \<and>
     apply_event (payload_event None None p) (empty_ckpt t1) = Inr s' \<and> map_of (open_rows s') ''fix'' = None"
proof -
  obtain p where p: "build_payload t1 ''ann'' ''boss'' ''close'' ''fix'' ''P1'' (Some ''done.md'') = Some p"
    by (simp add: build_payload_def KINDS_def PRIORITIES_def ptr_ok_def)
  have "\<not> is_seen (payload_event None None p) (seen (empty_ckpt t1))"
    by (simp add: is_seen_def payload_event_def)
  from own_action_discharges [OF p _ this] p show ?thesis by auto
qed

theorem unreadable_store_never_ok_witness:
  "fst (cmd_status (mem_store\<lparr>read_classified := \<lambda>p w. (RdError, w)\<rparr>) ''t'' ''ann'' mem0) = Inr RC_UNKNOWN"
proof -
  have "\<forall>p w. \<exists>w'. read_classified (mem_store\<lparr>read_classified := \<lambda>p w. (RdError, w)\<rparr>) p w = (RdError, w')"
    by simp
  from unreadable_store_never_ok [OF this] show ?thesis by blast
qed

end
