(* ===== verification/Py_Text.thy ===== *)
theory Py_Text
  imports Prelude
begin

text \<open>
  The methods of Python's \<open>str\<close> the engine calls, on text whose characters are code points
  below 256, and \<open>repr\<close> and \<open>str\<close> of the values \<open>json.loads\<close> returns. The case mappings
  and the white space are those of \<open>str.lower\<close>, \<open>str.upper\<close> and \<open>str.strip\<close> on that range.
\<close>

named_theorems text_eval "kernel evaluation of the text functions on literals"

section \<open>Characters\<close>

definition is_space :: "char \<Rightarrow> bool" where
  "is_space c = (let n = of_char c :: nat in
     9 \<le> n \<and> n \<le> 13 \<or> 28 \<le> n \<and> n \<le> 32 \<or> n = 133 \<or> n = 160)"

definition lower_char :: "char \<Rightarrow> char" where
  "lower_char c = (let n = of_char c :: nat in
     if 65 \<le> n \<and> n \<le> 90 \<or> 192 \<le> n \<and> n \<le> 222 \<and> n \<noteq> 215 then char_of (n + 32) else c)"

definition upper_char :: "char \<Rightarrow> string" where
  "upper_char c = (let n = of_char c :: nat in
     if 97 \<le> n \<and> n \<le> 122 \<or> 224 \<le> n \<and> n \<le> 254 \<and> n \<noteq> 247 then [char_of (n - 32)]
     else if n = 223 then ''SS'' else [c])"

definition lower :: "string \<Rightarrow> string" where "lower s = map lower_char s"
definition upper :: "string \<Rightarrow> string" where "upper s = concat (map upper_char s)"

declare is_space_def [text_eval] lower_char_def [text_eval] upper_char_def [text_eval]
  lower_def [text_eval] upper_def [text_eval] Let_def [text_eval]

section \<open>Stripping, prefixes and cutting\<close>

definition lstrip_if :: "(char \<Rightarrow> bool) \<Rightarrow> string \<Rightarrow> string" where
  "lstrip_if P s = dropWhile P s"

definition rstrip_if :: "(char \<Rightarrow> bool) \<Rightarrow> string \<Rightarrow> string" where
  "rstrip_if P s = rev (dropWhile P (rev s))"

definition strip :: "string \<Rightarrow> string" where
  "strip s = rstrip_if is_space (lstrip_if is_space s)"

definition startswith :: "string \<Rightarrow> string \<Rightarrow> bool" where
  "startswith s p = (take (length p) s = p)"

definition endswith :: "string \<Rightarrow> string \<Rightarrow> bool" where
  "endswith s p = (length p \<le> length s \<and> drop (length s - length p) s = p)"

text \<open>\<open>s.find(p)\<close>: the first position of a non-empty pattern, \<open>None\<close> for -1.\<close>

fun find_at :: "string \<Rightarrow> nat \<Rightarrow> string \<Rightarrow> nat option" where
  "find_at p n [] = (if p = [] then Some n else None)"
| "find_at p n (c # s) = (if startswith (c # s) p then Some n else find_at p (Suc n) s)"

definition find_text :: "string \<Rightarrow> string \<Rightarrow> nat option" where
  "find_text s p = find_at p 0 s"

text \<open>\<open>s.partition(p)\<close>, with the separator reported as a truth value.\<close>

definition partition_at :: "string \<Rightarrow> string \<Rightarrow> string \<times> bool \<times> string" where
  "partition_at s p =
     (case find_text s p of None \<Rightarrow> (s, False, [])
      | Some n \<Rightarrow> (take n s, True, drop (n + length p) s))"

text \<open>\<open>s.rpartition(c)\<close> for a single character: the parts before and after its last occurrence.\<close>

definition rpartition :: "char \<Rightarrow> string \<Rightarrow> string \<times> string" where
  "rpartition c s =
     (let tail = takeWhile (\<lambda>x. x \<noteq> c) (rev s) in
      if length tail = length s then ([], s)
      else (take (length s - length tail - 1) s, rev tail))"

text \<open>\<open>s.partition(c)\<close> for a single character.\<close>

definition partition_char :: "char \<Rightarrow> string \<Rightarrow> string \<times> bool \<times> string" where
  "partition_char c s =
     (let hd_part = takeWhile (\<lambda>x. x \<noteq> c) s in (hd_part, c \<in> set s, drop (Suc (length hd_part)) s))"

fun split_on :: "char \<Rightarrow> string \<Rightarrow> string list" where
  "split_on c [] = [[]]"
| "split_on c (x # s) =
     (if x = c then [] # split_on c s
      else (case split_on c s of [] \<Rightarrow> [[x]] | w # ws \<Rightarrow> (x # w) # ws))"

fun join :: "string \<Rightarrow> string list \<Rightarrow> string" where
  "join sep [] = []"
| "join sep [s] = s"
| "join sep (s # t # ss) = s @ sep @ join sep (t # ss)"

declare lstrip_if_def [text_eval] rstrip_if_def [text_eval] strip_def [text_eval]
  startswith_def [text_eval] endswith_def [text_eval] find_text_def [text_eval]
  partition_at_def [text_eval] rpartition_def [text_eval]

lemma startswith_append [simp]: "startswith (p @ s) p"
  by (simp add: startswith_def)

lemma startswith_iff: "startswith s p \<longleftrightarrow> (\<exists>r. s = p @ r)"
  by (metis append_take_drop_id startswith_append startswith_def)

lemma endswith_append [simp]: "endswith (s @ p) p"
  by (simp add: endswith_def)

lemma endswith_iff: "endswith s p \<longleftrightarrow> (\<exists>r. s = r @ p)"
  by (metis append_take_drop_id endswith_append endswith_def)

lemma startswith_Nil [simp]: "startswith s []"
  by (simp add: startswith_def)

lemma find_at_None: "p \<noteq> [] \<Longrightarrow> find_at p n s = None \<longleftrightarrow> (\<forall>u v. s \<noteq> u @ p @ v)"
proof (induction p n s rule: find_at.induct)
  case (2 p n c s)
  have "(\<forall>u v. c # s \<noteq> u @ p @ v) \<longleftrightarrow> \<not> startswith (c # s) p \<and> (\<forall>u v. s \<noteq> u @ p @ v)"
    unfolding startswith_iff by (metis append_Cons append_Nil list.exhaust list.sel(3))
  with 2 show ?case by simp
qed auto

lemma find_at_Some:
  "find_at p n s = Some k \<Longrightarrow> \<exists>u v. s = u @ p @ v \<and> k = n + length u"
proof (induction p n s rule: find_at.induct)
  case (2 p n c s)
  show ?case
  proof (cases "startswith (c # s) p")
    case True
    with 2(2) show ?thesis by (auto simp: startswith_iff intro: exI [of _ "[]"])
  next
    case False
    with 2 obtain u v where "s = u @ p @ v" "k = Suc n + length u" by auto
    then have "c # s = (c # u) @ p @ v \<and> k = n + length (c # u)" by simp
    then show ?thesis by blast
  qed
qed (auto split: if_splits)

lemma find_at_leftmost:
  "find_at p n (u @ p @ v) = Some k \<Longrightarrow> k \<le> n + length u"
proof (induction u arbitrary: n)
  case Nil
  show ?case
  proof (cases "p @ v")
    case Nil
    with \<open>find_at p n ([] @ p @ v) = Some k\<close> show ?thesis by (simp split: if_splits)
  next
    case (Cons a list)
    then have "startswith (a # list) p" by (metis startswith_append)
    with Cons \<open>find_at p n ([] @ p @ v) = Some k\<close> show ?thesis by simp
  qed
next
  case (Cons c u)
  then show ?case by (force split: if_splits)
qed

lemma find_text_first:
  assumes "p \<noteq> []" "\<And>u v. a @ p @ b = u @ p @ v \<Longrightarrow> length a \<le> length u"
  shows "find_text (a @ p @ b) p = Some (length a)"
proof (cases "find_text (a @ p @ b) p")
  case None
  with assms(1) show ?thesis by (auto simp: find_text_def find_at_None)
next
  case (Some j)
  then obtain u v where uv: "a @ p @ b = u @ p @ v" "j = length u"
    using find_at_Some [of p 0 "a @ p @ b" j] by (auto simp: find_text_def)
  with assms(2) have "length a \<le> j" by blast
  moreover have "j \<le> length a" using Some find_at_leftmost [of p 0 a b j] by (simp add: find_text_def)
  ultimately show ?thesis using Some by simp
qed

lemma find_text_absent:
  assumes "c \<notin> set p"
  shows "find_text (p @ (c # d) @ r) (c # d) = Some (length p)"
proof (rule find_text_first)
  fix u v assume e: "p @ (c # d) @ r = u @ (c # d) @ v"
  show "length p \<le> length u"
  proof (rule ccontr)
    assume "\<not> length p \<le> length u"
    then have l: "length u < length p" by simp
    from e have "(p @ (c # d) @ r) ! length u = (u @ (c # d) @ v) ! length u" by simp
    with l have "p ! length u = c" by (simp add: nth_append)
    with l assms show False by (metis nth_mem)
  qed
qed simp

lemma split_on_nonempty [simp]: "split_on c s \<noteq> []"
  by (induction s) (auto split: list.splits)

lemma split_on_no_sep: "c \<notin> set s \<Longrightarrow> split_on c s = [s]"
  by (induction s) auto

lemma split_on_append: "c \<notin> set s \<Longrightarrow> split_on c (s @ c # t) = s # split_on c t"
  by (induction s) auto

text \<open>\<open>s.splitlines()\<close> and \<open>s.split()\<close>.\<close>

definition is_newline :: "char \<Rightarrow> bool" where
  "is_newline c = (let n = of_char c :: nat in 10 \<le> n \<and> n \<le> 13 \<or> 28 \<le> n \<and> n \<le> 30 \<or> n = 133)"

fun lines_from :: "string \<Rightarrow> string \<Rightarrow> string list" where
  "lines_from acc [] = (if acc = [] then [] else [rev acc])"
| "lines_from acc (c # s) =
     (if is_newline c
      then rev acc # (case s of d # t \<Rightarrow> if c = CHR 0x0D \<and> d = CHR 0x0A then lines_from [] t
                                       else lines_from [] s
                              | [] \<Rightarrow> [])
      else lines_from (c # acc) s)"

definition splitlines :: "string \<Rightarrow> string list" where
  "splitlines s = lines_from [] s"

fun words_from :: "string \<Rightarrow> string \<Rightarrow> string list" where
  "words_from acc [] = (if acc = [] then [] else [rev acc])"
| "words_from acc (c # s) =
     (if is_space c then (if acc = [] then words_from [] s else rev acc # words_from [] s)
      else words_from (c # acc) s)"

definition split_ws :: "string \<Rightarrow> string list" where
  "split_ws s = words_from [] s"

text \<open>\<open>int(s)\<close>: blanks around, an optional sign, digits with single underscores between.\<close>

definition digit_val :: "char \<Rightarrow> nat option" where
  "digit_val c = (let n = of_char c :: nat in if 48 \<le> n \<and> n \<le> 57 then Some (n - 48) else None)"

fun int_digits :: "nat \<Rightarrow> bool \<Rightarrow> string \<Rightarrow> nat option" where
  "int_digits acc seen [] = (if seen then Some acc else None)"
| "int_digits acc seen (c # s) =
     (case digit_val c of Some d \<Rightarrow> int_digits (10 * acc + d) True s
      | None \<Rightarrow> if c = CHR ''_'' \<and> seen then int_digits acc False s else None)"

definition py_int :: "string \<Rightarrow> int option" where
  "py_int s =
     (case strip s of [] \<Rightarrow> None
      | c # r \<Rightarrow>
          if c = CHR ''-'' then map_option (\<lambda>n. - int n) (int_digits 0 False r)
          else if c = CHR ''+'' then map_option int (int_digits 0 False r)
          else map_option int (int_digits 0 False (c # r)))"

declare is_newline_def [text_eval] splitlines_def [text_eval] split_ws_def [text_eval]
  digit_val_def [text_eval] py_int_def [text_eval]

lemma partition_char_append [simp]: "c \<notin> set s \<Longrightarrow> partition_char c (s @ c # t) = (s, True, t)"
  by (induction s) (auto simp: partition_char_def Let_def)

lemma dropWhile_hd: "s = [] \<or> \<not> P (hd s) \<Longrightarrow> dropWhile P s = s"
  by (cases s) auto

lemma strip_id: "s \<noteq> [] \<Longrightarrow> \<not> is_space (hd s) \<Longrightarrow> \<not> is_space (last s) \<Longrightarrow> strip s = s"
  by (simp add: strip_def lstrip_if_def rstrip_if_def dropWhile_hd hd_rev)

lemma strip_pad: "list_all is_space p \<Longrightarrow> strip (p @ s) = strip s"
  by (induction p) (auto simp: strip_def lstrip_if_def)

lemma strip_space [simp]: "is_space c \<Longrightarrow> strip (c # s) = strip s"
  using strip_pad [of "[c]" s] by simp

lemma strip_Nil [simp]: "strip [] = []"
  by (simp add: strip_def lstrip_if_def rstrip_if_def)

lemma strip_fixD:
  assumes "strip s = s" "s \<noteq> []"
  shows "\<not> is_space (hd s)" "\<not> is_space (last s)"
proof -
  have "hd (dropWhile is_space s) = hd s" if "strip s = s"
  proof -
    from that have "length (dropWhile is_space s) \<ge> length s"
      by (metis length_dropWhile_le length_rev lstrip_if_def rstrip_if_def strip_def)
    then have "dropWhile is_space s = s"
      by (metis append_self_conv2 le_antisym length_dropWhile_le length_append add_le_same_cancel2 le_zero_eq
          length_0_conv takeWhile_dropWhile_id)
    then show ?thesis by simp
  qed
  moreover have "dropWhile is_space s \<noteq> []"
  proof
    assume "dropWhile is_space s = []"
    then have "strip s = []" unfolding strip_def lstrip_if_def rstrip_if_def by (simp only: rev.simps dropWhile.simps)
    with assms show False by simp
  qed
  ultimately show "\<not> is_space (hd s)"
    using assms(1) hd_dropWhile [of is_space s] by simp
  have "rev s = dropWhile is_space (rev (dropWhile is_space s))"
    using assms(1) unfolding strip_def lstrip_if_def rstrip_if_def by (metis rev_rev_ident)
  then have "\<not> is_space (hd (rev s))"
    using assms(2) hd_dropWhile [of is_space "rev (dropWhile is_space s)"] by (metis rev_is_Nil_conv)
  with assms(2) show "\<not> is_space (last s)" by (simp add: hd_rev)
qed

lemma lines_from_newline:
  "list_all (\<lambda>c. \<not> is_newline c) s \<Longrightarrow> lines_from acc (s @ CHR 0x0A # t) = rev (rev s @ acc) # lines_from [] t"
proof (induction s arbitrary: acc)
  case Nil
  have "is_newline (CHR 0x0A)" "CHR 0x0A \<noteq> (CHR 0x0D)"
    by (simp_all add: is_newline_def)
  then show ?case by (cases t) auto
qed simp

lemma splitlines_newline:
  "list_all (\<lambda>c. \<not> is_newline c) s \<Longrightarrow> splitlines (s @ CHR 0x0A # t) = s # splitlines t"
  by (simp add: splitlines_def lines_from_newline)

lemma lines_from_plain:
  "list_all (\<lambda>c. \<not> is_newline c) s \<Longrightarrow> lines_from acc s = (if rev s @ acc = [] then [] else [rev (rev s @ acc)])"
  by (induction s arbitrary: acc) auto

lemma splitlines_plain: "list_all (\<lambda>c. \<not> is_newline c) s \<Longrightarrow> s \<noteq> [] \<Longrightarrow> splitlines s = [s]"
  by (simp add: splitlines_def lines_from_plain)

lemma splitlines_Nil [simp]: "splitlines [] = []"
  by (simp add: splitlines_def)

lemma splitlines_join:
  "list_all (\<lambda>l. list_all (\<lambda>c. \<not> is_newline c) l \<and> l \<noteq> []) ls \<Longrightarrow> splitlines (join [CHR 0x0A] ls) = ls"
proof (induction "[(CHR 0x0A)]" ls rule: join.induct)
  case (3 s t ss)
  then show ?case using splitlines_newline [of s "join [CHR 0x0A] (t # ss)"] by simp
qed (auto simp: splitlines_plain)

text \<open>The em dash of the messages is above the modelled range of characters; two hyphens stand for it.\<close>

definition em_dash :: string where
  "em_dash = ''--''"

section \<open>repr and str\<close>

definition hex_digits :: string where "hex_digits = ''0123456789abcdef''"

definition repr_char :: "char \<Rightarrow> char \<Rightarrow> string" where
  "repr_char q c = (let n = of_char c :: nat in
     if c = q \<or> n = 92 then [CHR 0x5C, c]
     else if n = 9 then [CHR 0x5C, CHR ''t'']
     else if n = 10 then [CHR 0x5C, CHR ''n'']
     else if n = 13 then [CHR 0x5C, CHR ''r'']
     else if n < 32 \<or> 127 \<le> n \<and> n \<le> 160 \<or> n = 173
       then [CHR 0x5C, CHR ''x'', hex_digits ! (n div 16), hex_digits ! (n mod 16)]
     else [c])"

definition repr_quote :: "string \<Rightarrow> char" where
  "repr_quote s = (if CHR 0x27 \<in> set s \<and> CHR 0x22 \<notin> set s
     then CHR 0x22 else CHR 0x27)"

definition repr_str :: "string \<Rightarrow> string" where
  "repr_str s = (let q = repr_quote s in [q] @ concat (map (repr_char q) s) @ [q])"

fun py_repr :: "json \<Rightarrow> string" where
  "py_repr JNull = ''None''"
| "py_repr (JBool b) = (if b then ''True'' else ''False'')"
| "py_repr (JNum n) = int_str n"
| "py_repr (JStr s) = repr_str s"
| "py_repr (JArr xs) = ''['' @ join '', '' (map py_repr xs) @ '']''"
| "py_repr (JObj d) = ''{'' @ join '', '' (map (\<lambda>(k, v). repr_str k @ '': '' @ py_repr v) d) @ ''}''"

fun str_of :: "json \<Rightarrow> string" where
  "str_of (JStr s) = s"
| "str_of j = py_repr j"

text \<open>\<open>str(x or default)\<close> of a value that may be missing.\<close>

definition str_or :: "string \<Rightarrow> json option \<Rightarrow> string" where
  "str_or d x = (case x of None \<Rightarrow> d | Some v \<Rightarrow> if truthy v then str_of v else d)"

lemma str_or_simps [simp]:
  "str_or d None = d"
  "str_or d (Some (JStr s)) = (if s = [] then d else s)"
  "str_or d (Some JNull) = d"
  by (auto simp: str_or_def)

text \<open>\<open>d.get(k)\<close> of a dictionary: a missing key and a null are both read as \<open>None\<close>.\<close>

definition jget :: "(string \<times> json) list \<Rightarrow> string \<Rightarrow> json" where
  "jget d k = (case map_of d k of None \<Rightarrow> JNull | Some v \<Rightarrow> v)"

lemma jget_simps [simp]:
  "jget [] k = JNull"
  "jget ((k', v) # d) k = (if k = k' then v else jget d k)"
  by (simp_all add: jget_def)

definition is_str :: "json \<Rightarrow> bool" where
  "is_str j = (case j of JStr _ \<Rightarrow> True | _ \<Rightarrow> False)"

lemma is_str_simps [simp]:
  "is_str (JStr s)" "\<not> is_str JNull" "\<not> is_str (JBool b)" "\<not> is_str (JNum n)"
  "\<not> is_str (JArr xs)" "\<not> is_str (JObj d)"
  by (simp_all add: is_str_def)

definition get_text :: "json \<Rightarrow> string" where
  "get_text j = str_or [] (Some j)"

lemma get_text_simps [simp]: "get_text (JStr s) = s" "get_text JNull = []"
  by (simp_all add: get_text_def)

end
