(* ===== verification/Budget.thy ===== *)
theory Budget
  imports Py_Text Complex_Main
begin

text \<open>
  packages/coord-engine/coord_engine/budget.py and read_retry.py: deadlines on the monotonic
  clock, the degraded markers of a bounded fold, and the single retry of a classified read. Time
  is a rational number of seconds (float rounding is not modelled). A clock reading is an
  operation on the world, so that any time may pass between two readings.
\<close>

section \<open>Deadlines\<close>

record deadline =
  instant :: "rat option"
  budget :: "rat option"

type_synonym 'w clock = "'w \<Rightarrow> rat \<times> 'w"

definition bare_deadline :: "rat option \<Rightarrow> deadline" where
  "bare_deadline i = \<lparr>instant = i, budget = None\<rparr>"

definition deadline_open :: "'w clock \<Rightarrow> rat option \<Rightarrow> 'w \<Rightarrow> deadline \<times> 'w" where
  "deadline_open clk secs w =
     (case secs of None \<Rightarrow> (\<lparr>instant = None, budget = None\<rparr>, w)
      | Some b \<Rightarrow> (case clk w of (t, w') \<Rightarrow> (\<lparr>instant = Some (t + b), budget = Some b\<rparr>, w')))"

definition expired :: "'w clock \<Rightarrow> deadline \<Rightarrow> 'w \<Rightarrow> bool \<times> 'w" where
  "expired clk d w =
     (case instant d of None \<Rightarrow> (False, w) | Some i \<Rightarrow> (case clk w of (t, w') \<Rightarrow> (i \<le> t, w')))"

definition remaining :: "'w clock \<Rightarrow> deadline \<Rightarrow> 'w \<Rightarrow> rat option \<times> 'w" where
  "remaining clk d w =
     (case instant d of None \<Rightarrow> (None, w)
      | Some i \<Rightarrow> (case clk w of (t, w') \<Rightarrow> (Some (max 0 (i - t)), w')))"

definition reserve :: "deadline \<Rightarrow> rat \<Rightarrow> deadline" where
  "reserve d fraction =
     (case (instant d, budget d) of (Some i, Some b) \<Rightarrow> bare_deadline (Some (i - b * fraction))
      | _ \<Rightarrow> bare_deadline (instant d))"

text \<open>An optional deadline argument: absent means never expired.\<close>

definition expired_opt :: "'w clock \<Rightarrow> deadline option \<Rightarrow> 'w \<Rightarrow> bool \<times> 'w" where
  "expired_opt clk d w = (case d of None \<Rightarrow> (False, w) | Some d \<Rightarrow> expired clk d w)"

lemma expired_False:
  "expired clk d w = (False, w') \<Longrightarrow> instant d = Some i \<Longrightarrow> \<exists>t. clk w = (t, w') \<and> t < i"
  by (auto simp: expired_def split: prod.splits)

lemma remaining_bound:
  "remaining clk d w = (Some r, w') \<Longrightarrow> 0 \<le> r"
  by (auto simp: remaining_def split: option.splits prod.splits)

lemma reserve_earlier:
  "instant d = Some i \<Longrightarrow> budget d = Some b \<Longrightarrow> 0 \<le> b \<Longrightarrow> 0 \<le> f \<Longrightarrow>
     \<exists>j. instant (reserve d f) = Some j \<and> j \<le> i"
  by (simp add: reserve_def bare_deadline_def)

section \<open>Degraded markers\<close>

definition degraded_row :: "string \<Rightarrow> int \<Rightarrow> int \<Rightarrow> int \<Rightarrow> (string \<times> json) list" where
  "degraded_row marker scanned all skipped =
     [(''type'', JStr marker), (''scanned'', JNum scanned), (''total'', JNum all)]
     @ (if skipped \<noteq> 0 then [(''skipped'', JNum skipped)] else [])"

definition fold_degraded_line :: "(string \<times> json) list \<Rightarrow> string \<Rightarrow> string \<Rightarrow> string \<Rightarrow> string" where
  "fold_degraded_line r label remedy noun =
     ''  '' @ label @ '' fold degraded: scanned '' @ str_of (jget r ''scanned'') @ ''/''
       @ str_of (jget r ''total'') @ '' before budget '' @ em_dash @ '' '' @ remedy
     @ (if truthy (jget r ''skipped'')
        then '' ('' @ str_of (jget r ''skipped'') @ '' '' @ noun @ ''(s) skipped on transport error)'' else [])"

section \<open>One retry\<close>

datatype rd_state = StOk | StAbsent | StInvalid | StError

text \<open>What a classified read gives back, or the exception that left it.\<close>

type_synonym 'b classified = "string + ('b option \<times> rd_state)"

definition DEFAULT_RETRY_MS :: int where
  "DEFAULT_RETRY_MS = 2000"

definition retry_delay_ms :: "string option \<Rightarrow> int" where
  "retry_delay_ms env =
     (let raw = (case env of None \<Rightarrow> [] | Some s \<Rightarrow> strip s) in
      if raw = [] then DEFAULT_RETRY_MS
      else (case py_int raw of None \<Rightarrow> DEFAULT_RETRY_MS | Some n \<Rightarrow> n))"

definition answer_in_time :: "'w clock \<Rightarrow> deadline option \<Rightarrow> 'b option \<times> rd_state \<Rightarrow> 'w
    \<Rightarrow> 'b classified \<times> 'w" where
  "answer_in_time clk d a w =
     (case expired_opt clk d w of (late, w') \<Rightarrow> (Inr (if late then (None, StError) else a), w'))"

definition second_read :: "'w clock \<Rightarrow> (string \<Rightarrow> 'w \<Rightarrow> 'b classified \<times> 'w) \<Rightarrow> deadline option
    \<Rightarrow> string \<Rightarrow> 'w \<Rightarrow> 'b classified \<times> 'w" where
  "second_read clk reader d p w =
     (case expired_opt clk d w of (late, w1) \<Rightarrow>
        if late then (Inr (None, StError), w1)
        else (case reader p w1 of
                (Inl e, w2) \<Rightarrow> (Inl e, w2)
              | (Inr a, w2) \<Rightarrow> answer_in_time clk d a w2))"

definition too_long :: "'w clock \<Rightarrow> deadline option \<Rightarrow> rat \<Rightarrow> 'w \<Rightarrow> bool \<times> 'w" where
  "too_long clk d delay w =
     (case d of None \<Rightarrow> (False, w)
      | Some d \<Rightarrow> (case remaining clk d w of
                    (None, w') \<Rightarrow> (False, w') | (Some left, w') \<Rightarrow> (left \<le> delay, w')))"

definition read_classified_retrying :: "'w clock \<Rightarrow> (rat \<Rightarrow> 'w \<Rightarrow> 'w) \<Rightarrow> string option
    \<Rightarrow> (string \<Rightarrow> 'w \<Rightarrow> 'b classified \<times> 'w) \<Rightarrow> deadline option \<Rightarrow> string \<Rightarrow> 'w \<Rightarrow> 'b classified \<times> 'w" where
  "read_classified_retrying clk sleep env reader d p w =
     (case expired_opt clk d w of (late, w1) \<Rightarrow>
        if late then (Inr (None, StError), w1)
        else (case reader p w1 of
                (Inl e, w2) \<Rightarrow> (Inl e, w2)
              | (Inr (raw, st), w2) \<Rightarrow>
                  (case expired_opt clk d w2 of (late, w3) \<Rightarrow>
                     if late then (Inr (None, StError), w3)
                     else if st \<noteq> StError then (Inr (raw, st), w3)
                     else if retry_delay_ms env \<le> 0 then (Inr (raw, st), w3)
                     else (let delay = of_int (retry_delay_ms env) / 1000 in
                           case too_long clk d delay w3 of (long, w4) \<Rightarrow>
                             if long then (Inr (None, StError), w4)
                             else second_read clk reader d p (sleep delay w4)))))"

text \<open>Any answer other than an error was given by the reader, at this path.\<close>

lemma answer_in_time_not_error:
  "answer_in_time clk d a w = (Inr (b, st), w') \<Longrightarrow> st \<noteq> StError \<Longrightarrow> a = (b, st)"
  by (auto simp: answer_in_time_def split: prod.splits if_splits)

lemma second_read_from_reader:
  assumes "second_read clk reader d p w = (Inr (b, st), w')" "st \<noteq> StError"
  shows "\<exists>v v'. reader p v = (Inr (b, st), v')"
  using assms by (auto simp: second_read_def split: prod.splits if_splits sum.splits dest: answer_in_time_not_error)

lemma retrying_from_reader:
  assumes "read_classified_retrying clk sleep env reader d p w = (Inr (b, st), w')" "st \<noteq> StError"
  shows "\<exists>v v'. reader p v = (Inr (b, st), v')"
  using assms by (auto simp: read_classified_retrying_def Let_def split: prod.splits if_splits sum.splits
      dest!: second_read_from_reader)

end
