(* ===== verification/Engine_Transport.thy ===== *)
theory Engine_Transport
  imports Budget Fold_Transport
begin

text \<open>
  packages/coord-engine/coord_engine/transport.py: the file-store transport of the engine. The
  \<open>fulcra-api\<close> command and the HTTP service are outside the repository; they are the fields
  of \<open>env\<close>, one per request the code makes, on an unknown world. The outcome of a command is
  its exit code with its output, or a failure to run it (timeout, \<open>OSError\<close>, undecodable
  output); of an HTTP request its body, an HTTP error status, or any other exception. The type
  \<open>'b\<close> is that of document contents, which the transport only passes on.

  Process groups and signals (\<open>run_bounded\<close>) are not modelled: what they guarantee is that a
  request ends, as every field of \<open>env\<close> does. The object's token memo is part of the state.
\<close>

section \<open>The outside\<close>

record erec =
  e_id :: json
  e_at :: json
  e_sources :: json
  e_note :: note_text

datatype eline = EBlank | ELine "erec option option"

datatype 'a http = HOk 'a | HStatus int | HFail

record ('w, 'b) env =
  clk :: "'w \<Rightarrow> rat \<times> 'w"
  utc_now :: "'w \<Rightarrow> string \<times> 'w"
  env_var :: "string \<Rightarrow> string option"
  cmd_updates :: "string \<Rightarrow> rat option \<Rightarrow> 'w \<Rightarrow> doc ran \<times> 'w"
  cmd_records :: "string \<Rightarrow> string \<Rightarrow> string \<Rightarrow> rat option \<Rightarrow> 'w \<Rightarrow> (eline list \<times> doc) ran \<times> 'w"
  cmd_token :: "rat option \<Rightarrow> 'w \<Rightarrow> string ran \<times> 'w"
  cmd_download :: "string \<Rightarrow> rat option \<Rightarrow> 'w \<Rightarrow> 'b ran \<times> 'w"
  cmd_upload :: "string \<Rightarrow> 'b \<Rightarrow> rat option \<Rightarrow> 'w \<Rightarrow> unit ran \<times> 'w"
  cmd_delete :: "string \<Rightarrow> rat option \<Rightarrow> 'w \<Rightarrow> unit ran \<times> 'w"
  cmd_list :: "string \<Rightarrow> rat option \<Rightarrow> 'w \<Rightarrow> string ran \<times> 'w"
  http_resolve :: "string \<Rightarrow> string \<Rightarrow> string \<Rightarrow> string \<Rightarrow> rat option \<Rightarrow> 'w \<Rightarrow> doc http \<times> 'w"
  http_fetch :: "string \<Rightarrow> string \<Rightarrow> string \<Rightarrow> rat option \<Rightarrow> 'w \<Rightarrow> 'b http \<times> 'w"
  http_recent :: "string \<Rightarrow> string \<Rightarrow> string \<Rightarrow> string \<Rightarrow> 'w \<Rightarrow> doc http \<times> 'w"
  http_tags :: "string \<Rightarrow> string \<Rightarrow> 'w \<Rightarrow> doc http \<times> 'w"
  http_new_tag :: "string \<Rightarrow> string \<Rightarrow> string \<Rightarrow> 'w \<Rightarrow> doc http \<times> 'w"

text \<open>The transport object: its operation bound and its token memo, beside the world.\<close>

record 'w tstate =
  memo :: "(rat \<times> string) option"
  world :: 'w

definition lift :: "('w \<Rightarrow> 'a \<times> 'w) \<Rightarrow> 'w tstate \<Rightarrow> 'a \<times> 'w tstate" where
  "lift f s = (case f (world s) of (a, w) \<Rightarrow> (a, s\<lparr>world := w\<rparr>))"

definition DEFAULT_API_BASE :: string where
  "DEFAULT_API_BASE = ''https://api.fulcradynamics.com''"

definition TOKEN_MEMO_TTL :: rat where
  "TOKEN_MEMO_TTL = 300"

definition api_base :: "('w, 'b) env \<Rightarrow> string" where
  "api_base E = rstrip_if (\<lambda>c. c = CHR ''/'')
     (case env_var E ''FULCRA_API_BASE'' of None \<Rightarrow> DEFAULT_API_BASE | Some s \<Rightarrow> s)"

section \<open>Text of the listing\<close>

record entry =
  en_name :: string
  en_size :: "string option"
  en_mtime :: "string option"
  en_dir :: bool

definition parse_list_line :: "string \<Rightarrow> entry option" where
  "parse_list_line l =
     (let parts = split_ws l in
      if strip l = [] then None
      else if length parts < 5 then
        (if parts = [] then None
         else Some \<lparr>en_name = last parts, en_size = (if 1 < length parts then Some (hd parts) else None),
                    en_mtime = None, en_dir = endswith (last parts) ''/''\<rparr>)
      else let name = join '' '' (drop 4 parts) in
           Some \<lparr>en_name = name, en_size = Some (parts ! 0),
                 en_mtime = Some (join '' '' [parts ! 1, parts ! 2, parts ! 3]),
                 en_dir = endswith name ''/''\<rparr>)"

definition parse_list_output :: "string \<Rightarrow> entry list" where
  "parse_list_output text = List.map_filter parse_list_line (splitlines text)"

definition list_dir :: "('w, 'b) env \<Rightarrow> rat \<Rightarrow> string \<Rightarrow> 'w \<Rightarrow> (string + entry list) \<times> 'w" where
  "list_dir E tmo pre w =
     (case cmd_list E pre (Some tmo) w of
        (Failed e, w') \<Rightarrow> (Inl e, w')
      | (Ran rc out err, w') \<Rightarrow>
          (if rc \<noteq> 0 then Inl (''list '' @ pre @ '' failed: '' @ strip err)
           else Inr (sort_key en_name (parse_list_output out)), w'))"

section \<open>Change feed and records\<close>

definition data_updates :: "('w, 'b) env \<Rightarrow> rat \<Rightarrow> string option \<Rightarrow> deadline option \<Rightarrow> 'w
    \<Rightarrow> (string \<times> json) list option \<times> 'w" where
  "data_updates E tmo since d w =
     (case expired_opt (clk E) d w of (late, w1) \<Rightarrow>
        if late then (None, w1)
        else (let period = (case since of None \<Rightarrow> ''0 seconds'' | Some s \<Rightarrow> if s = [] then ''0 seconds'' else s) in
          case (case d of None \<Rightarrow> (Some tmo, w1) | Some d \<Rightarrow> remaining (clk E) d w1) of (bound, w2) \<Rightarrow>
            if (case bound of None \<Rightarrow> False | Some b \<Rightarrow> b \<le> 0) then (None, w2)
            else (case cmd_updates E period bound w2 of
                    (Failed e, w3) \<Rightarrow> (None, w3)
                  | (Ran rc out err, w3) \<Rightarrow>
                      if rc \<noteq> 0 then (None, w3)
                      else (case expired_opt (clk E) d w3 of (late, w4) \<Rightarrow>
                              (if late then None
                               else (case out of Some (JObj o1) \<Rightarrow> Some o1 | _ \<Rightarrow> None), w4)))))"

record fchange =
  fc_path :: string
  fc_state :: string
  fc_uploaded :: json
  fc_archived :: json
  fc_deleted :: json

text \<open>One entry of \<open>file_changes\<close>: malformed, outside the team, or kept.\<close>

definition parse_change :: "string \<Rightarrow> json \<Rightarrow> fchange option option" where
  "parse_change pre j =
     (case j of
        JObj d \<Rightarrow>
          (case jget d ''full_name'' of
             JStr n \<Rightarrow>
               if strip n = [] then None
               else let path = lstrip_if (\<lambda>c. c = CHR ''/'') (strip n) in
                 if \<not> startswith path pre then Some None
                 else (case jget d ''state'' of
                         JStr st \<Rightarrow>
                           if st \<in> {''uploaded'', ''archived'', ''deleted''}
                           then Some (Some \<lparr>fc_path = path, fc_state = st, fc_uploaded = jget d ''uploaded_at'',
                                  fc_archived = jget d ''archived_at'', fc_deleted = jget d ''deleted_at''\<rparr>)
                           else None
                       | _ \<Rightarrow> None)
           | _ \<Rightarrow> None)
      | _ \<Rightarrow> None)"

definition team_prefix :: "string option \<Rightarrow> string" where
  "team_prefix team = (case team of None \<Rightarrow> [] | Some t \<Rightarrow> if t = [] then [] else ''team/'' @ t @ ''/'')"

definition updates :: "('w, 'b) env \<Rightarrow> rat \<Rightarrow> string \<Rightarrow> string option \<Rightarrow> 'w \<Rightarrow> fchange list option \<times> 'w" where
  "updates E tmo since team w =
     (case data_updates E tmo (Some since) None w of (data, w') \<Rightarrow>
        (case data of None \<Rightarrow> None
         | Some d \<Rightarrow> (case jget d ''file_changes'' of
               JArr cs \<Rightarrow> map_option (List.map_filter id) (all_some (parse_change (team_prefix team)) cs)
             | _ \<Rightarrow> None), w'))"

record srow =
  sr_id :: json
  sr_at :: string
  sr_sources :: "json list"
  sr_note :: note_text

definition parse_record :: "erec \<Rightarrow> srow option" where
  "parse_record r =
     (case e_at r of
        JStr ts \<Rightarrow>
          if strip ts = [] then None
          else (case e_sources r of
                  JNull \<Rightarrow> Some \<lparr>sr_id = e_id r, sr_at = strip ts, sr_sources = [], sr_note = e_note r\<rparr>
                | JArr xs \<Rightarrow> Some \<lparr>sr_id = e_id r, sr_at = strip ts, sr_sources = xs, sr_note = e_note r\<rparr>
                | _ \<Rightarrow> None)
      | _ \<Rightarrow> None)"

fun parse_lines :: "eline list \<Rightarrow> srow list option" where
  "parse_lines [] = Some []"
| "parse_lines (EBlank # ls) = parse_lines ls"
| "parse_lines (ELine None # ls) = None"
| "parse_lines (ELine (Some None) # ls) = None"
| "parse_lines (ELine (Some (Some r)) # ls) =
     (case parse_record r of None \<Rightarrow> None | Some row \<Rightarrow> map_option ((#) row) (parse_lines ls))"

definition records :: "('w, 'b) env \<Rightarrow> rat \<Rightarrow> string \<Rightarrow> string \<Rightarrow> string \<Rightarrow> 'w \<Rightarrow> srow list option \<times> 'w" where
  "records E tmo ty since until w =
     (case cmd_records E ty since until (Some tmo) w of
        (Failed e, w') \<Rightarrow> (None, w')
      | (Ran rc out err, w') \<Rightarrow> (if rc \<noteq> 0 then None else parse_lines (fst out), w'))"

definition records_cursor :: "('w, 'b) env \<Rightarrow> rat \<Rightarrow> json \<Rightarrow> string option \<Rightarrow> deadline option \<Rightarrow> 'w
    \<Rightarrow> (string \<times> json) list option \<times> 'w" where
  "records_cursor E tmo ty since d w =
     (case (ty, since) of
        (JStr t, Some (c # cs)) \<Rightarrow>
          if strip t = [] then (None, w)
          else (case expired_opt (clk E) d w of (late, w1) \<Rightarrow>
            if late then (None, w1)
            else (case (case d of None \<Rightarrow> (Some tmo, w1) | Some d \<Rightarrow> remaining (clk E) d w1) of (bound, w2) \<Rightarrow>
              if (case bound of None \<Rightarrow> False | Some b \<Rightarrow> b \<le> 0) then (None, w2)
              else (case utc_now E w2 of (until, w3) \<Rightarrow>
                (case cmd_records E t (c # cs) until bound w3 of
                   (Failed e, w4) \<Rightarrow> (None, w4)
                 | (Ran rc out err, w4) \<Rightarrow>
                     if rc \<noteq> 0 then (None, w4)
                     else (case expired_opt (clk E) d w4 of (late, w5) \<Rightarrow>
                       (if late then None
                        else (case snd out of
                                Some (JObj o1) \<Rightarrow>
                                  if {''after'', ''through'', ''records''} \<subseteq> fst ` set o1 then Some o1 else None
                              | _ \<Rightarrow> None), w5))))))
      | _ \<Rightarrow> (None, w))"

section \<open>The access token\<close>

definition fresh_token :: "('w, 'b) env \<Rightarrow> rat \<Rightarrow> rat option \<Rightarrow> 'w tstate \<Rightarrow> string option \<times> 'w tstate" where
  "fresh_token E tmo bound s =
     (case lift (cmd_token E (case bound of None \<Rightarrow> Some tmo | Some b \<Rightarrow> Some b)) s of
        (Failed e, s1) \<Rightarrow> (None, s1)
      | (Ran rc out err, s1) \<Rightarrow>
          if rc \<noteq> 0 \<or> strip out = [] then (None, s1)
          else (case lift (clk E) s1 of (t, s2) \<Rightarrow>
                  (Some (strip out), s2\<lparr>memo := Some (t, strip out)\<rparr>)))"

definition access_token :: "('w, 'b) env \<Rightarrow> rat \<Rightarrow> rat option \<Rightarrow> 'w tstate \<Rightarrow> string option \<times> 'w tstate" where
  "access_token E tmo bound s =
     (let declared = (case env_var E ''FULCRA_ACCESS_TOKEN'' of None \<Rightarrow> [] | Some v \<Rightarrow> strip v) in
      if declared \<noteq> [] then (Some declared, s)
      else (case memo s of
              None \<Rightarrow> fresh_token E tmo bound s
            | Some (t0, tok) \<Rightarrow>
                (case lift (clk E) s of (t, s1) \<Rightarrow>
                   if t - t0 < TOKEN_MEMO_TTL then (Some tok, s1) else fresh_token E tmo bound s1)))"

section \<open>Reading a document\<close>

text \<open>The budget of one phase: the operation bound, or what the deadline leaves.\<close>

definition left_of :: "('w, 'b) env \<Rightarrow> rat \<Rightarrow> deadline option \<Rightarrow> 'w tstate \<Rightarrow> rat option \<times> 'w tstate" where
  "left_of E tmo d s = (case d of None \<Rightarrow> (Some tmo, s) | Some d \<Rightarrow> lift (remaining (clk E) d) s)"

definition spent :: "('w, 'b) env \<Rightarrow> rat \<Rightarrow> deadline option \<Rightarrow> 'w tstate \<Rightarrow> bool \<times> 'w tstate" where
  "spent E tmo d s =
     (case left_of E tmo d s of (None, s1) \<Rightarrow> (False, s1) | (Some b, s1) \<Rightarrow> (b \<le> 0, s1))"

text \<open>
  The versions a resolve answer names. \<open>json.loads\<close> and \<open>.get\<close> are inside the \<open>try\<close>, so an
  answer that is not an object is an error; the first version is read outside of it.
\<close>

definition resolve_files :: "doc http \<Rightarrow> rd_state + json" where
  "resolve_files r =
     (case r of
        HStatus n \<Rightarrow> Inl (if n = 404 then StAbsent else StError)
      | HFail \<Rightarrow> Inl StError
      | HOk (Some (JObj d)) \<Rightarrow>
          (let files = jget d ''files'' in if truthy files then Inr files else Inl StAbsent)
      | HOk _ \<Rightarrow> Inl StError)"

definition first_version :: "json \<Rightarrow> string + json" where
  "first_version files =
     (case files of
        JArr (JObj f # fs) \<Rightarrow>
          Inr (let a = jget f ''id'' in if truthy a then a else jget f ''version_id'')
      | JArr xs \<Rightarrow> Inl ''AttributeError''
      | JStr t \<Rightarrow> Inl ''AttributeError''
      | JObj f \<Rightarrow> Inl ''KeyError''
      | _ \<Rightarrow> Inl ''TypeError'')"

definition fetch_version :: "('w, 'b) env \<Rightarrow> rat \<Rightarrow> deadline option \<Rightarrow> string \<Rightarrow> json \<Rightarrow> 'w tstate
    \<Rightarrow> ('b option \<times> rd_state) \<times> 'w tstate" where
  "fetch_version E tmo d tok vid s =
     (case spent E tmo d s of (late, s1) \<Rightarrow>
        if late then ((None, StError), s1)
        else (case left_of E tmo d s1 of (bound, s2) \<Rightarrow>
          (case lift (http_fetch E (api_base E) (str_of vid) tok bound) s2 of
             (HOk b, s3) \<Rightarrow> ((Some b, StOk), s3)
           | (HStatus n, s3) \<Rightarrow> ((None, if n = 404 then StAbsent else StError), s3)
           | (HFail, s3) \<Rightarrow> ((None, StError), s3))))"

definition after_resolve :: "('w, 'b) env \<Rightarrow> rat \<Rightarrow> deadline option \<Rightarrow> string \<Rightarrow> doc http \<Rightarrow> 'w tstate
    \<Rightarrow> 'b classified \<times> 'w tstate" where
  "after_resolve E tmo d tok r s =
     (case resolve_files r of
        Inl st \<Rightarrow> (Inr (None, st), s)
      | Inr files \<Rightarrow>
          (case first_version files of
             Inl e \<Rightarrow> (Inl e, s)
           | Inr vid \<Rightarrow>
               if \<not> truthy vid then (Inr (None, StError), s)
               else (case fetch_version E tmo d tok vid s of (a, s1) \<Rightarrow> (Inr a, s1))))"

definition http_read :: "('w, 'b) env \<Rightarrow> rat \<Rightarrow> deadline option \<Rightarrow> string \<Rightarrow> 'w tstate
    \<Rightarrow> 'b classified \<times> 'w tstate" where
  "http_read E tmo d path s =
     (case spent E tmo d s of (late, s1) \<Rightarrow>
        if late then (Inr (None, StError), s1)
        else (case left_of E tmo d s1 of (bound, s2) \<Rightarrow>
          (case access_token E tmo bound s2 of
             (None, s3) \<Rightarrow> (Inr (None, StError), s3)
           | (Some tok, s3) \<Rightarrow>
               (case spent E tmo d s3 of (late, s4) \<Rightarrow>
                  if late then (Inr (None, StError), s4)
                  else (case rpartition (CHR ''/'') (lstrip_if (\<lambda>c. c = CHR ''/'') path) of (parent, name) \<Rightarrow>
                    if name = [] then (Inr (None, StError), s4)
                    else (case left_of E tmo d s4 of (bound, s5) \<Rightarrow>
                      (case lift (http_resolve E (api_base E) (CHR ''/'' # parent) name tok bound) s5 of
                         (r, s6) \<Rightarrow> after_resolve E tmo d tok r s6)))))))"

definition http_enabled :: "('w, 'b) env \<Rightarrow> bool" where
  "http_enabled E =
     (lower (strip (case env_var E ''COORD_TRANSPORT_HTTP'' of None \<Rightarrow> ''1'' | Some v \<Rightarrow> v))
        \<notin> {''0'', ''false'', ''no'', ''off''})"

definition op_deadline :: "('w, 'b) env \<Rightarrow> rat \<Rightarrow> deadline option \<Rightarrow> 'w tstate \<Rightarrow> deadline \<times> 'w tstate" where
  "op_deadline E tmo d s =
     (case lift (deadline_open (clk E) (Some tmo)) s of (local, s1) \<Rightarrow>
        (case d of None \<Rightarrow> (local, s1)
         | Some d \<Rightarrow>
             (case (instant local, instant d) of
                (Some a, Some b) \<Rightarrow> (bare_deadline (Some (min a b)), s1)
              | (a, None) \<Rightarrow> (bare_deadline a, s1)
              | (None, b) \<Rightarrow> (bare_deadline b, s1))))"

definition cli_absent :: "string \<Rightarrow> bool" where
  "cli_absent err = startswith (lower (strip err)) ''error: file not found in fulcra''"

definition cli_read :: "('w, 'b) env \<Rightarrow> deadline \<Rightarrow> string \<Rightarrow> 'w tstate \<Rightarrow> ('b option \<times> rd_state) \<times> 'w tstate" where
  "cli_read E op path s =
     (case lift (remaining (clk E) op) s of (left, s1) \<Rightarrow>
        if (case left of None \<Rightarrow> False | Some b \<Rightarrow> b \<le> 0) then ((None, StError), s1)
        else (case lift (cmd_download E path left) s1 of
                (Failed e, s2) \<Rightarrow> ((None, StError), s2)
              | (Ran rc out err, s2) \<Rightarrow>
                  (case lift (expired (clk E) op) s2 of (late, s3) \<Rightarrow>
                     if late then ((None, StError), s3)
                     else if rc \<noteq> 0 then ((None, if cli_absent err then StAbsent else StError), s3)
                     else ((Some out, StOk), s3))))"

definition read_classified :: "('w, 'b) env \<Rightarrow> rat \<Rightarrow> deadline option \<Rightarrow> string \<Rightarrow> 'w tstate
    \<Rightarrow> 'b classified \<times> 'w tstate" where
  "read_classified E tmo d path s =
     (case op_deadline E tmo d s of (op, s1) \<Rightarrow>
        (case lift (expired (clk E) op) s1 of (late, s2) \<Rightarrow>
           if late then (Inr (None, StError), s2)
           else if \<not> http_enabled E
           then (case cli_read E op path s2 of (a, s3) \<Rightarrow> (Inr a, s3))
           else (case http_read E tmo (Some op) path s2 of
                   (Inl e, s3) \<Rightarrow> (Inl e, s3)
                 | (Inr (b, st), s3) \<Rightarrow>
                     (case lift (expired (clk E) op) s3 of (late, s4) \<Rightarrow>
                        if late then (Inr (None, StError), s4)
                        else if st \<in> {StOk, StAbsent} then (Inr (b, st), s4)
                        else (case cli_read E op path s4 of (a, s5) \<Rightarrow> (Inr a, s5))))))"

text \<open>\<open>read\<close>: the content alone, \<open>None\<close> on any failure.\<close>

definition read_doc :: "('w, 'b) env \<Rightarrow> rat \<Rightarrow> string \<Rightarrow> 'w tstate \<Rightarrow> (string + 'b option) \<times> 'w tstate" where
  "read_doc E tmo path s =
     (case read_classified E tmo None path s of
        (Inl e, s') \<Rightarrow> (Inl e, s') | (Inr (b, st), s') \<Rightarrow> (Inr b, s'))"

section \<open>Writing and deleting\<close>

definition write_doc :: "('w, 'b) env \<Rightarrow> rat \<Rightarrow> string \<Rightarrow> 'b \<Rightarrow> 'w \<Rightarrow> bool \<times> 'w" where
  "write_doc E tmo path body w =
     (case cmd_upload E path body (Some tmo) w of (r, w') \<Rightarrow> (rc_of r = 0, w'))"

definition write_if_unchanged :: "string \<Rightarrow> 'b \<Rightarrow> 'b option \<Rightarrow> bool" where
  "write_if_unchanged path body old = False"

definition delete :: "('w, 'b) env \<Rightarrow> rat \<Rightarrow> string \<Rightarrow> 'w \<Rightarrow> bool \<times> 'w" where
  "delete E tmo path w =
     (case cmd_delete E path (Some tmo) w of (Failed e, w') \<Rightarrow> (False, w') | (Ran rc out err, w') \<Rightarrow> (rc = 0, w'))"

definition delete_idempotent :: "('w, 'b) env \<Rightarrow> rat \<Rightarrow> string \<Rightarrow> 'w \<Rightarrow> bool \<times> 'w" where
  "delete_idempotent E tmo path w =
     (case cmd_delete E path (Some tmo) w of
        (Failed e, w') \<Rightarrow> (False, w')
      | (Ran rc out err, w') \<Rightarrow> (rc = 0 \<or> sublist ''File not found in Fulcra:'' err, w'))"

section \<open>The REST-only operations\<close>

definition recent_changes :: "('w, 'b) env \<Rightarrow> rat \<Rightarrow> string \<Rightarrow> string \<Rightarrow> 'w tstate
    \<Rightarrow> json list option \<times> 'w tstate" where
  "recent_changes E tmo start stop s =
     (case access_token E tmo None s of
        (None, s1) \<Rightarrow> (None, s1)
      | (Some tok, s1) \<Rightarrow>
          (case lift (http_recent E (api_base E) start stop tok) s1 of
             (HOk (Some (JObj d)), s2) \<Rightarrow> (case jget d ''files'' of JArr xs \<Rightarrow> (Some xs, s2) | _ \<Rightarrow> (None, s2))
           | (_, s2) \<Rightarrow> (None, s2)))"

fun find_tag :: "string \<Rightarrow> json list \<Rightarrow> string option" where
  "find_tag wanted [] = None"
| "find_tag wanted (row # rows) =
     (case row of
        JObj d \<Rightarrow>
          if jget d ''name'' = JStr wanted
          then (case jget d ''id'' of JStr (c # cs) \<Rightarrow> Some (c # cs) | _ \<Rightarrow> find_tag wanted rows)
          else find_tag wanted rows
      | _ \<Rightarrow> find_tag wanted rows)"

definition tag_lookup :: "('w, 'b) env \<Rightarrow> string \<Rightarrow> string \<Rightarrow> 'w tstate \<Rightarrow> string option \<times> 'w tstate" where
  "tag_lookup E tok wanted s =
     (case lift (http_tags E (api_base E) tok) s of
        (HOk (Some (JArr rows)), s1) \<Rightarrow> (find_tag wanted rows, s1)
      | (_, s1) \<Rightarrow> (None, s1))"

definition created_tag :: "doc \<Rightarrow> string option" where
  "created_tag d =
     (case d of Some (JObj o1) \<Rightarrow> (case jget o1 ''id'' of JStr (c # cs) \<Rightarrow> Some (c # cs) | _ \<Rightarrow> None) | _ \<Rightarrow> None)"

definition tag_ensure :: "('w, 'b) env \<Rightarrow> rat \<Rightarrow> string \<Rightarrow> 'w tstate \<Rightarrow> string option \<times> 'w tstate" where
  "tag_ensure E tmo name s =
     (let wanted = strip name in
      if wanted = [] then (None, s)
      else (case access_token E tmo None s of
              (None, s1) \<Rightarrow> (None, s1)
            | (Some tok, s1) \<Rightarrow>
                (case tag_lookup E tok wanted s1 of
                   (Some found, s2) \<Rightarrow> (Some found, s2)
                 | (None, s2) \<Rightarrow>
                     (case lift (http_new_tag E (api_base E) tok wanted) s2 of
                        (HOk d, s3) \<Rightarrow> (created_tag d, s3)
                      | (HStatus n, s3) \<Rightarrow> if n = 409 then tag_lookup E tok wanted s3 else (None, s3)
                      | (HFail, s3) \<Rightarrow> (None, s3)))))"

end
