(* ===== verification/Engine_Reads.thy ===== *)
theory Engine_Reads
  imports Engine_Transport
begin

text \<open>
  What the engine's transport promises its callers: an answer other than an error is timely and
  an absence is affirmed by the store; a window of records is complete or unknown. Two places
  where the code falls short of its own description are shown at the end.
\<close>

section \<open>Absence and time\<close>

text \<open>
  What the store answers to the last request of a read. A document is not there when the resolve
  endpoint answers 404 for exactly this path or an object that lists no file, when the download of
  the version it named answers 404, or when the command fails with its not-found message. Its
  content is what the download of the named version or a successful command gives.
\<close>

definition resolve_answer :: "('w, 'b) env \<Rightarrow> string \<Rightarrow> doc http \<Rightarrow> 'w \<Rightarrow> bool" where
  "resolve_answer E path r v \<longleftrightarrow> (\<exists>parent name tok bound u.
     rpartition (CHR ''/'') (lstrip_if (\<lambda>c. c = CHR ''/'') path) = (parent, name)
     \<and> http_resolve E (api_base E) (CHR ''/'' # parent) name tok bound u = (r, v))"

definition fetch_answer :: "('w, 'b) env \<Rightarrow> string \<Rightarrow> 'b http \<Rightarrow> 'w \<Rightarrow> bool" where
  "fetch_answer E path r v \<longleftrightarrow> (\<exists>d f fs v1 tok bound u.
     resolve_answer E path (HOk (Some (JObj d))) v1 \<and> jget d ''files'' = JArr (JObj f # fs)
     \<and> http_fetch E (api_base E) (str_of (if truthy (jget f ''id'') then jget f ''id'' else jget f ''version_id'')) tok bound u = (r, v))"

definition says_absent :: "('w, 'b) env \<Rightarrow> string \<Rightarrow> 'w \<Rightarrow> bool" where
  "says_absent E path v \<longleftrightarrow>
     resolve_answer E path (HStatus 404) v
   \<or> (\<exists>d. resolve_answer E path (HOk (Some (JObj d))) v \<and> \<not> truthy (jget d ''files''))
   \<or> fetch_answer E path (HStatus 404) v
   \<or> (\<exists>bound u rc out err. cmd_download E path bound u = (Ran rc out err, v) \<and> rc \<noteq> 0
        \<and> (\<exists>more. lower (strip err) = ''error: file not found in fulcra'' @ more))"

definition gives_body :: "('w, 'b) env \<Rightarrow> string \<Rightarrow> 'b \<Rightarrow> 'w \<Rightarrow> bool" where
  "gives_body E path body v \<longleftrightarrow> fetch_answer E path (HOk body) v
   \<or> (\<exists>bound u err. cmd_download E path bound u = (Ran 0 body err, v))"

definition affirmed :: "('w, 'b) env \<Rightarrow> string \<Rightarrow> 'b option \<Rightarrow> rd_state \<Rightarrow> 'w \<Rightarrow> bool" where
  "affirmed E path b st v \<longleftrightarrow> (st = StAbsent \<and> b = None \<and> says_absent E path v)
     \<or> (st = StOk \<and> (\<exists>body. b = Some body \<and> gives_body E path body v))"

lemma lift_eqD: "lift f s = (a, s') \<Longrightarrow> f (world s) = (a, world s')"
  by (auto simp: lift_def split: prod.splits)

lemma fetch_affirmed:
  assumes "fetch_version E tmo d tok vid s = ((b, st), s')" "st \<noteq> StError"
    and "resolve_answer E path (HOk (Some (JObj o'))) v1" "jget o' ''files'' = JArr (JObj f # fs)"
    and "vid = (if truthy (jget f ''id'') then jget f ''id'' else jget f ''version_id'')"
  shows "affirmed E path b st (world s')"
proof -
  have r: "\<exists>bound u r. http_fetch E (api_base E) (str_of vid) tok bound u = (r, world s')
      \<and> (b, st) = (case r of HOk x \<Rightarrow> (Some x, StOk) | HStatus n \<Rightarrow> (None, if n = 404 then StAbsent else StError) | HFail \<Rightarrow> (None, StError))"
    using assms(1,2) by (auto simp: fetch_version_def split: prod.splits http.splits if_splits dest!: lift_eqD) (metis http.simps)+
  then obtain bound u r where r: "http_fetch E (api_base E) (str_of vid) tok bound u = (r, world s')"
    "(b, st) = (case r of HOk x \<Rightarrow> (Some x, StOk) | HStatus n \<Rightarrow> (None, if n = 404 then StAbsent else StError) | HFail \<Rightarrow> (None, StError))"
    by blast
  from r(1) assms(3-5) have "fetch_answer E path r (world s')" unfolding fetch_answer_def by blast
  with r(2) assms(2) show ?thesis
    by (auto simp: affirmed_def says_absent_def gives_body_def split: http.splits if_splits)
qed

lemma after_resolve_affirmed:
  assumes "after_resolve E tmo d tok r u = (Inr (b, st), u')" "st \<noteq> StError" "resolve_answer E path r (world u)"
  shows "affirmed E path b st (world u')"
proof (cases r)
  case (HOk x)
  show ?thesis
  proof (cases "\<exists>o'. x = Some (JObj o')")
    case False
    with HOk assms(1,2) show ?thesis by (auto simp: after_resolve_def resolve_files_def split: option.splits json.splits)
  next
    case True
    then obtain o' where o': "x = Some (JObj o')" by blast
    show ?thesis
    proof (cases "truthy (jget o' ''files'')")
      case False
      with HOk o' assms show ?thesis by (auto simp: after_resolve_def resolve_files_def affirmed_def says_absent_def)
    next
      case True
      then have fv: "resolve_files r = Inr (jget o' ''files'')" by (simp add: HOk o' resolve_files_def)
      with assms(1) obtain vid where vid: "first_version (jget o' ''files'') = Inr vid"
        by (auto simp: after_resolve_def split: sum.splits)
      then obtain f fs where f: "jget o' ''files'' = JArr (JObj f # fs)"
        "vid = (if truthy (jget f ''id'') then jget f ''id'' else jget f ''version_id'')"
        by (auto simp: first_version_def Let_def split: json.splits list.splits)
      from assms(1,2) fv vid have "fetch_version E tmo d tok vid u = ((b, st), u')"
        by (auto simp: after_resolve_def split: if_splits prod.splits)
      from fetch_affirmed [OF this assms(2) _ f] assms(3) show ?thesis by (simp add: HOk o')
    qed
  qed
qed (use assms in \<open>auto simp: after_resolve_def resolve_files_def affirmed_def says_absent_def split: if_splits\<close>)

lemma http_read_affirmed:
  assumes "http_read E tmo d path s = (Inr (b, st), s')" "st \<noteq> StError"
  shows "affirmed E path b st (world s')"
proof -
  obtain parent name where pn: "rpartition (CHR ''/'') (lstrip_if (\<lambda>c. c = CHR ''/'') path) = (parent, name)"
    by (metis prod.collapse)
  from assms pn obtain tok bound s5 r s6 where
    "lift (http_resolve E (api_base E) (CHR ''/'' # parent) name tok bound) s5 = (r, s6)"
    "after_resolve E tmo d tok r s6 = (Inr (b, st), s')"
    by (auto simp: http_read_def split: prod.splits option.splits if_splits)
  moreover from lift_eqD [OF this(1)] pn have "resolve_answer E path r (world s6)" unfolding resolve_answer_def by blast
  ultimately show ?thesis using assms(2) by (blast intro: after_resolve_affirmed)
qed

lemma cli_read_affirmed:
  assumes "cli_read E op path s = ((b, st), s')" "st \<noteq> StError"
  shows "\<exists>u. lift (expired (clk E) op) u = (False, s') \<and> affirmed E path b st (world u)"
proof -
  from assms obtain left s1 rc out err u where r: "lift (cmd_download E path left) s1 = (Ran rc out err, u)"
    and e: "lift (expired (clk E) op) u = (False, s')"
    and a: "(b, st) = (if rc \<noteq> 0 then (None, if cli_absent err then StAbsent else StError) else (Some out, StOk))"
    by (auto simp: cli_read_def split: prod.splits ran.splits if_splits)
  have "\<exists>more. lower (strip err) = ''error: file not found in fulcra'' @ more" if "cli_absent err"
    using that append_take_drop_id [of "length ''error: file not found in fulcra''" "lower (strip err)"]
    unfolding cli_absent_def startswith_def by metis
  with a assms(2) lift_eqD [OF r] have "affirmed E path b st (world u)"
    unfolding affirmed_def says_absent_def gives_body_def by (auto split: if_splits) blast+
  with e show ?thesis by blast
qed

lemma read_classified_cases:
  assumes "read_classified E tmo d path s = (Inr (b, st), s')" "st \<noteq> StError"
  obtains (http) op s1 s2 s3 where "op_deadline E tmo d s = (op, s1)"
      "http_read E tmo (Some op) path s2 = (Inr (b, st), s3)" "lift (expired (clk E) op) s3 = (False, s')"
    | (cli) op s1 s2 where "op_deadline E tmo d s = (op, s1)" "cli_read E op path s2 = ((b, st), s')"
  using assms unfolding read_classified_def
  by (auto split: prod.splits if_splits sum.splits)

lemma op_deadline_instant:
  assumes "op_deadline E tmo d s = (op, s1)"
  shows "\<exists>t0 w0 i. clk E (world s) = (t0, w0) \<and> instant op = Some i \<and> i \<le> t0 + tmo
           \<and> (\<forall>dl j. d = Some dl \<and> instant dl = Some j \<longrightarrow> i \<le> j)"
  using assms by (cases "clk E (world s)")
    (auto simp: op_deadline_def deadline_open_def lift_def bare_deadline_def split: option.splits)

lemma read_affirmed:
  assumes "read_classified E tmo d path s = (Inr (b, st), s')" "st \<noteq> StError"
  shows "\<exists>op s1 u. op_deadline E tmo d s = (op, s1) \<and> lift (expired (clk E) op) u = (False, s') \<and> affirmed E path b st (world u)"
  using assms
  by (cases rule: read_classified_cases) (blast dest: http_read_affirmed [OF _ assms(2)] cli_read_affirmed [OF _ assms(2)])+

lemma read_absent_affirmed:
  assumes "read_classified E tmo d path s = (Inr (b, StAbsent), s')"
  shows "\<exists>v. says_absent E path v"
  using read_affirmed [OF assms] by (auto simp: affirmed_def)

text \<open>C33. An answer is affirmed and in time. Whenever a classified read says anything but error, the
  clock was read right after the request that settled the answer, strictly before both the
  operation bound, counted from the start of the read, and the caller's deadline. If the answer is
  an absence, that request was answered by the store with a 404 or an empty listing for this path,
  a 404 for the version the store named for it, or the command's not-found message - never by a
  timeout, another status, another failure or a malformed answer; if it is a content, that request
  gave exactly this content. This holds for the HTTP path, the command fallback and every mixture
  of their phases.\<close>

theorem answer_affirmed_in_time:
  assumes "read_classified E tmo d path s = (Inr (b, st), s')" "st \<noteq> StError"
  shows "\<exists>t0 w0 t v. clk E (world s) = (t0, w0) \<and> clk E v = (t, world s') \<and> t < t0 + tmo
         \<and> (\<forall>dl j. d = Some dl \<and> instant dl = Some j \<longrightarrow> t < j)
         \<and> ((st = StAbsent \<and> b = None \<and> says_absent E path v)
            \<or> (st = StOk \<and> (\<exists>body. b = Some body \<and> gives_body E path body v)))"
proof -
  from read_affirmed [OF assms] obtain op s1 u where o: "op_deadline E tmo d s = (op, s1)"
    and u: "lift (expired (clk E) op) u = (False, s')" and a: "affirmed E path b st (world u)" by blast
  from op_deadline_instant [OF o] obtain t0 w0 i where i: "clk E (world s) = (t0, w0)"
    "instant op = Some i" "i \<le> t0 + tmo" "\<forall>dl j. d = Some dl \<and> instant dl = Some j \<longrightarrow> i \<le> j" by blast
  from expired_False [OF lift_eqD [OF u] i(2)] obtain t where t: "clk E (world u) = (t, world s')" "t < i" by blast
  with i have "t < t0 + tmo" "\<forall>dl j. d = Some dl \<and> instant dl = Some j \<longrightarrow> t < j" by (auto intro: order_less_le_trans)
  with i(1) t(1) a show ?thesis unfolding affirmed_def by blast
qed

section \<open>Windows of records\<close>

fun good_line :: "eline \<Rightarrow> bool" where
  "good_line EBlank = True"
| "good_line (ELine (Some (Some r))) = (parse_record r \<noteq> None)"
| "good_line (ELine _) = False"

fun line_row :: "eline \<Rightarrow> srow option" where
  "line_row (ELine (Some (Some r))) = parse_record r"
| "line_row _ = None"

lemma parse_lines_iff:
  "parse_lines ls = Some rows \<longleftrightarrow> list_all good_line ls \<and> rows = List.map_filter line_row ls"
proof (induction ls arbitrary: rows rule: parse_lines.induct)
  case (5 r ls)
  then show ?case by (auto simp: List.map_filter_simps split: option.splits)
qed (auto simp: List.map_filter_simps)

text \<open>A window of records is complete or unknown: \<open>records\<close> returns rows exactly when the
  command ended with status 0 and every line of its output is blank or a record with a usable
  time and list of sources, and the rows are then those lines in order, none left out. A consumer
  that advances its cursor past a window has therefore been given all of it.\<close>

theorem records_all_or_nothing:
  "fst (records E tmo ty since until w) = Some rows \<longleftrightarrow>
     (\<exists>ls whole err w'. cmd_records E ty since until (Some tmo) w = (Ran 0 (ls, whole) err, w')
        \<and> list_all good_line ls \<and> rows = List.map_filter line_row ls)"
  by (cases "cmd_records E ty since until (Some tmo) w")
    (auto simp: records_def parse_lines_iff split: ran.splits if_splits)

section \<open>The retried read\<close>

lemma retried_absent_affirmed:
  assumes "read_classified_retrying clock sleep v (read_classified E tmo d) d' path s = (Inr (b, StAbsent), s')"
  shows "\<exists>v. says_absent E path v"
  using retrying_from_reader [OF assms] read_absent_affirmed by blast

section \<open>Two divergences\<close>

text \<open>
  The first version of a resolve answer is read outside the \<open>try\<close>: an answer whose \<open>files\<close> is
  a non-empty list that does not start with an object leaves \<open>read_classified\<close> as an exception,
  although its contract has three outcomes only.
\<close>

lemma malformed_resolve_escapes:
  assumes "resolve_files r = Inr (JArr (x # xs))" "\<And>f. x \<noteq> JObj f"
  shows "after_resolve E tmo d tok r s = (Inl ''AttributeError'', s)"
  using assms by (cases x) (auto simp: after_resolve_def first_version_def)

text \<open>
  A tag listing that failed is treated like a listing without the tag: the creation is sent.
\<close>

lemma failed_listing_creates_tag:
  assumes "strip name \<noteq> []" "access_token E tmo None s = (Some tok, s1)"
    "lift (http_tags E (api_base E) tok) s1 = (HFail, s2)"
    "lift (http_new_tag E (api_base E) tok (strip name)) s2 = (HOk d, s3)"
  shows "tag_ensure E tmo name s = (created_tag d, s3)"
  using assms by (simp add: tag_ensure_def tag_lookup_def Let_def)

section \<open>A concrete environment\<close>

text \<open>
  The world is the time of day; every clock reading advances it by a tenth of a second, every
  request by half a second. The store knows one document, at \<open>/team/a.json\<close>; one record line
  is readable.
\<close>

definition demo_record :: erec where
  "demo_record = \<lparr>e_id = JStr ''r1'', e_at = JStr ''2026-01-01T00:00:00Z'', e_sources = JNull, e_note = NoText\<rparr>"

definition demo_env :: "(rat, string) env" where
  "demo_env = \<lparr>clk = (\<lambda>w. (w, w + 1/10)), utc_now = (\<lambda>w. (''2026-01-01T00:00:00Z'', w)),
     env_var = (\<lambda>v. if v = ''FULCRA_ACCESS_TOKEN'' then Some ''t0k'' else None),
     cmd_updates = (\<lambda>p b w. (Failed ''none'', w)),
     cmd_records = (\<lambda>t a b c w. (Ran 0 ([ELine (Some (Some demo_record)), EBlank], None) [], w + 1/2)),
     cmd_token = (\<lambda>b w. (Failed ''none'', w)),
     cmd_download = (\<lambda>p b w. (Failed ''none'', w)), cmd_upload = (\<lambda>p c b w. (Failed ''none'', w)),
     cmd_delete = (\<lambda>p b w. (Failed ''none'', w)), cmd_list = (\<lambda>p b w. (Failed ''none'', w)),
     http_resolve = (\<lambda>base parent name tok b w.
        (if parent = ''/team'' \<and> name = ''a.json''
         then HOk (Some (JObj [(''files'', JArr [JObj [(''id'', JStr ''v1'')]])])) else HStatus 404, w + 1/2)),
     http_fetch = (\<lambda>base vid tok b w. (HOk ''text'', w + 1/2)),
     http_recent = (\<lambda>b x y tok w. (HFail, w)), http_tags = (\<lambda>b tok w. (HFail, w)),
     http_new_tag = (\<lambda>b tok n w. (HFail, w))\<rparr>"

lemmas read_eval = demo_env_def read_classified_def op_deadline_def deadline_open_def bare_deadline_def
  expired_def remaining_def lift_def http_read_def spent_def left_of_def access_token_def
  http_enabled_def after_resolve_def resolve_files_def first_version_def fetch_version_def text_eval

lemma demo_absent:
  "read_classified demo_env 30 None ''team/b.json'' \<lparr>memo = None, world = 0\<rparr>
     = (Inr (None, StAbsent), \<lparr>memo = None, world = 6/5\<rparr>)"
  by (simp add: read_eval)

lemma answer_affirmed_in_time_witness:
  "\<exists>t v. says_absent demo_env ''team/b.json'' v \<and> clk demo_env v = (t, 6/5) \<and> t < 30"
  using answer_affirmed_in_time [OF demo_absent] by (fastforce simp: demo_env_def)

end
