(* ===== verification/Obligations.thy ===== *)
theory Obligations
  imports Py_Text "HOL-Library.Product_Lexorder"
begin

text \<open>
  packages/coord-engine/coord_engine/obligations.py and outcome.py: the fold that answers "do I
  owe anything?" in one of four terminal states, and the typed outcome of a command. A probe is
  an operation on the world that answers or raises; the rows it reports are dictionaries.
\<close>

type_synonym jrow = "(string \<times> json) list"

section \<open>The fold's data\<close>

datatype ostate = DATA | CLEAR | UNKNOWN | INVALID

datatype pstate = OK | UNREADABLE | MALFORMED

record presult =
  p_state :: pstate
  p_owed :: "jrow list"
  p_detail :: string

datatype probed = Raised string | Answered presult

record 'w component =
  c_name :: string
  c_probe :: "'w \<Rightarrow> probed \<times> 'w"

definition OBLIGATION_COMPONENTS :: "string list" where
  "OBLIGATION_COMPONENTS = [''blocks'', ''directives'', ''forge_feedback'', ''reminders'', ''reviews'',
     ''role_duties'', ''tasks'']"

record oresult =
  o_state :: ostate
  o_owed :: "jrow list"
  o_degraded :: "string list"
  o_malformed :: "string list"
  o_consulted :: "string list"
  o_details :: "(string, string) dict"

definition can_claim_clear :: "oresult \<Rightarrow> bool" where
  "can_claim_clear r = (o_state r = CLEAR)"

definition labelled :: "oresult \<Rightarrow> string \<Rightarrow> string" where
  "labelled r n =
     (case map_of (o_details r) n of None \<Rightarrow> n | Some why \<Rightarrow> if why = [] then n else n @ '' ('' @ why @ '')'')"

definition ob_reason :: "oresult \<Rightarrow> string" where
  "ob_reason r =
     (case o_state r of
        UNKNOWN \<Rightarrow> ''cannot prove anything about: ''
          @ join '', '' (map (labelled r) (if o_degraded r = [] then [''(unnamed component)''] else o_degraded r))
      | INVALID \<Rightarrow> ''malformed component data: '' @ join '', '' (o_malformed r)
      | DATA \<Rightarrow> nat_str (length (o_owed r)) @ '' obligation(s) owed''
      | CLEAR \<Rightarrow> ''nothing owed across '' @ nat_str (length (o_consulted r)) @ '' component(s)'')"

section \<open>The fold\<close>

record facc =
  f_consulted :: "string list"
  f_degraded :: "string list"
  f_malformed :: "string list"
  f_owed :: "jrow list"
  f_details :: "(string, string) dict"

definition facc0 :: facc where
  "facc0 = \<lparr>f_consulted = [], f_degraded = [], f_malformed = [], f_owed = [], f_details = []\<rparr>"

definition set_detail :: "string \<Rightarrow> string \<Rightarrow> facc \<Rightarrow> facc" where
  "set_detail n why a = (if why = [] then a else a\<lparr>f_details := dict_set n why (f_details a)\<rparr>)"

definition fold_one :: "string \<Rightarrow> probed \<Rightarrow> facc \<Rightarrow> facc" where
  "fold_one n p a =
     (case p of
        Raised exc \<Rightarrow> set_detail n (''probe raised '' @ exc) (a\<lparr>f_degraded := f_degraded a @ [n]\<rparr>)
      | Answered r \<Rightarrow>
          (let a1 = (case p_state r of
                UNREADABLE \<Rightarrow> set_detail n (p_detail r) (a\<lparr>f_degraded := f_degraded a @ [n]\<rparr>)
              | MALFORMED \<Rightarrow> set_detail n (p_detail r) (a\<lparr>f_malformed := f_malformed a @ [n]\<rparr>)
              | OK \<Rightarrow> a\<lparr>f_consulted := f_consulted a @ [n]\<rparr>)
           in a1\<lparr>f_owed := f_owed a1 @ p_owed r\<rparr>))"

fun fold_loop :: "'w component list \<Rightarrow> facc \<Rightarrow> 'w \<Rightarrow> facc \<times> 'w" where
  "fold_loop [] a w = (a, w)"
| "fold_loop (c # cs) a w = (case c_probe c w of (p, w') \<Rightarrow> fold_loop cs (fold_one (c_name c) p a) w')"

definition never_offered :: string where
  "never_offered = ''component was never offered to the fold''"

definition missing_of :: "string list option \<Rightarrow> string list \<Rightarrow> string list" where
  "missing_of expected present =
     (case expected of None \<Rightarrow> [] | Some ns \<Rightarrow> sorted_set (filter (\<lambda>n. n \<notin> set present) ns))"

fun default_details :: "string list \<Rightarrow> (string, string) dict \<Rightarrow> (string, string) dict" where
  "default_details [] d = d"
| "default_details (n # ns) d =
     default_details ns (if map_of d n = None then dict_set n never_offered d else d)"

definition fold_state :: "string list \<Rightarrow> string list \<Rightarrow> jrow list \<Rightarrow> ostate" where
  "fold_state degraded malformed owed =
     (if degraded \<noteq> [] then UNKNOWN else if malformed \<noteq> [] then INVALID
      else if owed \<noteq> [] then DATA else CLEAR)"

definition fold_result :: "string list option \<Rightarrow> string list \<Rightarrow> facc \<Rightarrow> oresult" where
  "fold_result expected present a =
     (let missing = missing_of expected present;
          degraded = sorted_set (f_degraded a @ missing);
          malformed = sorted_set (f_malformed a)
      in \<lparr>o_state = fold_state degraded malformed (f_owed a), o_owed = f_owed a, o_degraded = degraded,
          o_malformed = malformed, o_consulted = sort (f_consulted a),
          o_details = default_details missing (f_details a)\<rparr>)"

definition ob_fold :: "'w component list \<Rightarrow> string list option \<Rightarrow> 'w \<Rightarrow> oresult \<times> 'w" where
  "ob_fold cs expected w =
     (case fold_loop cs facc0 w of (a, w') \<Rightarrow> (fold_result expected (map c_name cs) a, w'))"

section \<open>What the probes said\<close>

text \<open>The answers of the probes in the order they are asked, each in the world the last one left.\<close>

fun answers :: "'w component list \<Rightarrow> 'w \<Rightarrow> (string \<times> probed) list" where
  "answers [] w = []"
| "answers (c # cs) w = (case c_probe c w of (p, w') \<Rightarrow> (c_name c, p) # answers cs w')"

definition owed_of :: "probed \<Rightarrow> jrow list" where
  "owed_of p = (case p of Raised e \<Rightarrow> [] | Answered r \<Rightarrow> p_owed r)"

definition says :: "pstate \<Rightarrow> probed \<Rightarrow> bool" where
  "says st p = (case p of Raised e \<Rightarrow> st = UNREADABLE | Answered r \<Rightarrow> p_state r = st)"

definition named :: "pstate \<Rightarrow> (string \<times> probed) list \<Rightarrow> string list" where
  "named st ps = map fst (filter (\<lambda>x. says st (snd x)) ps)"

lemma answers_names [simp]: "map fst (answers cs w) = map c_name cs"
  by (induction cs arbitrary: w) (auto split: prod.splits)

lemma owed_of_simps [simp]: "owed_of (Raised e) = []" "owed_of (Answered r) = p_owed r"
  by (simp_all add: owed_of_def)

lemma says_simps [simp]: "says st (Raised e) = (st = UNREADABLE)" "says st (Answered r) = (p_state r = st)"
  by (simp_all add: says_def)

lemma set_detail_frame [simp]:
  "f_consulted (set_detail n y a) = f_consulted a" "f_degraded (set_detail n y a) = f_degraded a"
  "f_malformed (set_detail n y a) = f_malformed a" "f_owed (set_detail n y a) = f_owed a"
  by (simp_all add: set_detail_def)

lemma fold_one_fields:
  "f_owed (fold_one n p a) = f_owed a @ owed_of p"
  "f_consulted (fold_one n p a) = f_consulted a @ (if says OK p then [n] else [])"
  "f_degraded (fold_one n p a) = f_degraded a @ (if says UNREADABLE p then [n] else [])"
  "f_malformed (fold_one n p a) = f_malformed a @ (if says MALFORMED p then [n] else [])"
  by (auto simp: fold_one_def Let_def split: probed.splits pstate.splits)

lemma fold_loop_fields:
  "f_owed (fst (fold_loop cs a w)) = f_owed a @ concat (map (\<lambda>x. owed_of (snd x)) (answers cs w))"
  "f_consulted (fst (fold_loop cs a w)) = f_consulted a @ named OK (answers cs w)"
  "f_degraded (fst (fold_loop cs a w)) = f_degraded a @ named UNREADABLE (answers cs w)"
  "f_malformed (fst (fold_loop cs a w)) = f_malformed a @ named MALFORMED (answers cs w)"
  by (induction cs arbitrary: a w) (auto simp: named_def fold_one_fields split: prod.splits)

lemma ob_fold_fields:
  fixes cs :: "'w component list" and expected w
  defines "r \<equiv> fst (ob_fold cs expected w)" and "ps \<equiv> answers cs w"
  shows "o_owed r = concat (map (\<lambda>x. owed_of (snd x)) ps)"
    and "o_consulted r = sort (named OK ps)"
    and "o_degraded r = sorted_set (named UNREADABLE ps @ missing_of expected (map c_name cs))"
    and "o_malformed r = sorted_set (named MALFORMED ps)"
    and "o_state r = fold_state (o_degraded r) (o_malformed r) (o_owed r)"
  unfolding r_def ps_def
  by (cases "fold_loop cs facc0 w", use fold_loop_fields [of cs facc0 w] in
      \<open>simp add: ob_fold_def fold_result_def Let_def facc0_def\<close>)+

lemma named_Nil: "named st ps = [] \<longleftrightarrow> list_all (\<lambda>x. \<not> says st (snd x)) ps"
  by (induction ps) (auto simp: named_def)

lemma missing_Nil: "missing_of expected present = [] \<longleftrightarrow>
    (case expected of None \<Rightarrow> True | Some ns \<Rightarrow> set ns \<subseteq> set present)"
  by (auto simp: missing_of_def filter_empty_conv split: option.splits)

lemma all_ok: "list_all (\<lambda>x. says OK (snd x)) ps \<longleftrightarrow>
    list_all (\<lambda>x. \<not> says UNREADABLE (snd x)) ps \<and> list_all (\<lambda>x. \<not> says MALFORMED (snd x)) ps"
proof (induction ps)
  case (Cons x ps)
  have "says OK (snd x) \<longleftrightarrow> \<not> says UNREADABLE (snd x) \<and> \<not> says MALFORMED (snd x)"
    by (cases "snd x"; simp) (metis pstate.distinct(1,3) pstate.exhaust pstate.distinct(5))
  with Cons show ?case by auto
qed simp

definition offered :: "string list option \<Rightarrow> 'w component list \<Rightarrow> bool" where
  "offered expected cs = (case expected of None \<Rightarrow> True | Some ns \<Rightarrow> set ns \<subseteq> set (map c_name cs))"

lemma obligations_fail_closed0:
  "(o_state (fst (ob_fold cs expected w)) = CLEAR \<longleftrightarrow> offered expected cs
      \<and> list_all (\<lambda>x. says OK (snd x) \<and> owed_of (snd x) = []) (answers cs w))
   \<and> (o_state (fst (ob_fold cs expected w)) = DATA \<longleftrightarrow> offered expected cs
      \<and> list_all (\<lambda>x. says OK (snd x)) (answers cs w)
      \<and> list_ex (\<lambda>x. owed_of (snd x) \<noteq> []) (answers cs w))
   \<and> (o_state (fst (ob_fold cs expected w)) = UNKNOWN \<longleftrightarrow>
      \<not> (offered expected cs \<and> list_all (\<lambda>x. \<not> says UNREADABLE (snd x)) (answers cs w)))
   \<and> o_owed (fst (ob_fold cs expected w)) = concat (map (\<lambda>x. owed_of (snd x)) (answers cs w))"
proof -
  define r where "r = fst (ob_fold cs expected w)"
  define ps where "ps = answers cs w"
  note F = ob_fold_fields [of cs expected w, folded r_def ps_def]
  have owed: "o_owed r = [] \<longleftrightarrow> list_all (\<lambda>x. owed_of (snd x) = []) ps"
    by (simp add: F(1) list_all_iff)
  have deg: "o_degraded r = [] \<longleftrightarrow> offered expected cs \<and> list_all (\<lambda>x. \<not> says UNREADABLE (snd x)) ps"
    by (auto simp: F(3) named_Nil missing_Nil offered_def split: option.splits)
  have mal: "o_malformed r = [] \<longleftrightarrow> list_all (\<lambda>x. \<not> says MALFORMED (snd x)) ps"
    by (simp add: F(4) named_Nil)
  have both: "list_all (\<lambda>x. says OK (snd x) \<and> owed_of (snd x) = []) ps \<longleftrightarrow>
      list_all (\<lambda>x. says OK (snd x)) ps \<and> list_all (\<lambda>x. owed_of (snd x) = []) ps"
    by (auto simp: list_all_iff)
  have ex: "list_ex (\<lambda>x. owed_of (snd x) \<noteq> []) ps \<longleftrightarrow> o_owed r \<noteq> []"
    by (simp add: owed list_ex_iff list_all_iff)
  show ?thesis
    unfolding r_def [symmetric] ps_def [symmetric] ex both owed [symmetric] all_ok deg [symmetric] mal [symmetric]
    using deg mal by (auto simp: F(5) F(1) [symmetric] fold_state_def)
qed

lemma obligations_clear_iff:
  "o_state (fst (ob_fold cs expected w)) = CLEAR \<longleftrightarrow>
     offered expected cs \<and> list_all (\<lambda>x. says OK (snd x) \<and> owed_of (snd x) = []) (answers cs w)"
  by (rule conjunct1 [OF obligations_fail_closed0])

text \<open>C9. The fold fails closed, and nothing it was told is lost: CLEAR is answered exactly when
  every expected component was offered and every probe answered OK with nothing owed; DATA
  exactly when they all answered OK and something is owed; UNKNOWN exactly when a probe raised or
  was unreadable or an expected component was never offered; INVALID otherwise. In every state
  the owed rows are all the rows all probes reported, in the order they were asked.\<close>

theorem obligations_fail_closed:
  "(o_state (fst (ob_fold cs expected w)) = CLEAR \<longleftrightarrow> offered expected cs
      \<and> list_all (\<lambda>x. says OK (snd x) \<and> owed_of (snd x) = []) (answers cs w))
   \<and> (o_state (fst (ob_fold cs expected w)) = DATA \<longleftrightarrow> offered expected cs
      \<and> list_all (\<lambda>x. says OK (snd x)) (answers cs w)
      \<and> list_ex (\<lambda>x. owed_of (snd x) \<noteq> []) (answers cs w))
   \<and> (o_state (fst (ob_fold cs expected w)) = UNKNOWN \<longleftrightarrow>
      \<not> (offered expected cs \<and> list_all (\<lambda>x. \<not> says UNREADABLE (snd x)) (answers cs w)))
   \<and> o_owed (fst (ob_fold cs expected w)) = concat (map (\<lambda>x. owed_of (snd x)) (answers cs w))"
  by (rule obligations_fail_closed0)

lemma obligations_unknown_iff:
  "o_state (fst (ob_fold cs expected w)) = UNKNOWN \<longleftrightarrow>
     \<not> (offered expected cs \<and> list_all (\<lambda>x. \<not> says UNREADABLE (snd x)) (answers cs w))"
  by (rule conjunct1 [OF conjunct2 [OF conjunct2 [OF obligations_fail_closed0]]])

text \<open>Probes that do not touch the world leave it as it was.\<close>

lemma fold_loop_world: "list_all (\<lambda>c. \<forall>w. snd (c_probe c w) = w) cs \<Longrightarrow> snd (fold_loop cs a w) = w"
proof (induction cs arbitrary: a w)
  case (Cons c cs)
  then have "snd (c_probe c w) = w" by simp
  with Cons show ?case by (cases "c_probe c w") simp
qed simp

lemma ob_fold_world: "list_all (\<lambda>c. \<forall>w. snd (c_probe c w) = w) cs \<Longrightarrow> snd (ob_fold cs expected w) = w"
  using fold_loop_world [of cs facc0 w] by (cases "fold_loop cs facc0 w") (simp add: ob_fold_def)

section \<open>Typed outcomes (outcome.py)\<close>

datatype cov_state = NotRun | CovClear | CovData | CovUnknown

record coverage =
  cv_surface :: string
  cv_state :: cov_state
  cv_required :: bool
  cv_reason :: "string option"

record 'r outcome =
  oc_state :: cov_state
  oc_rows :: "'r list"
  oc_coverage :: "coverage list"

definition from_surfaces :: "'r list \<Rightarrow> coverage list \<Rightarrow> 'r outcome" where
  "from_surfaces rows coverage =
     (let ordered = sort_key cv_surface coverage; required = filter cv_required ordered;
          has = (\<lambda>st. list_ex (\<lambda>c. cv_state c = st) required)
      in \<lparr>oc_state = (if has CovUnknown then CovUnknown else if has NotRun then NotRun
                      else if rows \<noteq> [] \<or> has CovData then CovData else CovClear),
          oc_rows = rows, oc_coverage = ordered\<rparr>)"

definition outcome_rc :: "'r outcome \<Rightarrow> int" where
  "outcome_rc o1 = (if oc_state o1 \<in> {CovClear, CovData} then 0 else 3)"

definition cov_text :: "cov_state \<Rightarrow> string" where
  "cov_text st = (case st of NotRun \<Rightarrow> ''NOT_RUN'' | CovClear \<Rightarrow> ''CLEAR'' | CovData \<Rightarrow> ''DATA'' | CovUnknown \<Rightarrow> ''UNKNOWN'')"

definition coverage_line :: "coverage \<Rightarrow> string" where
  "coverage_line c =
     (let detail = (case cv_reason c of None \<Rightarrow> [] | Some r \<Rightarrow> if r = [] then [] else [r])
                   @ (if cv_required c then [] else [''non-gating'']) in
      cv_surface c @ '': '' @ cov_text (cv_state c)
      @ (if detail = [] then [] else '' ('' @ join ''; '' detail @ '')''))"

definition render_text :: "'r outcome \<Rightarrow> string" where
  "render_text o1 =
     join [CHR 0x0A] (cov_text (oc_state o1) # map coverage_line (oc_coverage o1))"

lemma from_surfaces_clear:
  "oc_state (from_surfaces rows cov) = CovClear \<longleftrightarrow>
     rows = [] \<and> list_all (\<lambda>c. cv_required c \<longrightarrow> cv_state c = CovClear) cov"
proof -
  have "cv_state c = CovClear \<longleftrightarrow> cv_state c \<noteq> CovUnknown \<and> cv_state c \<noteq> NotRun \<and> cv_state c \<noteq> CovData" for c
    by (cases "cv_state c") simp_all
  then show ?thesis by (auto simp: from_surfaces_def Let_def list_ex_iff list_all_iff)
qed

end
