(* ===== verification/Cutover.thy ===== *)
theory Cutover
  imports Obligations Budget Fold_Checkpoint
begin

text \<open>
  packages/coord-engine/coord_engine/cutover.py and the part of cli.py that serves
  \<open>obligations\<close>: the switch that names the authoritative plane, the rows read from an agent's
  coord-fold checkpoint, the seven probes they become, and the obligations checkpoint of the
  stream fold with its seed. The transport is a record of two operations on an unknown world.
  The probes of the file plane and the forge rows (the rest of cli.py) are parameters.
\<close>

section \<open>The transport\<close>

datatype body = EmptyBody | Body doc

record 'w etrans =
  et_read :: "string \<Rightarrow> 'w \<Rightarrow> body classified \<times> 'w"
  et_write :: "string \<Rightarrow> json \<Rightarrow> 'w \<Rightarrow> (string + bool) \<times> 'w"

definition state_text :: "rd_state \<Rightarrow> string" where
  "state_text st = (case st of StOk \<Rightarrow> ''ok'' | StAbsent \<Rightarrow> ''absent'' | StInvalid \<Rightarrow> ''invalid'' | StError \<Rightarrow> ''error'')"

definition text_of :: "body option \<Rightarrow> doc option" where
  "text_of b = (case b of Some (Body d) \<Rightarrow> Some d | _ \<Rightarrow> None)"

section \<open>The switch\<close>

datatype plane = Files | FoldPlane | UnknownPlane

definition SWITCH_VERSION :: int where "SWITCH_VERSION = 1"
definition SERVE_VALUES :: "string list" where "SERVE_VALUES = [''fold'', ''files'']"
definition FOLD_DEGRADED :: string where "FOLD_DEGRADED = ''fold-degraded''"

definition switch_path :: "string \<Rightarrow> string" where
  "switch_path team = ''team/'' @ team @ ''/_coord/bus-v4/cutover.json''"

definition checkpoint_path :: "string \<Rightarrow> string \<Rightarrow> string" where
  "checkpoint_path team agent = ''team/'' @ team @ ''/member/'' @ agent @ ''/fold/checkpoint.json''"

definition version_is :: "int \<Rightarrow> (string \<times> json) list \<Rightarrow> bool" where
  "version_is n d = (case map_of d ''v'' of None \<Rightarrow> False | Some v \<Rightarrow> is_num v n)"

definition set_by :: "(string \<times> json) list \<Rightarrow> string" where
  "set_by d = '' (set '' @ str_of (jget d ''at'') @ '' by '' @ str_of (jget d ''by'') @ '')''"

definition parse_switch :: "doc \<Rightarrow> plane \<times> string" where
  "parse_switch doc =
     (case doc of
        None \<Rightarrow> (UnknownPlane, ''cutover switch is not JSON; authority unknown'')
      | Some (JObj d) \<Rightarrow>
          if \<not> version_is SWITCH_VERSION d \<or> jget d ''serve'' \<notin> JStr ` set SERVE_VALUES
          then (UnknownPlane, ''cutover switch is malformed; authority unknown'')
          else if jget d ''serve'' = JStr ''fold'' then (FoldPlane, ''cutover switch says fold'' @ set_by d)
          else (Files, ''cutover switch says files'' @ set_by d)
      | Some _ \<Rightarrow> (UnknownPlane, ''cutover switch is malformed; authority unknown''))"

definition read_switch :: "'w etrans \<Rightarrow> string \<Rightarrow> 'w \<Rightarrow> (plane \<times> string) \<times> 'w" where
  "read_switch tr team w =
     (case et_read tr (switch_path team) w of
        (Inl exc, w') \<Rightarrow> ((UnknownPlane, ''cutover switch unreadable ('' @ exc @ ''); authority unknown''), w')
      | (Inr (b, st), w') \<Rightarrow>
          (if st = StAbsent then (Files, ''no cutover switch on the bus; serving from files'')
           else if st \<noteq> StOk then (UnknownPlane, ''cutover switch read state '' @ repr_str (state_text st) @ ''; authority unknown'')
           else (case text_of b of
                   None \<Rightarrow> (UnknownPlane, ''cutover switch read state '' @ repr_str (state_text st) @ ''; authority unknown'')
                 | Some doc \<Rightarrow> parse_switch doc), w'))"

definition switch_doc :: "string \<Rightarrow> string \<Rightarrow> string \<Rightarrow> string \<Rightarrow> string + json" where
  "switch_doc serve by reason ts =
     (if serve \<notin> set SERVE_VALUES then Inl ''ValueError''
      else if strip reason = [] then Inl ''ValueError''
      else Inr (JObj [(''at'', JStr ts), (''by'', JStr by), (''reason'', JStr (strip reason)),
                      (''serve'', JStr serve), (''v'', JNum SWITCH_VERSION)]))"

section \<open>Rows from the coord-fold checkpoint\<close>

definition health_reason :: "string \<Rightarrow> (string \<times> json) list \<Rightarrow> string option" where
  "health_reason agent d =
     (let who = ''coord-fold checkpoint for '' @ agent in
      case jget d ''unread_events'' of
        JNum n \<Rightarrow>
          if n < 0 then Some (who @ '': unread_events is not a non-negative integer ('' @ py_repr (JNum n) @ '')'')
          else (case jget d ''unreadable_pointers'' of
                  JArr xs \<Rightarrow>
                    if \<not> list_all is_str xs
                    then Some (who @ '': unreadable_pointers is not a list of strings ('' @ py_repr (JArr xs) @ '')'')
                    else if 0 < n then Some (who @ '' has '' @ int_str n @ '' unread event(s) '' @ em_dash @ '' opens may be unapplied'')
                    else if xs \<noteq> [] then Some (who @ '' has '' @ nat_str (length xs) @ '' unreadable pointer(s): '' @ py_repr (JArr (take 3 xs)))
                    else None
                | x \<Rightarrow> Some (who @ '': unreadable_pointers is not a list of strings ('' @ py_repr x @ '')''))
      | x \<Rightarrow> Some (who @ '': unread_events is not a non-negative integer ('' @ py_repr x @ '')''))"

definition fold_row :: "string \<Rightarrow> (string \<times> json) list \<Rightarrow> jrow" where
  "fold_row slug row =
     [(''id'', JStr slug), (''name'', JStr slug), (''slug'', JStr slug), (''title'', JStr slug),
      (''priority'', JStr (str_or ''?'' (map_of row ''pri''))), (''status'', JStr ''open''),
      (''kind'', JStr (if startswith slug ''review-request-'' then ''review'' else ''task'')),
      (''owner'', jget row ''from''), (''assignee'', jget row ''to''), (''ptr'', jget row ''ptr''),
      (''opened_at'', jget row ''at''), (''claimed_by'', jget row ''claimed_by''),
      (''served_from'', JStr ''coord-fold'')]"

text \<open>The rows of the \<open>open\<close> object, or the first key that does not hold an object.\<close>

fun rows_of :: "(string \<times> json) list \<Rightarrow> string + jrow list" where
  "rows_of [] = Inr []"
| "rows_of ((slug, JObj row) # d) = res_bind (rows_of d) (\<lambda>rs. Inr (fold_row slug row # rs))"
| "rows_of ((slug, _) # d) = Inl slug"

definition row_key :: "jrow \<Rightarrow> string \<times> string \<times> string" where
  "row_key r = (get_text (jget r ''priority''), str_or [] (map_of r ''opened_at''), get_text (jget r ''id''))"

definition source_row :: "(string \<times> json) list \<Rightarrow> jrow" where
  "source_row d = [(''type'', JStr ''needs-me-source''), (''source'', JStr ''projection''), (''as_of'', jget d ''cursor''),
     (''fold'', JStr ''coord-fold''), (''generation'', jget d ''generation''), (''writer'', jget d ''writer'')]"

definition rows_answer :: "string \<Rightarrow> (string \<times> json) list \<Rightarrow> jrow list option \<times> string \<times> string option" where
  "rows_answer agent d =
     (let who = ''coord-fold checkpoint for '' @ agent in
      case (version_is 1 d, jget d ''open'') of
        (True, JObj open_obj) \<Rightarrow>
          (case rows_of open_obj of
             Inl slug \<Rightarrow> (None, who @ '' carries a non-object row at '' @ repr_str slug, None)
           | Inr rows \<Rightarrow>
               (Some (sort_key row_key rows @ [source_row d]),
                ''served from coord-fold checkpoint (cursor '' @ str_of (jget d ''cursor'') @ '', generation ''
                  @ str_of (jget d ''generation'') @ '')'',
                health_reason agent d))
      | _ \<Rightarrow> (None, who @ '' is malformed'', None))"

definition absent_reading :: string where
  "absent_reading = '' is absent '' @ em_dash @ '' no fold is seeded under this exact name. ''
     @ ''Identity names are exact; a mistyped name is indistinguishable from an unseeded ''
     @ ''identity at this cost, so check the name before concluding the fold broke''"

definition fold_rows :: "'w etrans \<Rightarrow> string \<Rightarrow> string \<Rightarrow> 'w \<Rightarrow> (jrow list option \<times> string \<times> string option) \<times> 'w" where
  "fold_rows tr team agent w =
     (let who = ''coord-fold checkpoint for '' @ agent in
      case et_read tr (checkpoint_path team agent) w of
        (Inl exc, w') \<Rightarrow> ((None, who @ '' unreadable ('' @ exc @ '')'', None), w')
      | (Inr (b, st), w') \<Rightarrow>
          (if st = StAbsent then (None, who @ absent_reading, None)
           else if st \<noteq> StOk then (None, who @ '' is '' @ state_text st, None)
           else (case text_of b of
                   None \<Rightarrow> (None, who @ '' is '' @ state_text st, None)
                 | Some None \<Rightarrow> (None, who @ '' is not JSON'', None)
                 | Some (Some (JObj d)) \<Rightarrow> rows_answer agent d
                 | Some (Some _) \<Rightarrow> (None, who @ '' is malformed'', None)), w'))"

section \<open>The probes of the fold plane\<close>

definition const_probe :: "pstate \<Rightarrow> jrow list \<Rightarrow> string \<Rightarrow> 'w \<Rightarrow> probed \<times> 'w" where
  "const_probe st owed_rows detail w = (Answered \<lparr>p_state = st, p_owed = owed_rows, p_detail = detail\<rparr>, w)"

definition all_unreadable :: "string \<Rightarrow> 'w component list" where
  "all_unreadable why =
     map (\<lambda>n. \<lparr>c_name = n, c_probe = const_probe UNREADABLE [] why\<rparr>) OBLIGATION_COMPONENTS"

definition type_of :: "jrow \<Rightarrow> string" where
  "type_of r = str_or [] (map_of r ''type'')"

text \<open>The forge rows are read by pointed reads of a projection: \<open>None\<close> and a reason, or rows.\<close>

type_synonym 'w forge = "deadline \<Rightarrow> 'w \<Rightarrow> (jrow list option \<times> string) \<times> 'w"

definition is_marker :: "string \<Rightarrow> jrow \<Rightarrow> bool" where
  "is_marker suf r = (case jget r ''type'' of JStr t \<Rightarrow> endswith t suf | _ \<Rightarrow> False)"

definition forge_probe :: "'w clock \<Rightarrow> 'w forge \<Rightarrow> deadline \<Rightarrow> 'w \<Rightarrow> probed \<times> 'w" where
  "forge_probe clk forge dl w =
     (case expired clk dl w of (late, w1) \<Rightarrow>
        if late then const_probe UNREADABLE [] (''obligation probe budget exhausted '' @ em_dash @ '' raise COORD_OBLIGATION_BUDGET'') w1
        else (case forge dl w1 of
                ((None, why), w2) \<Rightarrow> const_probe UNREADABLE [] why w2
              | ((Some found, why), w2) \<Rightarrow>
                  (let markers = map (\<lambda>r. get_text (jget r ''type'')) (filter (is_marker ''-degraded'') found);
                       real = filter (\<lambda>r. \<not> is_marker ''-degraded'' r \<and> \<not> is_marker ''-source'' r) found
                   in if markers \<noteq> [] then const_probe UNREADABLE real (join ''; '' (sorted_set markers)) w2
                      else const_probe OK real why w2)))"

definition healthy_probes :: "'w clock \<Rightarrow> 'w forge \<Rightarrow> deadline \<Rightarrow> jrow list \<Rightarrow> string \<Rightarrow> 'w component list" where
  "healthy_probes clk forge dl owed_rows why =
     (let sub = why @ ''; not distinguished on the fold '' @ em_dash @ '' an open of this kind is served under tasks'';
          reviews = filter (\<lambda>r. jget r ''kind'' = JStr ''review'') owed_rows;
          directives = filter (\<lambda>r. jget r ''kind'' \<noteq> JStr ''review'') owed_rows
      in [\<lparr>c_name = ''blocks'', c_probe = const_probe OK [] sub\<rparr>,
          \<lparr>c_name = ''directives'', c_probe = const_probe OK []
             (sub @ '' ('' @ nat_str (length directives) @ '' of the folded opens)'')\<rparr>,
          \<lparr>c_name = ''forge_feedback'', c_probe = forge_probe clk forge dl\<rparr>,
          \<lparr>c_name = ''reminders'', c_probe = const_probe OK [] sub\<rparr>,
          \<lparr>c_name = ''reviews'', c_probe = const_probe OK []
             (sub @ '' ('' @ nat_str (length reviews) @ '' of the folded opens are review requests)'')\<rparr>,
          \<lparr>c_name = ''role_duties'', c_probe = const_probe OK []
             (why @ ''; role-routed opens are folded at seed and on the stream'')\<rparr>,
          \<lparr>c_name = ''tasks'', c_probe = const_probe OK owed_rows why\<rparr>])"

definition partial_probes :: "jrow list \<Rightarrow> string \<Rightarrow> 'w component list" where
  "partial_probes owed_rows detail =
     map (\<lambda>n. \<lparr>c_name = n, c_probe = const_probe UNREADABLE (if n = ''tasks'' then owed_rows else []) detail\<rparr>)
       OBLIGATION_COMPONENTS"

definition fold_probes :: "'w clock \<Rightarrow> rat \<Rightarrow> 'w forge \<Rightarrow> 'w etrans \<Rightarrow> string \<Rightarrow> string \<Rightarrow> string \<Rightarrow> 'w
    \<Rightarrow> 'w component list \<times> 'w" where
  "fold_probes clk secs forge tr team agent serve_why w =
     (case fold_rows tr team agent w of
        ((None, why, unhealthy), w1) \<Rightarrow> (all_unreadable (serve_why @ ''; '' @ why), w1)
      | ((Some rows, why, unhealthy), w1) \<Rightarrow>
          (let owed_rows = filter (\<lambda>r. \<not> endswith (type_of r) ''-source'') rows in
           case deadline_open clk (Some secs) w1 of (dl, w2) \<Rightarrow>
             (case unhealthy of
                Some bad \<Rightarrow> (partial_probes owed_rows (serve_why @ ''; '' @ bad), w2)
              | None \<Rightarrow> (healthy_probes clk forge dl owed_rows why, w2))))"

section \<open>The obligations verb\<close>

definition obligation_probes :: "'w clock \<Rightarrow> rat \<Rightarrow> 'w forge \<Rightarrow> ('w \<Rightarrow> 'w component list \<times> 'w)
    \<Rightarrow> 'w etrans \<Rightarrow> string \<Rightarrow> string \<Rightarrow> 'w \<Rightarrow> 'w component list \<times> 'w" where
  "obligation_probes clk secs forge file_probes tr team agent w =
     (case read_switch tr team w of ((serve, why), w1) \<Rightarrow>
        (case serve of
           UnknownPlane \<Rightarrow> (all_unreadable why, w1)
         | FoldPlane \<Rightarrow> fold_probes clk secs forge tr team agent why w1
         | Files \<Rightarrow> file_probes w1))"

definition ob_answer :: "'w clock \<Rightarrow> rat \<Rightarrow> 'w forge \<Rightarrow> ('w \<Rightarrow> 'w component list \<times> 'w)
    \<Rightarrow> 'w etrans \<Rightarrow> string \<Rightarrow> string \<Rightarrow> 'w \<Rightarrow> oresult \<times> 'w" where
  "ob_answer clk secs forge file_probes tr team agent w =
     (case obligation_probes clk secs forge file_probes tr team agent w of (cs, w') \<Rightarrow>
        ob_fold cs (Some OBLIGATION_COMPONENTS) w')"

definition ob_rc :: "ostate \<Rightarrow> int" where
  "ob_rc st = (case st of UNKNOWN \<Rightarrow> 3 | INVALID \<Rightarrow> 4 | _ \<Rightarrow> 0)"

definition cmd_obligations :: "'w clock \<Rightarrow> rat \<Rightarrow> 'w forge \<Rightarrow> ('w \<Rightarrow> 'w component list \<times> 'w)
    \<Rightarrow> 'w etrans \<Rightarrow> string \<Rightarrow> string \<Rightarrow> 'w \<Rightarrow> int \<times> 'w" where
  "cmd_obligations clk secs forge file_probes tr team agent w =
     (case ob_answer clk secs forge file_probes tr team agent w of (r, w') \<Rightarrow> (ob_rc (o_state r), w'))"

text \<open>The fragment a queue read carries when it was asked for obligations.\<close>

definition requested_obligations :: "bool \<Rightarrow> 'w clock \<Rightarrow> rat \<Rightarrow> 'w forge \<Rightarrow> ('w \<Rightarrow> 'w component list \<times> 'w)
    \<Rightarrow> 'w etrans \<Rightarrow> string \<Rightarrow> string \<Rightarrow> 'w \<Rightarrow> oresult option \<times> 'w" where
  "requested_obligations asked clk secs forge file_probes tr team agent w =
     (if \<not> asked then (None, w)
      else (case ob_answer clk secs forge file_probes tr team agent w of (r, w') \<Rightarrow> (Some r, w')))"

section \<open>The obligations checkpoint of the stream fold\<close>

record open_row =
  or_slug :: string
  or_ptr :: string
  or_priority :: string

record ob_ckpt =
  oc_as_of :: string
  oc_open :: "open_row list"
  oc_unknown :: "string list"
  oc_seeded_by :: string

definition ob_ckpt_path :: "string \<Rightarrow> string \<Rightarrow> string" where
  "ob_ckpt_path team agent = ''team/'' @ team @ ''/_coord/agents/'' @ agent @ ''/obligations-checkpoint.json''"

definition parse_open_row :: "json \<Rightarrow> open_row option" where
  "parse_open_row j =
     (case j of
        JObj d \<Rightarrow>
          if truthy (jget d ''slug'')
          then Some \<lparr>or_slug = str_of (jget d ''slug''),
                     or_ptr = str_or (''task/'' @ str_of (jget d ''slug'') @ ''.md'') (map_of d ''ptr''),
                     or_priority = str_or ''P2'' (map_of d ''priority'')\<rparr>
          else None
      | _ \<Rightarrow> None)"

definition parse_ob_ckpt :: "doc \<Rightarrow> ob_ckpt option" where
  "parse_ob_ckpt doc =
     (case doc of
        Some (JObj d) \<Rightarrow>
          (case (version_is 1 d, jget d ''as_of'', jget d ''open'') of
             (True, JStr (c # cs), JArr rows) \<Rightarrow>
               map_option (\<lambda>rs. \<lparr>oc_as_of = c # cs, oc_open = rs,
                   oc_unknown = (case jget d ''unknown_components'' of JArr us \<Rightarrow> map str_of us | _ \<Rightarrow> []),
                   oc_seeded_by = str_or ''unknown'' (map_of d ''seeded_by'')\<rparr>) (all_some parse_open_row rows)
           | _ \<Rightarrow> None)
      | _ \<Rightarrow> None)"

definition load_ob_ckpt :: "'w etrans \<Rightarrow> string \<Rightarrow> string \<Rightarrow> 'w \<Rightarrow> (string + ob_ckpt option) \<times> 'w" where
  "load_ob_ckpt tr team agent w =
     (case et_read tr (ob_ckpt_path team agent) w of
        (Inl exc, w') \<Rightarrow> (Inl exc, w')
      | (Inr (b, st), w') \<Rightarrow> (Inr (case text_of b of None \<Rightarrow> None | Some doc \<Rightarrow> parse_ob_ckpt doc), w'))"

record seed_row =
  sd_slug :: string
  sd_ptr :: "string option"
  sd_priority :: string

definition seed_row_json :: "seed_row \<Rightarrow> json" where
  "seed_row_json r = JObj [(''priority'', JStr (sd_priority r)),
     (''ptr'', case sd_ptr r of None \<Rightarrow> JNull | Some p \<Rightarrow> JStr p), (''slug'', JStr (sd_slug r))]"

definition ob_ckpt_doc :: "string \<Rightarrow> seed_row list \<Rightarrow> string \<Rightarrow> string list \<Rightarrow> json" where
  "ob_ckpt_doc as_of rows seeded_by unknowns =
     JObj [(''as_of'', JStr as_of), (''open'', JArr (map seed_row_json rows)), (''seeded_by'', JStr seeded_by),
           (''unknown_components'', JArr (map JStr (sort unknowns))), (''v'', JNum 1)]"

definition save_ob_ckpt :: "'w etrans \<Rightarrow> string \<Rightarrow> string \<Rightarrow> string \<Rightarrow> seed_row list \<Rightarrow> string \<Rightarrow> string list \<Rightarrow> 'w
    \<Rightarrow> bool \<times> 'w" where
  "save_ob_ckpt tr team agent as_of rows seeded_by unknowns w =
     (case et_write tr (ob_ckpt_path team agent) (ob_ckpt_doc as_of rows seeded_by unknowns) w of
        (Inl exc, w') \<Rightarrow> (False, w') | (Inr ok, w') \<Rightarrow> (ok, w'))"

definition stream_served :: "string list" where
  "stream_served = [''tasks'', ''directives'', ''blocks'', ''reminders'']"

definition first_truthy :: "jrow \<Rightarrow> string list \<Rightarrow> json option" where
  "first_truthy r ks = find truthy (map (jget r) ks)"

definition seed_rows :: "jrow list \<Rightarrow> seed_row list" where
  "seed_rows owed_rows =
     map (\<lambda>r. \<lparr>sd_slug = str_or [] (first_truthy r [''slug'', ''id'']),
               sd_ptr = (let p = str_or [] (map_of r ''ptr'') in if p = [] then None else Some p),
               sd_priority = str_or ''P2'' (first_truthy r [''priority'', ''pri''])\<rparr>)
       (filter (\<lambda>r. first_truthy r [''slug'', ''id''] \<noteq> None) owed_rows)"

definition cmd_obligations_seed :: "'w clock \<Rightarrow> rat \<Rightarrow> 'w forge \<Rightarrow> ('w \<Rightarrow> 'w component list \<times> 'w)
    \<Rightarrow> bool \<Rightarrow> string \<Rightarrow> 'w etrans \<Rightarrow> string \<Rightarrow> string \<Rightarrow> 'w \<Rightarrow> (string + int) \<times> 'w" where
  "cmd_obligations_seed clk secs forge file_probes seed_partial now tr team agent w =
     (case ob_answer clk secs forge file_probes tr team agent w of (r, w1) \<Rightarrow>
        (let degraded = sorted_set (o_degraded r @ o_malformed r);
             unseedable = filter (\<lambda>n. n \<in> set stream_served) degraded in
         if unseedable \<noteq> [] \<and> \<not> seed_partial then (Inr 3, w1)
         else (case save_ob_ckpt tr team agent now (seed_rows (o_owed r)) ''corpus-fold'' degraded w1 of
                 (False, w2) \<Rightarrow> (Inr 3, w2)
               | (True, w2) \<Rightarrow>
                   (case load_ob_ckpt tr team agent w2 of
                      (Inl exc, w3) \<Rightarrow> (Inl exc, w3)
                    | (Inr None, w3) \<Rightarrow> (Inr 3, w3)
                    | (Inr (Some back), w3) \<Rightarrow> (Inr (if oc_as_of back = now then 0 else 3), w3)))))"

end
