(* ===== verification/Cutover_Props.thy ===== *)
theory Cutover_Props
  imports Cutover Fold_Memory "HOL-Library.Multiset"
begin

text \<open>
  What the serving boundary guarantees: no answer without an authority, the answer served from a
  coord-fold checkpoint, and the seed of the obligations checkpoint.
\<close>

section \<open>No answer without an authority\<close>

lemma const_probe_world [simp]: "snd (const_probe st ow d w) = w"
  by (simp add: const_probe_def)

lemma answers_const:
  "answers (map (\<lambda>n. \<lparr>c_name = n, c_probe = const_probe st (ow n) d\<rparr>) ns) w
     = map (\<lambda>n. (n, Answered \<lparr>p_state = st, p_owed = ow n, p_detail = d\<rparr>)) ns"
  by (induction ns) (simp_all add: const_probe_def)

lemma fold_unreadable:
  fixes ow :: "string \<Rightarrow> jrow list" and d
  defines "cs \<equiv> map (\<lambda>n. \<lparr>c_name = n, c_probe = const_probe UNREADABLE (ow n) d\<rparr>) OBLIGATION_COMPONENTS"
  shows "o_state (fst (ob_fold cs (Some OBLIGATION_COMPONENTS) w)) = UNKNOWN"
    and "o_owed (fst (ob_fold cs (Some OBLIGATION_COMPONENTS) w)) = concat (map ow OBLIGATION_COMPONENTS)"
    and "snd (ob_fold cs (Some OBLIGATION_COMPONENTS) w) = w"
proof -
  show "o_state (fst (ob_fold cs (Some OBLIGATION_COMPONENTS) w)) = UNKNOWN"
    unfolding obligations_unknown_iff cs_def answers_const by (simp add: OBLIGATION_COMPONENTS_def)
  show "o_owed (fst (ob_fold cs (Some OBLIGATION_COMPONENTS) w)) = concat (map ow OBLIGATION_COMPONENTS)"
    unfolding ob_fold_fields(1) cs_def answers_const by (simp add: comp_def)
  show "snd (ob_fold cs (Some OBLIGATION_COMPONENTS) w) = w"
    by (rule ob_fold_world) (simp add: cs_def list_all_iff)
qed

lemma unknown_plane_unknown:
  assumes "read_switch tr team w = ((UnknownPlane, why), w1)"
  shows "cmd_obligations clk secs forge file_probes tr team agent w = (3, w1)"
  using assms fold_unreadable(1,3) [of "\<lambda>n. []" why w1]
  by (cases "ob_fold (all_unreadable why) (Some OBLIGATION_COMPONENTS) w1")
    (simp add: cmd_obligations_def ob_answer_def obligation_probes_def ob_rc_def all_unreadable_def)

lemma switch_established:
  assumes "read_switch tr team w = ((pl, why), w1)" "pl \<noteq> UnknownPlane"
  shows "(\<exists>b. et_read tr (switch_path team) w = (Inr (b, StAbsent), w1)) \<or>
    (\<exists>d. et_read tr (switch_path team) w = (Inr (Some (Body (Some (JObj d))), StOk), w1)
       \<and> version_is SWITCH_VERSION d \<and> jget d ''serve'' = JStr (if pl = FoldPlane then ''fold'' else ''files''))"
  using assms
  by (auto simp: read_switch_def parse_switch_def text_of_def SERVE_VALUES_def
      split: prod.splits sum.splits if_splits option.splits body.splits json.splits)

text \<open>C8. No answer without an authority: the obligations verb answers anything but UNKNOWN (3) only
  when the switch document was affirmatively absent, or was read in full as a version-1 object
  that says fold or files. With the switch unreadable or malformed the verb answers UNKNOWN and
  the world is as the read of the switch left it: no plane is consulted.\<close>

theorem no_answer_without_authority:
  "(fst (cmd_obligations clk secs forge file_probes tr team agent w) = 3
      \<and> (\<exists>why. read_switch tr team w = ((UnknownPlane, why), snd (cmd_obligations clk secs forge file_probes tr team agent w))))
   \<or> (\<exists>b w1. et_read tr (switch_path team) w = (Inr (b, StAbsent), w1))
   \<or> (\<exists>d w1. et_read tr (switch_path team) w = (Inr (Some (Body (Some (JObj d))), StOk), w1)
       \<and> version_is SWITCH_VERSION d \<and> jget d ''serve'' \<in> {JStr ''fold'', JStr ''files''})"
proof -
  obtain pl why w1 where r: "read_switch tr team w = ((pl, why), w1)" by (metis prod.collapse)
  show ?thesis
  proof (cases "pl = UnknownPlane")
    case True
    with r unknown_plane_unknown [of tr team w why w1 clk secs forge file_probes agent] show ?thesis by auto
  next
    case False
    from switch_established [OF r False] show ?thesis by (auto split: if_splits)
  qed
qed

section \<open>The answer served from a coord-fold checkpoint\<close>

definition row_fields :: "row \<Rightarrow> (string \<times> json) list" where
  "row_fields r = (case row_json r of JObj d \<Rightarrow> d | _ \<Rightarrow> [])"

definition task_rows :: "ckpt \<Rightarrow> jrow list" where
  "task_rows s = sort_key row_key (map (\<lambda>(k, r). fold_row k (row_fields r)) (open_rows s))"

definition healthy :: "ckpt \<Rightarrow> bool" where
  "healthy s \<longleftrightarrow> unread_events s = 0 \<and> unreadable s = []"

lemma row_json_obj: "row_json r = JObj (row_fields r)"
  by (simp add: row_fields_def row_json_def)

lemma rows_of_rows: "rows_of (map (\<lambda>(k, r). (k, row_json r)) rows) = Inr (map (\<lambda>(k, r). fold_row k (row_fields r)) rows)"
  by (induction rows) (auto simp: row_json_obj)

lemma health_reason_ckpt: "ckpt_json s = JObj d \<Longrightarrow> health_reason agent d = None \<longleftrightarrow> healthy s"
  by (auto simp: ckpt_json_def health_reason_def healthy_def Let_def list_all_iff is_str_def split: if_splits)

lemma fold_row_type: "type_of (fold_row k d) = []"
  by (simp add: type_of_def fold_row_def)

lemma task_rows_served: "filter (\<lambda>r. \<not> endswith (type_of r) ''-source'') (task_rows s @ [source_row d]) = task_rows s"
proof -
  have "\<not> endswith (type_of r) ''-source''" if "r \<in> set (task_rows s)" for r
  proof -
    from that have "type_of r = []" by (auto simp: task_rows_def fold_row_type)
    then show ?thesis by (simp add: endswith_def)
  qed
  then have "filter (\<lambda>r. \<not> endswith (type_of r) ''-source'') (task_rows s) = task_rows s" by simp
  moreover have "endswith (type_of (source_row d)) ''-source''"
    by (simp add: type_of_def source_row_def endswith_def)
  ultimately show ?thesis by simp
qed

lemma fold_rows_ckpt:
  assumes "et_read tr (checkpoint_path team agent) w = (Inr (Some (Body (Some (ckpt_json s))), StOk), w')"
  obtains d why h where "fold_rows tr team agent w = ((Some (task_rows s @ [source_row d]), why, h), w')"
    "h = None \<longleftrightarrow> healthy s"
proof -
  obtain d where d: "ckpt_json s = JObj d" "version_is 1 d"
    "jget d ''open'' = JObj (map (\<lambda>(k, r). (k, row_json r)) (open_rows s))"
    by (simp add: ckpt_json_def version_is_def)
  with assms health_reason_ckpt [OF d(1), of agent] show thesis
    by (intro that [of d _ "health_reason agent d"])
      (simp_all add: fold_rows_def text_of_def rows_answer_def rows_of_rows task_rows_def Let_def)
qed

text \<open>What the forge component was asked: nothing when its budget, opened after the checkpoint was
  read, had run out; otherwise one call, answered with rows or with \<open>None\<close>. The rows it owes are
  those whose type is no marker of the source or of a degradation.\<close>

definition forge_asked :: "'w clock \<Rightarrow> rat \<Rightarrow> 'w forge \<Rightarrow> 'w \<Rightarrow> (jrow list option \<times> string) option" where
  "forge_asked clk secs forge w =
     (case deadline_open clk (Some secs) w of (dl, w') \<Rightarrow>
        (case expired clk dl w' of (late, w1) \<Rightarrow> if late then None else Some (fst (forge dl w1))))"

definition marks :: "jrow \<Rightarrow> string \<Rightarrow> bool" where
  "marks f suf \<longleftrightarrow> (\<exists>t. jget f ''type'' = JStr t \<and> endswith t suf)"

definition forge_owes :: "(jrow list option \<times> string) option \<Rightarrow> jrow list" where
  "forge_owes asked = (case asked of
      Some (Some found, _) \<Rightarrow> filter (\<lambda>f. \<not> marks f ''-degraded'' \<and> \<not> marks f ''-source'') found
    | _ \<Rightarrow> [])"

lemma is_marker_marks: "is_marker suf f \<longleftrightarrow> marks f suf"
  by (auto simp: is_marker_def marks_def split: json.splits)

lemma marks_one: "marks f ''-source'' \<Longrightarrow> \<not> marks f ''-degraded''"
proof
  have l: "take (length t) (rev z) = rev t" if "endswith z t" for z t
  proof -
    from that have "rev z = rev (take (length z - length t) z @ t)"
      using append_take_drop_id [of "length z - length t" z] by (simp add: endswith_def)
    then show ?thesis by simp
  qed
  assume "marks f ''-source''" "marks f ''-degraded''"
  then obtain t where "endswith t ''-source''" "endswith t ''-degraded''" by (auto simp: marks_def)
  from l [OF this(1)] l [OF this(2)] show False by (cases "rev t") auto
qed

lemma forge_probe_asked:
  assumes "deadline_open clk (Some secs) w = (dl, w')"
  shows "owed_of (fst (forge_probe clk forge dl w')) = forge_owes (forge_asked clk secs forge w)"
    and "says OK (fst (forge_probe clk forge dl w')) \<and> owed_of (fst (forge_probe clk forge dl w')) = [] \<longleftrightarrow>
      (\<exists>found why. forge_asked clk secs forge w = Some (Some found, why) \<and> list_all (\<lambda>f. marks f ''-source'') found)"
  using assms marks_one
  by (auto simp: forge_probe_def forge_asked_def forge_owes_def const_probe_def owed_of_def says_def is_marker_marks Let_def
      filter_empty_conv list_all_iff split: prod.splits option.splits)

text \<open>The rows served for the open set.\<close>

lemma task_rows_exact:
  "mset (map (\<lambda>t. (jget t ''slug'', jget t ''owner'', jget t ''assignee'', jget t ''ptr'', jget t ''opened_at'')) (task_rows s))
     = mset (map (\<lambda>(k, r). (JStr k, r_from r, case r_to r of None \<Rightarrow> JNull | Some x \<Rightarrow> x, r_ptr r, r_at r)) (open_rows s))"
  "sorted (map row_key (task_rows s))"
proof -
  have "(\<lambda>t. (jget t ''slug'', jget t ''owner'', jget t ''assignee'', jget t ''ptr'', jget t ''opened_at'')) (fold_row k (row_fields r))
      = (JStr k, r_from r, case r_to r of None \<Rightarrow> JNull | Some x \<Rightarrow> x, r_ptr r, r_at r)" for k r
    by (auto simp: fold_row_def row_fields_def row_json_def opt_field_def jget_def split: option.splits)
  then have "mset (map (\<lambda>t. (jget t ''slug'', jget t ''owner'', jget t ''assignee'', jget t ''ptr'', jget t ''opened_at''))
       (map (\<lambda>(k, r). fold_row k (row_fields r)) rs))
     = mset (map (\<lambda>(k, r). (JStr k, r_from r, case r_to r of None \<Rightarrow> JNull | Some x \<Rightarrow> x, r_ptr r, r_at r)) rs)" for rs
    by (induction rs) auto
  then show "mset (map (\<lambda>t. (jget t ''slug'', jget t ''owner'', jget t ''assignee'', jget t ''ptr'', jget t ''opened_at'')) (task_rows s))
     = mset (map (\<lambda>(k, r). (JStr k, r_from r, case r_to r of None \<Rightarrow> JNull | Some x \<Rightarrow> x, r_ptr r, r_at r)) (open_rows s))"
    unfolding task_rows_def mset_map mset_sort .
qed (simp add: task_rows_def)

lemma answers_healthy:
  "answers (healthy_probes clk forge dl ow why) w =
     (let A = (\<lambda>n d. (n, Answered \<lparr>p_state = OK, p_owed = [], p_detail = d\<rparr>));
          sub = why @ ''; not distinguished on the fold '' @ em_dash @ '' an open of this kind is served under tasks''
      in [A ''blocks'' sub,
          A ''directives'' (sub @ '' ('' @ nat_str (length (filter (\<lambda>r. jget r ''kind'' \<noteq> JStr ''review'') ow)) @ '' of the folded opens)''),
          (''forge_feedback'', fst (forge_probe clk forge dl w)), A ''reminders'' sub,
          A ''reviews'' (sub @ '' ('' @ nat_str (length (filter (\<lambda>r. jget r ''kind'' = JStr ''review'') ow)) @ '' of the folded opens are review requests)''),
          A ''role_duties'' (why @ ''; role-routed opens are folded at seed and on the stream''),
          (''tasks'', Answered \<lparr>p_state = OK, p_owed = ow, p_detail = why\<rparr>)])"
  by (simp add: healthy_probes_def const_probe_def Let_def split: prod.splits)

lemma offered_healthy: "offered (Some OBLIGATION_COMPONENTS) (healthy_probes clk forge dl ow why)"
  by (simp add: offered_def OBLIGATION_COMPONENTS_def healthy_probes_def Let_def)

lemma fold_healthy:
  "o_state (fst (ob_fold (healthy_probes clk forge dl ow why) (Some OBLIGATION_COMPONENTS) w)) = CLEAR \<longleftrightarrow>
     ow = [] \<and> says OK (fst (forge_probe clk forge dl w)) \<and> owed_of (fst (forge_probe clk forge dl w)) = []"
  "o_owed (fst (ob_fold (healthy_probes clk forge dl ow why) (Some OBLIGATION_COMPONENTS) w)) =
     owed_of (fst (forge_probe clk forge dl w)) @ ow"
  using offered_healthy [of clk forge dl ow why]
  by (auto simp: obligations_clear_iff ob_fold_fields(1) answers_healthy Let_def)

lemma fold_partial:
  "o_state (fst (ob_fold (partial_probes ow detail) (Some OBLIGATION_COMPONENTS) w)) = UNKNOWN"
  "o_owed (fst (ob_fold (partial_probes ow detail) (Some OBLIGATION_COMPONENTS) w)) = ow"
  using fold_unreadable(1,2) [of "\<lambda>n. if n = ''tasks'' then ow else []" detail w]
  by (simp_all add: partial_probes_def) (simp add: OBLIGATION_COMPONENTS_def)

text \<open>C7. The answer served from the fold is the checkpoint's: when the switch says fold and the
  read of the agent's path gives the document coord-fold's \<open>save\<close> writes for a checkpoint \<open>s\<close>,
  the verb answers CLEAR exactly when \<open>s\<close> has no open row, no unread event and no unreadable
  pointer and the forge was asked in time and found nothing but markers of its source. The owed
  rows are exactly the forge rows that are no markers followed by one row per open slug of \<open>s\<close>
  with its sender, addressee, pointer and time, ordered by priority, age and slug, and nothing
  else. An unhealthy checkpoint is UNKNOWN, with its rows kept and the forge not consulted.\<close>

theorem served_answer_is_the_checkpoint:
  assumes "read_switch tr team w = ((FoldPlane, why), w1)"
    and "et_read tr (checkpoint_path team agent) w1 = (Inr (Some (Body (Some (ckpt_json s))), StOk), w2)"
  shows "(o_state (fst (ob_answer clk secs forge file_probes tr team agent w)) = CLEAR \<longleftrightarrow>
            open_rows s = [] \<and> unread_events s = 0 \<and> unreadable s = []
            \<and> (\<exists>found y. forge_asked clk secs forge w2 = Some (Some found, y) \<and> list_all (\<lambda>f. marks f ''-source'') found))
    \<and> (\<exists>ts. o_owed (fst (ob_answer clk secs forge file_probes tr team agent w)) =
              (if unread_events s = 0 \<and> unreadable s = [] then forge_owes (forge_asked clk secs forge w2) else []) @ ts
          \<and> mset (map (\<lambda>t. (jget t ''slug'', jget t ''owner'', jget t ''assignee'', jget t ''ptr'', jget t ''opened_at'')) ts) =
              mset (map (\<lambda>(k, r). (JStr k, r_from r, case r_to r of None \<Rightarrow> JNull | Some x \<Rightarrow> x, r_ptr r, r_at r)) (open_rows s))
          \<and> sorted (map row_key ts))
    \<and> (\<not> (unread_events s = 0 \<and> unreadable s = []) \<longrightarrow>
          o_state (fst (ob_answer clk secs forge file_probes tr team agent w)) = UNKNOWN)"
proof -
  from fold_rows_ckpt [OF assms(2)] obtain d y h where
    fr: "fold_rows tr team agent w1 = ((Some (task_rows s @ [source_row d]), y, h), w2)" "h = None \<longleftrightarrow> healthy s"
    by metis
  obtain dl w3 where dl: "deadline_open clk (Some secs) w2 = (dl, w3)" by (metis prod.collapse)
  have tr_Nil: "task_rows s = [] \<longleftrightarrow> open_rows s = []"
    by (metis (no_types, lifting) length_0_conv length_map length_sort task_rows_def)
  show ?thesis
  proof (cases h)
    case None
    then have healthy_case: "ob_answer clk secs forge file_probes tr team agent w =
        ob_fold (healthy_probes clk forge dl (task_rows s) y) (Some OBLIGATION_COMPONENTS) w3"
      using assms(1) fr(1) dl task_rows_served [of s d]
      by (simp add: ob_answer_def obligation_probes_def fold_probes_def Let_def)
    have f: "fst (ob_answer clk secs forge file_probes tr team agent w) =
        fst (ob_fold (healthy_probes clk forge dl (task_rows s) y) (Some OBLIGATION_COMPONENTS) w3)"
      by (simp add: healthy_case)
    from None fr(2) have "unread_events s = 0 \<and> unreadable s = []" by (simp add: healthy_def)
    moreover have "o_state (fst (ob_answer clk secs forge file_probes tr team agent w)) = CLEAR \<longleftrightarrow> open_rows s = []
        \<and> (\<exists>found y. forge_asked clk secs forge w2 = Some (Some found, y) \<and> list_all (\<lambda>f. marks f ''-source'') found)"
      unfolding f fold_healthy(1) forge_probe_asked(2) [OF dl] tr_Nil by simp
    moreover have "o_owed (fst (ob_answer clk secs forge file_probes tr team agent w)) =
        forge_owes (forge_asked clk secs forge w2) @ task_rows s"
      unfolding f fold_healthy(2) forge_probe_asked(1) [OF dl] by simp
    ultimately show ?thesis using task_rows_exact [of s] by auto
  next
    case (Some bad)
    then have "ob_answer clk secs forge file_probes tr team agent w =
        ob_fold (partial_probes (task_rows s) (why @ ''; '' @ bad)) (Some OBLIGATION_COMPONENTS) w3"
      using assms(1) fr(1) dl task_rows_served [of s d]
      by (simp add: ob_answer_def obligation_probes_def fold_probes_def Let_def)
    with Some fr(2) fold_partial [of "task_rows s" "why @ ''; '' @ bad" w3] task_rows_exact [of s] show ?thesis
      by (auto simp: healthy_def)
  qed
qed

section \<open>Seeding the obligations checkpoint\<close>

definition seeded_row :: "seed_row \<Rightarrow> open_row" where
  "seeded_row r = \<lparr>or_slug = sd_slug r,
     or_ptr = (case sd_ptr r of None \<Rightarrow> ''task/'' @ sd_slug r @ ''.md'' | Some p \<Rightarrow> p),
     or_priority = sd_priority r\<rparr>"

definition seed_row_ok :: "seed_row \<Rightarrow> bool" where
  "seed_row_ok r \<longleftrightarrow> sd_slug r \<noteq> [] \<and> sd_ptr r \<noteq> Some [] \<and> sd_priority r \<noteq> []"

lemma parse_seed_row: "seed_row_ok r \<Longrightarrow> parse_open_row (seed_row_json r) = Some (seeded_row r)"
  by (auto simp: seed_row_ok_def parse_open_row_def seed_row_json_def seeded_row_def str_or_def split: option.splits)

lemma parse_seed_rows:
  "list_all seed_row_ok rows \<Longrightarrow> all_some parse_open_row (map seed_row_json rows) = Some (map seeded_row rows)"
  by (induction rows) (auto simp: parse_seed_row)

lemma ob_ckpt_doc_parses:
  assumes "as_of \<noteq> []" "by \<noteq> []" "list_all seed_row_ok rows"
  shows "parse_ob_ckpt (Some (ob_ckpt_doc as_of rows by unknowns)) =
    Some \<lparr>oc_as_of = as_of, oc_open = map seeded_row rows, oc_unknown = sort unknowns, oc_seeded_by = by\<rparr>"
proof -
  have "map str_of (map JStr (sort unknowns)) = sort unknowns" by (simp add: comp_def)
  with assms parse_seed_rows [OF assms(3)] show ?thesis
    by (cases as_of) (simp_all add: parse_ob_ckpt_def ob_ckpt_doc_def version_is_def del: map_map)
qed

text \<open>The rows a seed writes are always rows a later load accepts, as long as the owed rows carry
  non-empty names.\<close>

lemma str_of_truthy: "truthy j \<Longrightarrow> str_of j \<noteq> []"
proof (cases j)
  case (JNum n)
  then show ?thesis by (auto simp: int_str_def nat_str.simps [of "nat n"] nat_str.simps [of "nat (- n)"])
qed auto

lemma find_truthy: "find truthy xs = Some j \<Longrightarrow> truthy j"
  by (auto simp: find_Some_iff)

lemma seed_rows_ok: "list_all seed_row_ok (seed_rows owed_rows)"
  by (auto simp: list_all_iff seed_rows_def seed_row_ok_def str_or_def first_truthy_def Let_def
      dest: find_truthy split: option.splits if_splits intro: str_of_truthy)
    (metis find_truthy str_of_truthy)+

text \<open>A seed is only reported written when it is safe and landed: without \<open>--seed-partial\<close>, rc 0
  means that no component the stream fold takes over was degraded or malformed, that the document
  was written with every owed row that has a name, that the write was acknowledged, and that the
  read-back is a well-formed checkpoint as of the same instant.\<close>

theorem seed_is_safe:
  assumes "cmd_obligations_seed clk secs forge file_probes False now tr team agent w = (Inr 0, w')"
  shows "\<exists>r w1 w2 back. ob_answer clk secs forge file_probes tr team agent w = (r, w1)
    \<and> set (o_degraded r @ o_malformed r) \<inter> set stream_served = {}
    \<and> et_write tr (ob_ckpt_path team agent) (ob_ckpt_doc now (seed_rows (o_owed r)) ''corpus-fold''
         (sorted_set (o_degraded r @ o_malformed r))) w1 = (Inr True, w2)
    \<and> load_ob_ckpt tr team agent w2 = (Inr (Some back), w') \<and> oc_as_of back = now"
proof -
  obtain r w1 where r: "ob_answer clk secs forge file_probes tr team agent w = (r, w1)" by (metis prod.collapse)
  define doc where "doc = ob_ckpt_doc now (seed_rows (o_owed r)) ''corpus-fold'' (sorted_set (o_degraded r @ o_malformed r))"
  obtain a w2 where wr: "et_write tr (ob_ckpt_path team agent) doc w1 = (a, w2)" by (metis prod.collapse)
  obtain b w3 where ld: "load_ob_ckpt tr team agent w2 = (b, w3)" by (metis prod.collapse)
  have "filter (\<lambda>n. n \<in> set stream_served) (sorted_set (o_degraded r @ o_malformed r)) = []"
    using assms r by (auto simp: cmd_obligations_seed_def Let_def split: if_splits)
  then have disj: "set (o_degraded r @ o_malformed r) \<inter> set stream_served = {}"
    by (auto simp: filter_empty_conv)
  from assms r wr ld have "a = Inr True" "\<exists>back. b = Inr (Some back) \<and> oc_as_of back = now \<and> w3 = w'"
    unfolding cmd_obligations_seed_def save_ob_ckpt_def Let_def doc_def [symmetric]
    by (auto simp: doc_def [symmetric] split: if_splits sum.splits bool.splits option.splits)
  with r wr ld disj show ?thesis unfolding doc_def by blast
qed

text \<open>What a seed writes is what the stream fold reads back: the document of any set of owed rows
  parses to a checkpoint with the same instant, origin and unknown components and one open row
  per named owed row, in order, with the slug, the pointer (the task document where the row had
  none) and the priority.\<close>

theorem seed_roundtrip:
  assumes "now \<noteq> []"
  shows "parse_ob_ckpt (Some (ob_ckpt_doc now (seed_rows owed_rows) ''corpus-fold'' unknowns)) =
    Some \<lparr>oc_as_of = now, oc_open = map seeded_row (seed_rows owed_rows), oc_unknown = sort unknowns,
          oc_seeded_by = ''corpus-fold''\<rparr>"
  using ob_ckpt_doc_parses [OF assms _ seed_rows_ok, of "''corpus-fold''" owed_rows unknowns] by simp

text \<open>
  The docstring of the seed says it refuses to write on UNKNOWN; it writes when the components
  that make the fold UNKNOWN are outside the stream-served set, with their names recorded.
\<close>

lemma seed_writes_on_unknown:
  assumes "ob_answer clk secs forge file_probes tr team agent w = (r, w1)"
    "set (o_degraded r @ o_malformed r) \<inter> set stream_served = {}"
    "save_ob_ckpt tr team agent now (seed_rows (o_owed r)) ''corpus-fold'' (sorted_set (o_degraded r @ o_malformed r)) w1 = (True, w2)"
    "load_ob_ckpt tr team agent w2 = (Inr (Some back), w3)" "oc_as_of back = now"
  shows "cmd_obligations_seed clk secs forge file_probes False now tr team agent w = (Inr 0, w3)"
proof -
  have "filter (\<lambda>n. n \<in> set stream_served) (sorted_set (o_degraded r @ o_malformed r)) = []"
    using assms(2) by (auto simp: filter_empty_conv)
  with assms show ?thesis by (simp add: cmd_obligations_seed_def Let_def)
qed

section \<open>Witnesses\<close>

definition demo_ckpt :: ckpt where
  "demo_ckpt = \<lparr>cursor = JStr ''2026-01-01T00:00:00Z'',
     open_rows = [(''fix-b'', \<lparr>r_pri = JStr ''P1'', r_from = JStr ''bob'', r_to = Some (JStr ''ann''), r_ptr = JStr ''p'',
                               r_at = JStr ''2026-01-01T00:00:01Z'', r_claimed = None\<rparr>)],
     unread_events = 0, unreadable = [], seen = [], generation = 3, writer = JStr ''h''\<rparr>"

text \<open>The world is the document last written, if any.\<close>

definition demo_trans :: "json option etrans" where
  "demo_trans = \<lparr>et_read = (\<lambda>p w.
       (Inr (if p = ''team/t/_coord/bus-v4/cutover.json''
             then (Some (Body (Some (JObj [(''v'', JNum 1), (''serve'', JStr ''fold'')]))), StOk)
             else if p = ''team/t/member/ann/fold/checkpoint.json'' then (Some (Body (Some (ckpt_json demo_ckpt))), StOk)
             else (case w of None \<Rightarrow> (None, StAbsent) | Some d \<Rightarrow> (Some (Body (Some d)), StOk))), w)),
     et_write = (\<lambda>p d w. (Inr True, Some d))\<rparr>"

definition demo_clock :: "'w clock" where
  "demo_clock w = (0, w)"

definition demo_forge :: "'w forge" where
  "demo_forge dl w = ((Some [[(''type'', JStr ''forge-comment'')], [(''type'', JStr ''forge-source'')]], ''forge served''), w)"

lemma served_answer_is_the_checkpoint_witness:
  "o_state (fst (ob_answer demo_clock 20 demo_forge (\<lambda>w. ([], w)) demo_trans ''t'' ''ann'' None)) \<noteq> CLEAR \<and>
   (\<exists>t. o_owed (fst (ob_answer demo_clock 20 demo_forge (\<lambda>w. ([], w)) demo_trans ''t'' ''ann'' None))
      = [[(''type'', JStr ''forge-comment'')], t] \<and> jget t ''slug'' = JStr ''fix-b'')"
proof -
  have sw: "read_switch demo_trans ''t'' None = ((FoldPlane, ''cutover switch says fold (set None by None)''), None)"
    by (simp add: read_switch_def demo_trans_def switch_path_def text_of_def parse_switch_def version_is_def
        SWITCH_VERSION_def SERVE_VALUES_def set_by_def)
  have ck: "et_read demo_trans (checkpoint_path ''t'' ''ann'') None = (Inr (Some (Body (Some (ckpt_json demo_ckpt))), StOk), None)"
    by (simp add: demo_trans_def checkpoint_path_def)
  have "forge_owes (forge_asked demo_clock 20 demo_forge None) = [[(''type'', JStr ''forge-comment'')]]"
    by (simp add: forge_owes_def forge_asked_def demo_forge_def demo_clock_def deadline_open_def expired_def marks_def jget_def
        endswith_def)
  with served_answer_is_the_checkpoint [OF sw ck, of demo_clock 20 demo_forge "\<lambda>w. ([], w)"]
  show ?thesis by (auto simp: demo_ckpt_def mset_single_iff map_eq_Cons_conv simp del: mset_map)
qed

definition files_trans :: "json option etrans" where
  "files_trans = \<lparr>et_read = (\<lambda>p w. (Inr (case w of None \<Rightarrow> (None, StAbsent) | Some d \<Rightarrow> (Some (Body (Some d)), StOk)), w)),
     et_write = (\<lambda>p d w. (Inr True, Some d))\<rparr>"

definition one_probe :: "'w \<Rightarrow> 'w component list \<times> 'w" where
  "one_probe w = (map (\<lambda>n. \<lparr>c_name = n,
     c_probe = const_probe OK (if n = ''tasks'' then [[(''slug'', JStr ''fix-a'')]] else []) ''ok''\<rparr>) OBLIGATION_COMPONENTS, w)"

definition seeded_doc :: json where
  "seeded_doc = ob_ckpt_doc ''2026-01-01T00:00:00Z''
     [\<lparr>sd_slug = ''fix-a'', sd_ptr = None, sd_priority = ''P2''\<rparr>] ''corpus-fold'' []"

lemma seed_run:
  "cmd_obligations_seed demo_clock 20 demo_forge one_probe False ''2026-01-01T00:00:00Z'' files_trans ''t'' ''ann'' None
     = (Inr 0, Some seeded_doc)"
proof -
  have ob: "ob_answer demo_clock 20 demo_forge one_probe files_trans ''t'' ''ann'' None =
      (\<lparr>o_state = DATA, o_owed = [[(''slug'', JStr ''fix-a'')]], o_degraded = [], o_malformed = [],
        o_consulted = OBLIGATION_COMPONENTS, o_details = []\<rparr>, None)"
    by (simp add: ob_answer_def obligation_probes_def read_switch_def files_trans_def one_probe_def
        OBLIGATION_COMPONENTS_def ob_fold_def const_probe_def fold_one_def fold_result_def Let_def facc0_def
        missing_of_def sorted_set_def fold_state_def less_eq_char_def)
  show ?thesis
    unfolding cmd_obligations_seed_def ob
    by (simp add: Let_def save_ob_ckpt_def files_trans_def load_ob_ckpt_def text_of_def seed_rows_def
        first_truthy_def seeded_doc_def sorted_set_def ob_ckpt_doc_parses seed_row_ok_def stream_served_def)
qed

lemma seed_is_safe_witness:
  "\<exists>r w1 w2 back. ob_answer demo_clock 20 demo_forge one_probe files_trans ''t'' ''ann'' None = (r, w1)
    \<and> set (o_degraded r @ o_malformed r) \<inter> set stream_served = {}
    \<and> et_write files_trans (ob_ckpt_path ''t'' ''ann'') (ob_ckpt_doc ''2026-01-01T00:00:00Z'' (seed_rows (o_owed r))
        ''corpus-fold'' (sorted_set (o_degraded r @ o_malformed r))) w1 = (Inr True, w2)
    \<and> load_ob_ckpt files_trans ''t'' ''ann'' w2 = (Inr (Some back), Some seeded_doc)
    \<and> oc_as_of back = ''2026-01-01T00:00:00Z''"
  by (rule seed_is_safe [OF seed_run])

lemma seed_roundtrip_witness:
  "parse_ob_ckpt (Some (ob_ckpt_doc ''now'' (seed_rows [[(''slug'', JStr ''fix-a'')]]) ''corpus-fold'' [''tasks'', ''blocks'']))
     = Some \<lparr>oc_as_of = ''now'', oc_open = map seeded_row (seed_rows [[(''slug'', JStr ''fix-a'')]]),
             oc_unknown = sort [''tasks'', ''blocks''], oc_seeded_by = ''corpus-fold''\<rparr>"
  using seed_roundtrip [of "''now''" "[[(''slug'', JStr ''fix-a'')]]" "[''tasks'', ''blocks'']"] by simp

end
