(* ===== verification/Okf.thy ===== *)
theory Okf
  imports Py_Text
begin

text \<open>
  packages/coord-engine/coord_engine/okf.py: the front matter of an OKF document. Reading follows
  the source line by line: the block between the two \<open>---\<close> lines, then scalars, inline lists,
  literal blocks, block lists and one-level maps. A byte-order mark, above the modelled range of
  characters, is not stripped. The index and log renderers are not modelled.
\<close>

definition nl :: string where
  "nl = [CHR 0x0A]"

definition delim :: string where
  "delim = ''---''"

section \<open>Splitting a document\<close>

fun find_close :: "string list \<Rightarrow> string list \<Rightarrow> (string \<times> string) option" where
  "find_close acc [] = None"
| "find_close acc (l # ls) =
     (if strip l = delim then Some (join nl (rev acc), join nl ls) else find_close (l # acc) ls)"

definition split_frontmatter :: "string option \<Rightarrow> (string \<times> string) option" where
  "split_frontmatter text =
     (case text of None \<Rightarrow> None
      | Some s \<Rightarrow>
          (case dropWhile (\<lambda>l. strip l = []) (splitlines s) of
             [] \<Rightarrow> None
           | l # ls \<Rightarrow> if strip l = delim then find_close [] ls else None))"

section \<open>The YAML subset\<close>

definition quotes :: string where
  "quotes = [CHR 0x27, CHR 0x22]"

definition quoted :: "string \<Rightarrow> bool" where
  "quoted s \<longleftrightarrow> 2 \<le> length s \<and> hd s = last s \<and> hd s \<in> set quotes"

definition unquote :: "string \<Rightarrow> string" where
  "unquote raw = (let s = strip raw in if quoted s then butlast (tl s) else s)"

definition parse_scalar :: "string \<Rightarrow> json" where
  "parse_scalar raw =
     (let s = strip raw in
      if s = [] \<or> lower s \<in> {''null'', ''~''} then JNull
      else if quoted s then JStr (butlast (tl s))
      else if startswith s ''['' \<and> endswith s '']'' then
        (let inner = strip (butlast (tl s)) in
         if inner = [] then JArr []
         else JArr (map (\<lambda>x. JStr (unquote x)) (filter (\<lambda>x. strip x \<noteq> []) (split_on (CHR '','') inner))))
      else if lower s = ''true'' then JBool True
      else if lower s = ''false'' then JBool False
      else JStr s)"

definition indented :: "string \<Rightarrow> bool" where
  "indented l = (case l of [] \<Rightarrow> False | c # _ \<Rightarrow> is_space c)"

text \<open>The lines of a literal block, and what follows it.\<close>

fun take_block :: "string list \<Rightarrow> string list \<times> string list" where
  "take_block [] = ([], [])"
| "take_block (l # ls) =
     (if strip l = [] then (case take_block ls of (b, r) \<Rightarrow> ([] # b, r))
      else if indented l
        then (case take_block ls of (b, r) \<Rightarrow>
                ((if startswith l ''  '' then drop 2 l else lstrip_if is_space l) # b, r))
      else ([], l # ls))"

datatype nested = NNone | NList "string list" | NMap "(string \<times> json) list"

fun take_nested :: "nested \<Rightarrow> string list \<Rightarrow> nested \<times> string list" where
  "take_nested k [] = (k, [])"
| "take_nested k (l # ls) =
     (let s = strip l in
      if s = [] \<or> startswith s ''#'' then take_nested k ls
      else if \<not> indented l then (k, l # ls)
      else if startswith s ''- '' then
        (case k of NMap ps \<Rightarrow> (k, l # ls)
         | NList xs \<Rightarrow> take_nested (NList (xs @ [unquote (drop 2 s)])) ls
         | NNone \<Rightarrow> take_nested (NList [unquote (drop 2 s)]) ls)
      else if CHR '':'' \<in> set l then
        (case partition_char (CHR '':'') l of (sub_key, _, sub_rest) \<Rightarrow>
           let pair = dict_set (strip sub_key) (parse_scalar (strip sub_rest)) in
           (case k of NList xs \<Rightarrow> (k, l # ls)
            | NMap ps \<Rightarrow> take_nested (NMap (pair ps)) ls
            | NNone \<Rightarrow> take_nested (NMap (pair [])) ls))
      else (k, l # ls))"

definition nested_json :: "nested \<Rightarrow> json" where
  "nested_json k = (case k of NNone \<Rightarrow> JNull | NList xs \<Rightarrow> JArr (map JStr xs) | NMap ps \<Rightarrow> JObj ps)"

lemma take_block_length: "length (snd (take_block ls)) \<le> length ls"
  by (induction ls) (auto split: prod.splits)

lemma take_nested_length: "length (snd (take_nested k ls)) \<le> length ls"
  by (induction ls arbitrary: k) (auto simp: Let_def intro: le_SucI split: prod.splits nested.splits)

lemma take_nested_rest:
  "(k, r) = take_nested k0 ls \<Longrightarrow> length r \<le> length ls"
  "take_nested k0 ls = (k, r) \<Longrightarrow> length r \<le> length ls"
  using take_nested_length [of k0 ls] by (cases "take_nested k0 ls"; simp)+

function parse_yaml :: "string list \<Rightarrow> (string \<times> json) list \<Rightarrow> (string \<times> json) list" where
  "parse_yaml [] d = d"
| "parse_yaml (l # ls) d =
     (let s = strip l in
      if s = [] \<or> startswith s ''#'' \<or> CHR '':'' \<notin> set l then parse_yaml ls d
      else (case partition_char (CHR '':'') l of (raw_key, _, raw) \<Rightarrow>
        let key = strip raw_key; val = strip raw in
        if key = [] then parse_yaml ls d
        else if val \<in> {''|'', ''|-'', ''|+''} then
          parse_yaml (snd (take_block ls)) (dict_set key (JStr (join nl (fst (take_block ls)))) d)
        else if val = [] then
          (let (k, r) = take_nested NNone ls in
           parse_yaml (if k = NNone then ls else r) (dict_set key (nested_json k) d))
        else parse_yaml ls (dict_set key (parse_scalar val) d)))"
  by pat_completeness auto
termination
  by (relation "measure (\<lambda>(ls, d). length ls)")
    (auto simp: less_Suc_eq_le take_block_length dest: take_nested_rest)

definition parse_frontmatter :: "string option \<Rightarrow> (string \<times> json) list option" where
  "parse_frontmatter text = map_option (\<lambda>(fm, body). parse_yaml (splitlines fm) []) (split_frontmatter text)"

section \<open>Rendering\<close>

definition special_heads :: string where
  "special_heads = ''[{!&*#?|>%@`'' @ [CHR 0x22, CHR 0x27]"

definition needs_quote :: "string \<Rightarrow> bool" where
  "needs_quote s \<longleftrightarrow> s = [] \<or> s \<noteq> strip s \<or> hd s \<in> set special_heads \<or> find_text s '': '' \<noteq> None
     \<or> lower s \<in> {''null'', ''true'', ''false'', ''~''}"

definition render_scalar :: "string \<Rightarrow> string" where
  "render_scalar s = (if needs_quote s then [CHR 0x22] @ s @ [CHR 0x22] else s)"

definition bool_text :: "bool \<Rightarrow> string" where
  "bool_text b = (if b then ''true'' else ''false'')"

definition sub_line :: "string \<times> json \<Rightarrow> string" where
  "sub_line kv = ''  '' @ fst kv @ '': '' @
     (case snd kv of JNull \<Rightarrow> ''null'' | JBool b \<Rightarrow> bool_text b | v \<Rightarrow> render_scalar (str_of v))"

definition field_lines :: "string \<times> json \<Rightarrow> string list" where
  "field_lines kv =
     (case snd kv of
        JNull \<Rightarrow> []
      | JBool b \<Rightarrow> [fst kv @ '': '' @ bool_text b]
      | JObj d \<Rightarrow> (fst kv @ '':'') # map sub_line d
      | JArr [] \<Rightarrow> [fst kv @ '': []'']
      | JArr xs \<Rightarrow> (fst kv @ '':'') # map (\<lambda>x. ''  - '' @ render_scalar (str_of x)) xs
      | v \<Rightarrow>
          (let s = str_of v in
           if hd nl \<in> set s then (fst kv @ '': |'') # map (\<lambda>part. ''  '' @ part) (split_on (hd nl) s)
           else [fst kv @ '': '' @ render_scalar s]))"

definition render_frontmatter :: "(string \<times> json) list \<Rightarrow> string" where
  "render_frontmatter fields = join nl ([delim] @ concat (map field_lines fields) @ [delim])"

end
