(* ===== verification/Tasks.thy ===== *)
theory Tasks
  imports Okf
begin

text \<open>
  packages/coord-engine/coord_engine/tasks.py, model.py and the inbox of directives.py: task
  documents and their status machine, the projection of a document to a row, slugs, and the
  directives an agent still owes attention. The hash in \<open>agent_key\<close> is a parameter. The arrow and
  the ellipsis of the messages are above the modelled range of characters; \<open>->\<close> and one
  character stand for them.
\<close>

type_synonym row = "(string \<times> json) list"

section \<open>Statuses and priorities (model.py)\<close>

definition VALID_STATUSES :: "string list" where
  "VALID_STATUSES = [''proposed'', ''active'', ''waiting'', ''blocked'', ''done'', ''abandoned'']"

definition TERMINAL_STATUSES :: "string list" where
  "TERMINAL_STATUSES = [''done'', ''abandoned'']"

definition OPEN_STATUSES :: "string list" where
  "OPEN_STATUSES = filter (\<lambda>s. s \<notin> set TERMINAL_STATUSES) VALID_STATUSES"

definition VALID_PRIORITIES :: "string list" where
  "VALID_PRIORITIES = [''P0'', ''P1'', ''P2'', ''P3'']"

definition DEFAULT_STATUS :: string where "DEFAULT_STATUS = ''proposed''"
definition DEFAULT_PRIORITY :: string where "DEFAULT_PRIORITY = ''P2''"

definition STATUS_TRANSITIONS :: "(string \<times> string list) list" where
  "STATUS_TRANSITIONS =
     [(''proposed'', [''active'', ''waiting'', ''abandoned'', ''done'']),
      (''active'', [''waiting'', ''blocked'', ''done'', ''abandoned'']),
      (''waiting'', [''active'', ''blocked'', ''abandoned'']),
      (''blocked'', [''active'', ''waiting'', ''abandoned'']),
      (''done'', []), (''abandoned'', [])]"

datatype terr = TaskError string | TypeError

text \<open>A dictionary lookup by a list or a dictionary raises.\<close>

fun hashable :: "json \<Rightarrow> bool" where
  "hashable (JArr _) = False"
| "hashable (JObj _) = False"
| "hashable _ = True"

definition next_statuses :: "json \<Rightarrow> string list" where
  "next_statuses old = (case old of JStr s \<Rightarrow> (case map_of STATUS_TRANSITIONS s of None \<Rightarrow> [] | Some ns \<Rightarrow> ns) | _ \<Rightarrow> [])"

definition is_valid_transition :: "json \<Rightarrow> string \<Rightarrow> terr + bool" where
  "is_valid_transition old new =
     (if old = JStr new then Inr True
      else if \<not> hashable old then Inl TypeError
      else Inr (new \<in> set (next_statuses old)))"

definition is_task :: "row option \<Rightarrow> bool" where
  "is_task fm = (case fm of None \<Rightarrow> False | Some d \<Rightarrow> d \<noteq> [] \<and> jget d ''type'' = JStr ''Task'')"

definition DEFAULT_SUMMARY_TEXT_CAP :: nat where "DEFAULT_SUMMARY_TEXT_CAP = 280"
definition TRUNCATION_MARK :: string where "TRUNCATION_MARK = [CHR 0x85]"
definition ROW_SCHEMA_VERSION :: int where "ROW_SCHEMA_VERSION = 1"

definition cap_summary_text :: "nat \<Rightarrow> string \<Rightarrow> string" where
  "cap_summary_text cap text =
     (if length text \<le> cap then text else take (cap - length TRUNCATION_MARK) text @ TRUNCATION_MARK)"

definition or_else :: "json \<Rightarrow> json \<Rightarrow> json" where
  "or_else a b = (if truthy a then a else b)"

definition row_from_frontmatter :: "nat \<Rightarrow> row option \<Rightarrow> string \<Rightarrow> string \<Rightarrow> json \<Rightarrow> row" where
  "row_from_frontmatter cap fmo name path mtime =
     (let fm = (case fmo of None \<Rightarrow> [] | Some d \<Rightarrow> d);
          tags = (case jget fm ''tags'' of JArr xs \<Rightarrow> xs | t \<Rightarrow> if truthy t then [t] else []) in
      [(''sv'', JNum ROW_SCHEMA_VERSION), (''id'', or_else (jget fm ''id'') (JStr name)), (''name'', JStr name),
       (''path'', JStr path),
       (''title'', JStr (cap_summary_text cap (str_of (or_else (jget fm ''title'') (JStr name))))),
       (''description'', JStr (cap_summary_text cap (str_of (or_else (jget fm ''description'') (JStr []))))),
       (''status'', or_else (jget fm ''status'') (JStr DEFAULT_STATUS)),
       (''priority'', or_else (jget fm ''priority'') (JStr DEFAULT_PRIORITY)),
       (''owner'', jget fm ''owner''), (''assignee'', jget fm ''assignee''),
       (''tags'', JArr (map (\<lambda>t. JStr (str_of t)) tags)), (''timestamp'', jget fm ''timestamp''), (''mtime'', mtime),
       (''blocked_on'', jget fm ''blocked_on''), (''due'', jget fm ''due''), (''not_before'', jget fm ''not_before''),
       (''checkpoint_ref'', jget fm ''checkpoint_ref''), (''acked_by'', JArr []), (''next_action'', jget fm ''next_action'')])"

fun index_of :: "string \<Rightarrow> string list \<Rightarrow> nat" where
  "index_of x [] = 0"
| "index_of x (y # ys) = (if x = y then 0 else Suc (index_of x ys))"

definition priority_key :: "row \<Rightarrow> terr + nat" where
  "priority_key r =
     (case jget r ''priority'' of
        JStr p \<Rightarrow> Inr (index_of p VALID_PRIORITIES)
      | j \<Rightarrow> if hashable j then Inr (length VALID_PRIORITIES) else Inl TypeError)"

definition rank_of :: "row \<Rightarrow> nat" where
  "rank_of r = (case priority_key r of Inr n \<Rightarrow> n | Inl _ \<Rightarrow> length VALID_PRIORITIES)"

definition recency :: "row \<Rightarrow> string" where
  "recency r = str_or [] (map_of r ''timestamp'')"

text \<open>\<open>sorted(..., reverse=True)\<close> keeps the order of equal keys.\<close>

definition sort_rows :: "row list \<Rightarrow> terr + row list" where
  "sort_rows rows =
     (if list_all (\<lambda>r. hashable (jget r ''priority'')) rows
      then Inr (sort_key rank_of (rev (sort_key recency (rev rows)))) else Inl TypeError)"

section \<open>Slugs\<close>

definition slug_char :: "char \<Rightarrow> bool" where
  "slug_char c = (let n = of_char c :: nat in 97 \<le> n \<and> n \<le> 122 \<or> 48 \<le> n \<and> n \<le> 57)"

text \<open>\<open>_SLUG_RE.sub("-", s)\<close>: each run of other characters becomes one dash.\<close>

fun dash_runs :: "bool \<Rightarrow> string \<Rightarrow> string" where
  "dash_runs in_run [] = []"
| "dash_runs in_run (c # s) =
     (if slug_char c then c # dash_runs False s
      else if in_run then dash_runs True s else CHR ''-'' # dash_runs True s)"

definition MAX_SLUG_LEN :: nat where
  "MAX_SLUG_LEN = 80"

definition is_dash :: "char \<Rightarrow> bool" where "is_dash c \<longleftrightarrow> c = CHR ''-''"

definition slugify :: "string \<Rightarrow> string" where
  "slugify title =
     (let s0 = rstrip_if is_dash (lstrip_if is_dash (dash_runs False (lower title)));
          s = (if s0 = [] then ''task'' else s0) in
      if MAX_SLUG_LEN < length s then rstrip_if is_dash (take MAX_SLUG_LEN s) else s)"

definition agent_key :: "(string \<Rightarrow> string) \<Rightarrow> string \<Rightarrow> string" where
  "agent_key sha1 agent =
     (let a = (if agent = [] then ''agent'' else agent) in take 48 (slugify a) @ ''-'' @ take 6 (sha1 a))"

section \<open>Creating a task document\<close>

record new_task =
  nt_title :: string
  nt_now :: string
  nt_workstream :: "string option"
  nt_status :: string
  nt_priority :: string
  nt_owner :: "string option"
  nt_assignee :: "string option"
  nt_summary :: string
  nt_next_action :: "string option"
  nt_kind :: "string option"
  nt_not_before :: "string option"
  nt_slug :: "string option"
  nt_evidence :: "string option"
  nt_fyi :: bool

definition given :: "string option \<Rightarrow> bool" where
  "given x = (case x of None \<Rightarrow> False | Some s \<Rightarrow> s \<noteq> [])"

definition opt_json :: "string option \<Rightarrow> json" where
  "opt_json x = (case x of None \<Rightarrow> JNull | Some s \<Rightarrow> JStr s)"

definition text_or_empty :: "string option \<Rightarrow> string" where
  "text_or_empty x = (case x of None \<Rightarrow> [] | Some s \<Rightarrow> s)"

definition new_task_tags :: "new_task \<Rightarrow> string list" where
  "new_task_tags t =
     (if given (nt_workstream t) then [''workstream:'' @ the (nt_workstream t)] else [])
     @ (if given (nt_kind t) then [''kind:'' @ the (nt_kind t)] else [])
     @ (if nt_fyi t then [''mode:fyi''] else [])"

definition new_task_fields :: "new_task \<Rightarrow> string \<Rightarrow> row" where
  "new_task_fields t slug =
     [(''type'', JStr ''Task''), (''title'', JStr (nt_title t)), (''description'', JStr (nt_summary t)),
      (''timestamp'', JStr (nt_now t)), (''tags'', JArr (map JStr (new_task_tags t))), (''id'', JStr slug),
      (''status'', JStr (nt_status t)), (''priority'', JStr (nt_priority t)), (''owner'', opt_json (nt_owner t)),
      (''assignee'', opt_json (nt_assignee t)), (''next_action'', opt_json (nt_next_action t)),
      (''not_before'', opt_json (nt_not_before t))]"

definition reason_label :: "string \<Rightarrow> string" where
  "reason_label status = (if status = ''abandoned'' then ''reason'' else ''evidence'')"

definition new_task_body :: "new_task \<Rightarrow> string" where
  "new_task_body t = nl @ nl @ ''# '' @ nt_title t @ nl @
     (if nt_status t \<in> set TERMINAL_STATUSES
      then nl @ ''- '' @ nt_now t @ '': created '' @ nt_status t @ '' ('' @ reason_label (nt_status t) @ '': ''
             @ (case nt_evidence t of None \<Rightarrow> ''None'' | Some e \<Rightarrow> e) @ '')'' @ nl
      else [])"

definition new_task_doc :: "new_task \<Rightarrow> terr + (string \<times> string)" where
  "new_task_doc t =
     (if nt_status t \<notin> set VALID_STATUSES then Inl (TaskError (''invalid status '' @ repr_str (nt_status t)))
      else if nt_priority t \<notin> set VALID_PRIORITIES then Inl (TaskError (''invalid priority '' @ repr_str (nt_priority t)))
      else if nt_status t \<in> set TERMINAL_STATUSES \<and> strip (text_or_empty (nt_evidence t)) = []
        then Inl (TaskError (''a doc created as '' @ nt_status t @ '' requires '' @ reason_label (nt_status t)))
      else (let slug = (if given (nt_slug t) then the (nt_slug t) else slugify (nt_title t)) in
            Inr (slug, render_frontmatter (new_task_fields t slug) @ new_task_body t)))"

section \<open>Updating a task document\<close>

record update =
  u_status :: "string option"
  u_summary :: "string option"
  u_next_action :: "string option"
  u_assignee :: "string option"
  u_blocked_on :: "string option"
  u_priority :: "string option"
  u_evidence :: "string option"
  u_add_tags :: "string list"
  u_checkpoint_ref :: "string option"
  u_remove_tags :: "string list"
  u_unlock :: "string option"
  u_superseded_by :: "string option"
  u_superseded_record_id :: "string option"

definition live_statuses :: "string list" where
  "live_statuses = [''proposed'', ''active'', ''waiting'', ''blocked'']"

text \<open>The guards on the status, in the order of the source.\<close>

definition check_status :: "json \<Rightarrow> update \<Rightarrow> terr + unit" where
  "check_status old u =
     (if given (u_superseded_by u) \<and> old \<in> JStr ` set TERMINAL_STATUSES
      then Inl (TaskError (''cannot supersede a terminal task (status '' @ str_of old @ '')''))
      else (case u_status u of None \<Rightarrow> Inr ()
        | Some st \<Rightarrow>
            if st \<notin> set VALID_STATUSES then Inl (TaskError (''invalid status '' @ repr_str st))
            else res_bind (is_valid_transition old st) (\<lambda>legal.
              if \<not> legal \<and> \<not> (st = ''done'' \<and> given (u_superseded_by u) \<and> old \<in> JStr ` set live_statuses)
              then Inl (TaskError (''illegal transition '' @ str_of old @ '' -> '' @ st))
              else if st = ''done'' \<and> \<not> given (u_evidence u) then Inl (TaskError ''done requires evidence'')
              else Inr ())))"

definition check_priority :: "update \<Rightarrow> terr + unit" where
  "check_priority u =
     (case u_priority u of None \<Rightarrow> Inr ()
      | Some p \<Rightarrow> if p \<in> set VALID_PRIORITIES then Inr () else Inl (TaskError (''invalid priority '' @ repr_str p)))"

definition set_opt :: "string \<Rightarrow> string option \<Rightarrow> row \<Rightarrow> row" where
  "set_opt k x fm = (case x of None \<Rightarrow> fm | Some v \<Rightarrow> dict_set k (JStr v) fm)"

definition tag_list :: "row \<Rightarrow> json list" where
  "tag_list fm =
     (let t = jget fm ''tags'' in
      if \<not> truthy t then [] else (case t of JArr xs \<Rightarrow> xs | _ \<Rightarrow> [JStr (str_of t)]))"

definition add_tags :: "string list \<Rightarrow> row \<Rightarrow> row" where
  "add_tags ts fm =
     (if ts = [] then fm
      else dict_set ''tags'' (JArr (tag_list fm @ filter (\<lambda>t. t \<notin> set (tag_list fm)) (map JStr ts))) fm)"

definition remove_tags :: "string list \<Rightarrow> row \<Rightarrow> row" where
  "remove_tags ts fm =
     (if ts = [] then fm else dict_set ''tags'' (JArr (filter (\<lambda>t. t \<notin> set (map JStr ts)) (tag_list fm))) fm)"

definition update_fields :: "string \<Rightarrow> update \<Rightarrow> row \<Rightarrow> row" where
  "update_fields now u fm =
     dict_set ''timestamp'' (JStr now)
       (remove_tags (u_remove_tags u) (add_tags (u_add_tags u)
         (set_opt ''checkpoint_ref'' (u_checkpoint_ref u)
         (set_opt ''superseded_record_id'' (u_superseded_record_id u)
         (set_opt ''superseded_by'' (u_superseded_by u)
         (set_opt ''unlock'' (u_unlock u)
         (set_opt ''blocked_on'' (u_blocked_on u)
         (set_opt ''assignee'' (u_assignee u)
         (set_opt ''next_action'' (u_next_action u)
         (set_opt ''description'' (u_summary u)
         (set_opt ''priority'' (u_priority u)
         (set_opt ''status'' (u_status u) fm))))))))))))"

definition update_note :: "string \<Rightarrow> json \<Rightarrow> update \<Rightarrow> string" where
  "update_note now old u =
     (if given (u_status u) then now @ '': '' @ str_of old @ '' -> '' @ the (u_status u) else now @ '': updated'')
     @ (if given (u_evidence u)
        then '' ('' @ (if u_status u = Some ''abandoned'' then ''reason'' else ''evidence'') @ '': ''
             @ the (u_evidence u) @ '')'' else [])"

definition update_tail :: "string \<Rightarrow> string \<Rightarrow> string" where
  "update_tail body note_line =
     (if strip body \<noteq> [] then rstrip_if is_space body @ nl @ nl @ ''- '' @ note_line @ nl
      else ''- '' @ note_line @ nl)"

definition apply_update :: "string option \<Rightarrow> string \<Rightarrow> update \<Rightarrow> terr + string" where
  "apply_update existing now u =
     (case parse_frontmatter existing of
        None \<Rightarrow> Inl (TaskError ''task doc missing or has no parseable frontmatter'')
      | Some fm \<Rightarrow>
          (let body = (case split_frontmatter existing of None \<Rightarrow> [] | Some (_, b) \<Rightarrow> b);
               old = or_else (jget fm ''status'') (JStr DEFAULT_STATUS) in
           res_bind (check_status old u) (\<lambda>_.
           res_bind (check_priority u) (\<lambda>_.
             Inr (render_frontmatter (update_fields now u fm) @ nl @ nl
                  @ lstrip_if (\<lambda>c. c = CHR 0x0A) (update_tail body (update_note now old u)))))))"

definition no_update :: update where
  "no_update = \<lparr>u_status = None, u_summary = None, u_next_action = None, u_assignee = None, u_blocked_on = None,
     u_priority = None, u_evidence = None, u_add_tags = [], u_checkpoint_ref = None, u_remove_tags = [],
     u_unlock = None, u_superseded_by = None, u_superseded_record_id = None\<rparr>"

definition mark_done :: "string option \<Rightarrow> string \<Rightarrow> string \<Rightarrow> terr + string" where
  "mark_done existing now evidence =
     apply_update existing now (no_update\<lparr>u_status := Some ''done'', u_evidence := Some evidence\<rparr>)"

definition comma_to_space :: "string \<Rightarrow> string" where
  "comma_to_space s = map (\<lambda>c. if c = CHR '','' then CHR '' '' else c) s"

definition is_operator_ask :: "string \<Rightarrow> row \<Rightarrow> bool" where
  "is_operator_ask human fm =
     (let tags = (let t = jget fm ''tags'' in if \<not> truthy t then [] else (case t of JArr xs \<Rightarrow> xs | _ \<Rightarrow> [t]));
          blocked_on = split_ws (comma_to_space (str_or [] (map_of fm ''blocked_on''))) in
      or_else (jget fm ''status'') (JStr DEFAULT_STATUS) \<in> JStr ` set OPEN_STATUSES
      \<and> (JStr ''needs:human'' \<in> set tags
         \<or> jget fm ''status'' = JStr ''blocked'' \<and> (jget fm ''assignee'' = JStr human \<or> human \<in> set blocked_on)))"

definition apply_answer :: "string option \<Rightarrow> string \<Rightarrow> string \<Rightarrow> string option \<Rightarrow> string \<Rightarrow> terr + (string \<times> string)" where
  "apply_answer existing now answer relayer human =
     (if strip answer = [] then Inl (TaskError ''answer requires text'')
      else (case parse_frontmatter existing of
        None \<Rightarrow> Inl (TaskError ''task doc missing or has no parseable frontmatter'')
      | Some fm \<Rightarrow>
          if \<not> hashable (or_else (jget fm ''status'') (JStr DEFAULT_STATUS)) then Inl TypeError
          else if \<not> is_operator_ask human fm
          then Inl (TaskError (''not a waiting-for-operator ask (for operator '' @ repr_str human @ '')''))
          else (let owner = strip (str_or [] (map_of fm ''owner'')) in
            if owner = [] then Inl (TaskError ''ask has no owner to hand the answer back to'')
            else res_bind (apply_update existing now (no_update\<lparr>
                   u_status := (if jget fm ''status'' = JStr ''blocked'' then Some ''active'' else None),
                   u_next_action := Some (''OPERATOR ANSWER: '' @ strip answer), u_assignee := Some owner,
                   u_blocked_on := Some [], u_remove_tags := [''needs:human''],
                   u_evidence := (if given relayer then Some (''operator answer relayed by '' @ the relayer) else None)\<rparr>))
                 (\<lambda>doc. Inr (doc, owner)))))"

section \<open>The inbox (directives.py)\<close>

definition BACKLOG :: string where "BACKLOG = ''@backlog''"
definition EVERYONE :: string where "EVERYONE = ''*''"

definition is_directed_at :: "row \<Rightarrow> string \<Rightarrow> string list \<Rightarrow> bool" where
  "is_directed_at r agent held_roles =
     (let a = jget r ''assignee'' in a \<in> {JStr agent, JStr EVERYONE} \<or> a \<in> set (map JStr held_roles))"

definition row_slug :: "row \<Rightarrow> string" where
  "row_slug r = (let n = str_or [] (map_of r ''name'') in if n = [] then str_or [] (map_of r ''id'') else n)"

definition wants_attention :: "(string \<times> string list) list \<Rightarrow> string \<Rightarrow> string option \<Rightarrow> bool \<Rightarrow> bool
    \<Rightarrow> string list \<Rightarrow> row \<Rightarrow> bool" where
  "wants_attention acks agent now backlog history held_roles r \<longleftrightarrow>
     (history \<or> jget r ''status'' \<in> JStr ` set OPEN_STATUSES)
     \<and> \<not> (jget r ''assignee'' = JStr BACKLOG \<and> \<not> backlog)
     \<and> is_directed_at r agent held_roles
     \<and> (history \<or> agent \<notin> set (case map_of acks (row_slug r) of None \<Rightarrow> [] | Some xs \<Rightarrow> xs))
     \<and> (history \<or> (case now of None \<Rightarrow> True
          | Some t \<Rightarrow> \<not> (truthy (jget r ''not_before'') \<and> t < str_of (jget r ''not_before''))))"

definition inbox :: "row list \<Rightarrow> (string \<times> string list) list \<Rightarrow> string \<Rightarrow> string option \<Rightarrow> bool \<Rightarrow> bool
    \<Rightarrow> string list \<Rightarrow> terr + row list" where
  "inbox rows acks agent now backlog history held_roles =
     (if \<not> history \<and> list_ex (\<lambda>r. \<not> hashable (jget r ''status'')) rows then Inl TypeError
      else sort_rows (filter (wants_attention acks agent now backlog history held_roles) rows))"

definition renotify_rank :: "string \<Rightarrow> nat" where
  "renotify_rank p = (if p \<in> set VALID_PRIORITIES then index_of p VALID_PRIORITIES else 9)"

definition renotify :: "row list \<Rightarrow> (string \<times> string list) list \<Rightarrow> string \<Rightarrow> string option \<Rightarrow> string
    \<Rightarrow> string list \<Rightarrow> terr + row list" where
  "renotify rows acks agent now min_priority held_roles =
     (let ceiling = (if min_priority \<in> set VALID_PRIORITIES then index_of min_priority VALID_PRIORITIES else 1) in
      res_bind (inbox rows acks agent now False False held_roles) (\<lambda>out.
        Inr (filter (\<lambda>r. renotify_rank (str_of (jget r ''priority'')) \<le> ceiling) out)))"

definition broadcast_state :: "string list \<Rightarrow> string list option \<Rightarrow> bool option \<times> string list option \<times> string list" where
  "broadcast_state acked_by roster =
     (case roster of
        None \<Rightarrow> (None, None, sort acked_by)
      | Some rs \<Rightarrow> (let pending = sorted_set (filter (\<lambda>a. a \<notin> set acked_by) rs) in
                   (Some (pending = []), Some pending, sort acked_by)))"

end
