(* ===== verification/Okf_Props.thy ===== *)
theory Okf_Props
  imports Okf
begin

text \<open>
  The front matter the engine writes is the front matter it reads back, for fields whose texts
  stay on one line; and a text with a line of three dashes cuts the document it is written in.
\<close>

section \<open>Plain fields\<close>

definition one_line :: "string \<Rightarrow> bool" where
  "one_line s \<longleftrightarrow> list_all (\<lambda>c. \<not> is_newline c) s"

definition plain_key :: "string \<Rightarrow> bool" where
  "plain_key k \<longleftrightarrow> k \<noteq> [] \<and> strip k = k \<and> CHR '':'' \<notin> set k \<and> hd k \<noteq> CHR ''#'' \<and> one_line k"

definition plain_text :: "json \<Rightarrow> bool" where
  "plain_text j = (case j of JStr s \<Rightarrow> one_line s | _ \<Rightarrow> False)"

definition plain_value :: "json \<Rightarrow> bool" where
  "plain_value j = (case j of JStr s \<Rightarrow> one_line s | JBool b \<Rightarrow> True | JArr xs \<Rightarrow> list_all plain_text xs
     | JNull \<Rightarrow> True | _ \<Rightarrow> False)"

definition plain_field :: "string \<times> json \<Rightarrow> bool" where
  "plain_field kv \<longleftrightarrow> plain_key (fst kv) \<and> plain_value (snd kv)"

section \<open>Scalars\<close>

definition dq :: char where
  "dq = CHR 0x22"

lemma dq_facts [simp]: "\<not> is_space dq" "dq \<in> set quotes" "\<not> is_newline dq" "dq \<noteq> CHR '':''" "dq \<noteq> CHR ''-''"
  "lower_char dq = dq"
  by (simp_all add: dq_def quotes_def text_eval)

lemma render_scalar_dq: "render_scalar s = (if needs_quote s then dq # s @ [dq] else s)"
  by (simp add: render_scalar_def dq_def)

lemma quoted_dq [simp]: "quoted (dq # s @ [dq])"
  by (simp add: quoted_def)

lemma strip_dq [simp]: "strip (dq # s @ [dq]) = dq # s @ [dq]"
  by (rule strip_id) simp_all

lemma unquoted_facts:
  assumes "\<not> needs_quote s"
  shows "s \<noteq> []" "strip s = s" "\<not> quoted s" "\<not> startswith s ''[''" "s \<noteq> ''|''" "s \<noteq> ''|-''" "s \<noteq> ''|+''"
    "lower s \<notin> {''null'', ''true'', ''false'', ''~''}"
proof -
  show ne: "s \<noteq> []" and "strip s = s" and "lower s \<notin> {''null'', ''true'', ''false'', ''~''}"
    using assms by (auto simp: needs_quote_def)
  have h: "hd s \<notin> set special_heads" using assms by (simp add: needs_quote_def)
  then show "\<not> quoted s" by (auto simp: quoted_def quotes_def special_heads_def)
  from ne h show "\<not> startswith s ''[''" by (cases s) (auto simp: startswith_def special_heads_def)
  from h show "s \<noteq> ''|''" "s \<noteq> ''|-''" "s \<noteq> ''|+''" by (auto simp: special_heads_def)
qed

lemma lower_dq: "lower (dq # s) \<noteq> ''null''" "lower (dq # s) \<noteq> ''~''"
  by (simp_all add: lower_def) (simp_all add: dq_def)

lemma parse_render_scalar [simp]: "parse_scalar (render_scalar s) = JStr s"
proof (cases "needs_quote s")
  case True
  then show ?thesis using lower_dq [of "s @ [dq]"] by (simp add: render_scalar_dq parse_scalar_def Let_def)
next
  case False
  with unquoted_facts [OF False] show ?thesis by (simp add: render_scalar_dq parse_scalar_def Let_def)
qed

lemma unquote_render_scalar [simp]: "unquote (render_scalar s) = s"
  using unquoted_facts [of s] by (auto simp: render_scalar_dq unquote_def Let_def)

lemma render_scalar_marks:
  "render_scalar s \<noteq> []" "strip (render_scalar s) = render_scalar s"
  "render_scalar s \<notin> {''|'', ''|-'', ''|+''}"
  using unquoted_facts [of s] by (auto simp: render_scalar_dq) (simp add: dq_def)+

lemma one_line_render: "one_line s \<Longrightarrow> one_line (render_scalar s)"
  by (simp add: render_scalar_dq one_line_def)

lemma parse_bool_text [simp]: "parse_scalar (bool_text b) = JBool b"
  by (simp add: bool_text_def parse_scalar_def quoted_def quotes_def text_eval)

lemma parse_empty_list [simp]: "parse_scalar ''[]'' = JArr []"
  by (simp add: parse_scalar_def quoted_def quotes_def text_eval)

section \<open>Lines\<close>

lemma plain_keyD:
  assumes "plain_key k"
  shows "k \<noteq> []" "strip k = k" "CHR '':'' \<notin> set k" "\<not> is_space (hd k)" "hd k \<noteq> CHR ''#''" "one_line k"
  using assms strip_fixD(1) [of k] by (auto simp: plain_key_def)

lemma key_line:
  assumes "plain_key k"
  shows "strip (k @ CHR '':'' # r) \<noteq> []" "\<not> startswith (strip (k @ CHR '':'' # r)) ''#''"
    "strip (k @ CHR '':'' # r) \<noteq> delim"
proof -
  obtain c cs where k: "k = c # cs" using plain_keyD(1) [OF assms] by (cases k) auto
  with plain_keyD [OF assms] have c: "\<not> is_space c" "c \<noteq> CHR ''#''" by auto
  have drop: "lstrip_if is_space (k @ CHR '':'' # r) = k @ CHR '':'' # r"
    using k c by (simp add: lstrip_if_def)
  have col: "\<not> is_space (CHR '':'')" by (simp add: text_eval)
  have pre: "\<exists>t. strip (k @ CHR '':'' # r) = k @ CHR '':'' # t"
  proof -
    have "dropWhile is_space (rev r @ CHR '':'' # rev k) = dropWhile is_space (rev r) @ CHR '':'' # rev k"
      using col by (induction "rev r") (auto simp: dropWhile_append)
    then show ?thesis unfolding strip_def drop rstrip_if_def by simp
  qed
  then obtain t where t: "strip (k @ CHR '':'' # r) = k @ CHR '':'' # t" by blast
  from t show "strip (k @ CHR '':'' # r) \<noteq> []" by simp
  from t k c show "\<not> startswith (strip (k @ CHR '':'' # r)) ''#''" by (simp add: startswith_def)
  show "strip (k @ CHR '':'' # r) \<noteq> delim"
  proof
    assume "strip (k @ CHR '':'' # r) = delim"
    with t have "CHR '':'' \<in> set delim" by (metis in_set_conv_decomp)
    then show False by (simp add: delim_def)
  qed
qed

lemma parse_yaml_scalar:
  assumes "plain_key k" "v \<noteq> []" "strip v = v" "v \<notin> {''|'', ''|-'', ''|+''}"
  shows "parse_yaml ((k @ '': '' @ v) # ls) d = parse_yaml ls (dict_set k (parse_scalar v) d)"
proof -
  have sp: "strip (CHR '' '' # v) = v" using assms(3) by (simp add: text_eval(1))
  show ?thesis
    using assms key_line [OF assms(1), of "CHR '' '' # v"] plain_keyD [OF assms(1)] sp
    by (simp add: Let_def)
qed

definition top :: "string list \<Rightarrow> bool" where
  "top ls = (case ls of [] \<Rightarrow> True | l # _ \<Rightarrow> strip l \<noteq> [] \<and> \<not> startswith (strip l) ''#'' \<and> \<not> indented l)"

lemma take_nested_top: "top ls \<Longrightarrow> take_nested k ls = (k, ls)"
  by (cases ls) (auto simp: top_def Let_def)

lemma strip_item: "strip (''  - '' @ render_scalar x) = ''- '' @ render_scalar x"
proof -
  have "last (''- '' @ render_scalar x) = last (render_scalar x)" using render_scalar_marks(1) [of x] by simp
  then have "strip (''- '' @ render_scalar x) = ''- '' @ render_scalar x"
    using strip_fixD(2) [OF render_scalar_marks(2,1), of x] by (intro strip_id) (simp_all add: text_eval)
  then show ?thesis by (simp add: is_space_def)
qed

lemma take_nested_items:
  assumes "top ls"
  shows "take_nested (NList ys) (map (\<lambda>x. ''  - '' @ render_scalar x) xs @ ls) = (NList (ys @ xs), ls)"
proof (induction xs arbitrary: ys)
  case (Cons x xs)
  then show ?case using strip_item [of x] by (simp add: Let_def indented_def is_space_def startswith_def)
qed (simp add: take_nested_top assms)

lemma parse_yaml_list:
  assumes "plain_key k" "top ls" "xs \<noteq> []"
  shows "parse_yaml ((k @ '':'') # map (\<lambda>x. ''  - '' @ render_scalar x) xs @ ls) d
    = parse_yaml ls (dict_set k (JArr (map JStr xs)) d)"
proof -
  obtain y ys where xs: "xs = y # ys" using assms(3) by (cases xs) auto
  have "take_nested NNone (map (\<lambda>x. ''  - '' @ render_scalar x) xs @ ls) = (NList xs, ls)"
    using take_nested_items [OF assms(2), of "[y]" ys] strip_item [of y]
    by (simp add: xs Let_def indented_def is_space_def startswith_def)
  with key_line [OF assms(1), of "[]"] plain_keyD [OF assms(1)] show ?thesis
    by (simp add: Let_def nested_json_def)
qed

section \<open>Fields\<close>

definition parsed_field :: "string \<times> json \<Rightarrow> (string \<times> json) list \<Rightarrow> (string \<times> json) list" where
  "parsed_field kv d = (if snd kv = JNull then d else dict_set (fst kv) (snd kv) d)"

lemma plain_texts: "list_all plain_text xs \<Longrightarrow> \<exists>ss. xs = map JStr ss \<and> list_all one_line ss"
proof (induction xs)
  case (Cons x xs)
  then obtain ss where "xs = map JStr ss" "list_all one_line ss" by auto
  moreover obtain s where "x = JStr s" "one_line s" using Cons.prems by (cases x) (auto simp: plain_text_def)
  ultimately show ?case by (intro exI [of _ "s # ss"]) simp
qed simp

lemma one_line_nl: "one_line s \<Longrightarrow> hd nl \<notin> set s"
  by (auto simp: one_line_def nl_def list_all_iff is_newline_def dest!: bspec)

lemma parse_field:
  assumes "plain_field kv" "top ls"
  shows "parse_yaml (field_lines kv @ ls) d = parse_yaml ls (parsed_field kv d)"
proof -
  obtain k v where kv: "kv = (k, v)" by (cases kv)
  with assms have k: "plain_key k" and v: "plain_value v" by (auto simp: plain_field_def)
  show ?thesis
  proof (cases v)
    case (JBool b)
    have "bool_text b \<noteq> []" "strip (bool_text b) = bool_text b" "bool_text b \<notin> {''|'', ''|-'', ''|+''}"
      by (auto simp: bool_text_def text_eval)
    from parse_yaml_scalar [OF k this] show ?thesis
      by (simp add: kv JBool field_lines_def parsed_field_def)
  next
    case (JStr s)
    with v have "one_line s" by (simp add: plain_value_def)
    with parse_yaml_scalar [OF k render_scalar_marks, of s] one_line_nl [of s] show ?thesis
      by (simp add: kv JStr field_lines_def parsed_field_def)
  next
    case (JArr xs)
    with v obtain ss where ss: "xs = map JStr ss" using plain_texts by (auto simp: plain_value_def)
    show ?thesis
    proof (cases ss)
      case Nil
      have "strip ''[]'' = ''[]''" by (simp add: text_eval)
      with parse_yaml_scalar [OF k, of "''[]''"] show ?thesis
        by (simp add: kv JArr ss Nil field_lines_def parsed_field_def)
    next
      case (Cons y ys)
      with parse_yaml_list [OF k assms(2), of ss] show ?thesis
        by (simp add: kv JArr ss field_lines_def parsed_field_def comp_def)
    qed
  qed (use v in \<open>simp_all add: kv plain_value_def field_lines_def parsed_field_def\<close>)
qed

lemma key_line_top: "plain_key k \<Longrightarrow> top ((k @ CHR '':'' # r) # ls)"
  using key_line [of k r] plain_keyD [of k] by (cases k) (auto simp: top_def indented_def)

lemma field_top: "plain_field kv \<Longrightarrow> top ls \<Longrightarrow> top (field_lines kv @ ls)"
  by (auto simp: plain_field_def plain_value_def field_lines_def Let_def key_line_top split: json.splits list.splits)

lemma fields_top: "list_all plain_field fs \<Longrightarrow> top (concat (map field_lines fs))"
  by (induction fs) (auto simp: field_top, simp add: top_def)

lemma parse_fields:
  "list_all plain_field fs \<Longrightarrow> parse_yaml (concat (map field_lines fs)) d = fold parsed_field fs d"
  by (induction fs arbitrary: d) (auto simp: parse_field fields_top)

lemma dict_set_new: "k \<notin> fst ` set d \<Longrightarrow> dict_set k v d = d @ [(k, v)]"
  by (induction d) auto

lemma fold_parsed:
  "distinct (map fst fs) \<Longrightarrow> fst ` set fs \<inter> fst ` set d = {} \<Longrightarrow>
     fold parsed_field fs d = d @ filter (\<lambda>kv. snd kv \<noteq> JNull) fs"
proof (induction fs arbitrary: d)
  case (Cons kv fs)
  then show ?case by (cases "snd kv = JNull") (auto simp: parsed_field_def dict_set_new)
qed simp

section \<open>The round trip\<close>

definition inner_line :: "string \<Rightarrow> bool" where
  "inner_line l \<longleftrightarrow> one_line l \<and> l \<noteq> [] \<and> strip l \<noteq> delim"

lemma one_line_append [simp]: "one_line (s @ t) \<longleftrightarrow> one_line s \<and> one_line t"
  by (simp add: one_line_def)

lemma one_line_Nil [simp]: "one_line []"
  by (simp add: one_line_def)

lemma one_line_Cons [simp]: "one_line (c # s) \<longleftrightarrow> \<not> is_newline c \<and> one_line s"
  by (simp add: one_line_def)

lemma one_line_lits: "one_line '': ''" "one_line '':''" "one_line ''  - ''" "one_line '': []''" "one_line (bool_text b)" "one_line delim"
  by (simp_all add: one_line_def bool_text_def delim_def is_newline_def)

lemma item_line: "one_line x \<Longrightarrow> inner_line (''  - '' @ render_scalar x)"
  using strip_item [of x] by (auto simp: inner_line_def one_line_render delim_def is_newline_def)

lemma key_inner: "plain_key k \<Longrightarrow> one_line (CHR '':'' # r) \<Longrightarrow> inner_line (k @ CHR '':'' # r)"
  using key_line [of k r] plain_keyD [of k] by (simp add: inner_line_def)

lemma field_inner: "plain_field kv \<Longrightarrow> list_all inner_line (field_lines kv)"
proof -
  assume a: "plain_field kv"
  obtain k v where kv: "kv = (k, v)" by (cases kv)
  with a have k: "plain_key k" and v: "plain_value v" by (auto simp: plain_field_def)
  have colon: "one_line (CHR '':'' # CHR '' '' # r) = one_line r" for r
    by (simp add: one_line_def is_newline_def)
  show ?thesis
  proof (cases v)
    case (JArr xs)
    with v obtain ss where "xs = map JStr ss" "list_all one_line ss" using plain_texts by (auto simp: plain_value_def)
    with k show ?thesis
      using item_line by (cases ss) (auto simp: kv JArr field_lines_def list_all_iff is_newline_def one_line_Nil intro!: key_inner)
  next
    case (JStr s)
    with v k show ?thesis
      by (auto simp: kv field_lines_def plain_value_def Let_def one_line_nl colon one_line_render is_newline_def intro!: key_inner)
  next
    case (JBool b)
    with k show ?thesis by (auto simp: kv field_lines_def colon one_line_lits is_newline_def intro!: key_inner)
  qed (use v in \<open>simp_all add: kv plain_value_def field_lines_def\<close>)
qed

lemma find_close_inner:
  "list_all inner_line ls \<Longrightarrow> find_close acc (ls @ delim # rest) = Some (join nl (rev acc @ ls), join nl rest)"
proof (induction ls arbitrary: acc)
  case Nil
  have "strip delim = delim" by (simp add: delim_def text_eval)
  then show ?case by simp
next
  case (Cons l ls)
  then show ?case by (simp add: inner_line_def)
qed

lemma splitlines_lines:
  "list_all one_line ls \<Longrightarrow> splitlines (concat (map (\<lambda>l. l @ nl) ls) @ t) = ls @ splitlines t"
  by (induction ls) (auto simp: nl_def one_line_def splitlines_newline)

lemma join_lines: "join nl (ls @ [l]) = concat (map (\<lambda>l. l @ nl) ls) @ l"
proof (induction ls)
  case (Cons a ls)
  then show ?case by (cases "ls @ [l]") (auto simp: neq_Nil_conv)
qed simp

lemma splitlines_delim: "splitlines (delim @ nl @ body) = delim # splitlines body"
  using splitlines_newline [of delim body] one_line_lits(6) by (simp add: nl_def one_line_def)

lemma frontmatter_parses:
  assumes "list_all plain_field fs" "distinct (map fst fs)"
  shows "parse_frontmatter (Some (render_frontmatter fs @ nl @ body)) = Some (filter (\<lambda>kv. snd kv \<noteq> JNull) fs)"
proof -
  define inner where "inner = concat (map field_lines fs)"
  have il: "list_all inner_line inner"
    using assms(1) field_inner by (auto simp: inner_def list_all_iff)
  then have ol: "list_all one_line (delim # inner)" and ne: "list_all (\<lambda>l. one_line l \<and> l \<noteq> []) inner"
    using one_line_lits(6) by (auto simp: inner_line_def list_all_iff)
  have "render_frontmatter fs @ nl @ body = concat (map (\<lambda>l. l @ nl) (delim # inner)) @ delim @ nl @ body"
    using join_lines [of "delim # inner" delim] by (simp add: render_frontmatter_def inner_def)
  then have "splitlines (render_frontmatter fs @ nl @ body) = delim # inner @ delim # splitlines body"
    using splitlines_lines [OF ol] by (simp add: splitlines_delim)
  moreover have "strip delim = delim" "delim \<noteq> []" by (simp_all add: delim_def text_eval)
  ultimately have "split_frontmatter (Some (render_frontmatter fs @ nl @ body)) = Some (join nl inner, join nl (splitlines body))"
    using find_close_inner [OF il, of "[]" "splitlines body"] by (simp add: split_frontmatter_def)
  moreover have "splitlines (join nl inner) = inner"
    using splitlines_join [of inner] ne by (simp add: nl_def one_line_def)
  ultimately show ?thesis
    using parse_fields [OF assms(1), of "[]"] fold_parsed [OF assms(2), of "[]"]
    by (simp add: parse_frontmatter_def inner_def)
qed

text \<open>C35. Front matter round trip: a document made of rendered fields, a line end and any body reads
  back to exactly those fields in order, with the null ones omitted, as the renderer documents.
  The fields are texts, truth values and lists of texts that stay on one line, under distinct
  keys; the texts may contain quotes, brackets, colons, words like \<open>true\<close> or blanks at the ends.\<close>

theorem frontmatter_roundtrip:
  assumes "list_all plain_field fs" "distinct (map fst fs)"
  shows "parse_frontmatter (Some (render_frontmatter fs @ nl @ body)) = Some (filter (\<lambda>kv. snd kv \<noteq> JNull) fs)"
  by (rule frontmatter_parses [OF assms])

lemma frontmatter_roundtrip_witness:
  "parse_frontmatter (Some (render_frontmatter [(''title'', JStr ''a: b''), (''tags'', JArr [JStr ''x'', JStr ''true'']),
      (''owner'', JNull), (''done'', JBool True)] @ nl @ ''# body''))
    = Some [(''title'', JStr ''a: b''), (''tags'', JArr [JStr ''x'', JStr ''true'']), (''done'', JBool True)]"
  using frontmatter_roundtrip [of "[(''title'', JStr ''a: b''), (''tags'', JArr [JStr ''x'', JStr ''true'']),
      (''owner'', JNull), (''done'', JBool True)]" "''# body''"]
  by (simp add: plain_field_def plain_key_def plain_value_def plain_text_def one_line_def text_eval)

end
