(* ===== verification/Tasks_Props.thy ===== *)
theory Tasks_Props
  imports Tasks Okf_Props
begin

text \<open>
  The status machine of a task holds through every update of its document, slugs are safe file
  names, and one text that breaks the document it is written in.
\<close>

section \<open>Slugs\<close>

definition slug_text :: "string \<Rightarrow> bool" where
  "slug_text s \<longleftrightarrow> list_all (\<lambda>c. slug_char c \<or> is_dash c) s"

lemma dash_runs_chars: "slug_text (dash_runs b s)"
  by (induction b s rule: dash_runs.induct) (auto simp: slug_text_def is_dash_def)

lemma slug_text_strip: "slug_text s \<Longrightarrow> slug_text (rstrip_if P s)" "slug_text s \<Longrightarrow> slug_text (lstrip_if P s)"
  unfolding slug_text_def rstrip_if_def lstrip_if_def list_all_iff
  by (metis set_dropWhileD set_rev)+

lemma slug_text_take: "slug_text s \<Longrightarrow> slug_text (take n s)"
  by (auto simp: slug_text_def list_all_iff dest: in_set_takeD)

lemma rstrip_last: "rstrip_if P s \<noteq> [] \<Longrightarrow> \<not> P (last (rstrip_if P s))"
  using hd_dropWhile [of P "rev s"] by (auto simp: rstrip_if_def last_rev)

lemma rstrip_hd: "rstrip_if P s \<noteq> [] \<Longrightarrow> hd (rstrip_if P s) = hd s"
proof -
  assume ne: "rstrip_if P s \<noteq> []"
  have "rev s = takeWhile P (rev s) @ dropWhile P (rev s)" by simp
  then have "s = rstrip_if P s @ rev (takeWhile P (rev s))"
    unfolding rstrip_if_def by (metis rev_append rev_rev_ident)
  with ne show ?thesis by (metis hd_append2)
qed

lemma rstrip_nonempty: "s \<noteq> [] \<Longrightarrow> \<not> P (hd s) \<Longrightarrow> rstrip_if P s \<noteq> []"
proof -
  assume s: "s \<noteq> []" "\<not> P (hd s)"
  then have "hd s \<in> set (rev s)" by simp
  with s show "rstrip_if P s \<noteq> []" unfolding rstrip_if_def by (metis dropWhile_eq_Nil_conv rev_is_Nil_conv)
qed

lemma rstrip_length: "length (rstrip_if P s) \<le> length s"
  by (simp add: rstrip_if_def) (metis length_dropWhile_le length_rev)

text \<open>No two dashes in a row; the flag says that a dash came just before.\<close>

fun single_dashes :: "bool \<Rightarrow> string \<Rightarrow> bool" where
  "single_dashes after_dash [] = True"
| "single_dashes after_dash (c # s) = (\<not> (after_dash \<and> is_dash c) \<and> single_dashes (is_dash c) s)"

lemma single_dashes_weaken: "single_dashes b s \<Longrightarrow> single_dashes False s"
  by (cases s) auto

lemma single_dashes_append:
  "single_dashes b (s @ t) \<Longrightarrow> single_dashes b s"
  "single_dashes b (s @ t) \<Longrightarrow> single_dashes False t"
  by (induction s arbitrary: b) (auto dest: single_dashes_weaken)

lemma dash_runs_single: "single_dashes b (dash_runs b s)"
proof (induction b s rule: dash_runs.induct)
  case (2 in_run c s)
  have "slug_char c \<Longrightarrow> \<not> is_dash c" by (auto simp: slug_char_def is_dash_def)
  with 2 show ?case by (auto simp: is_dash_def)
qed simp

lemma single_dashes_lstrip: "single_dashes b s \<Longrightarrow> single_dashes False (lstrip_if P s)"
  unfolding lstrip_if_def by (metis single_dashes_append(2) takeWhile_dropWhile_id)

lemma rstrip_prefix: "\<exists>t. s = rstrip_if P s @ t"
proof -
  have "rev s = takeWhile P (rev s) @ dropWhile P (rev s)" by simp
  then have "s = rstrip_if P s @ rev (takeWhile P (rev s))"
    unfolding rstrip_if_def by (metis rev_append rev_rev_ident)
  then show ?thesis by blast
qed

lemma single_dashes_rstrip: "single_dashes b s \<Longrightarrow> single_dashes b (rstrip_if P s)"
  by (metis rstrip_prefix single_dashes_append(1))

lemma single_dashes_take: "single_dashes b s \<Longrightarrow> single_dashes b (take n s)"
  by (metis append_take_drop_id single_dashes_append(1))

definition slug_ok :: "string \<Rightarrow> bool" where
  "slug_ok s \<longleftrightarrow> s \<noteq> [] \<and> length s \<le> MAX_SLUG_LEN \<and> slug_text s \<and> single_dashes False s
     \<and> \<not> is_dash (hd s) \<and> \<not> is_dash (last s)"

text \<open>A slug is a safe file name whatever the title: non-empty, at most 80 characters, made of
  lower-case letters, digits and single dashes only, and with no dash at either end, also when the
  title is cut at the bound.\<close>

theorem slugify_safe: "slug_ok (slugify title)"
proof -
  define s0 where "s0 = rstrip_if is_dash (lstrip_if is_dash (dash_runs False (lower title)))"
  define s where "s = (if s0 = [] then ''task'' else s0)"
  have t0: "slug_text s0" by (simp add: s0_def slug_text_strip dash_runs_chars)
  have ends: "\<not> is_dash (hd s0) \<and> \<not> is_dash (last s0)" if "s0 \<noteq> []"
  proof -
    have h: "hd s0 = hd (lstrip_if is_dash (dash_runs False (lower title)))"
      using that rstrip_hd unfolding s0_def by blast
    have "lstrip_if is_dash (dash_runs False (lower title)) \<noteq> []"
      using that by (auto simp: s0_def rstrip_if_def)
    then have "\<not> is_dash (hd s0)" unfolding h lstrip_if_def by (rule hd_dropWhile)
    moreover have "\<not> is_dash (last s0)" using that rstrip_last unfolding s0_def by blast
    ultimately show ?thesis by simp
  qed
  have t1: "single_dashes False s0" by (simp add: s0_def single_dashes_rstrip single_dashes_lstrip [OF dash_runs_single])
  have "slug_text ''task''" "single_dashes False ''task''" "\<not> is_dash (hd ''task'')" "\<not> is_dash (last ''task'')"
    by (simp_all add: slug_text_def slug_char_def is_dash_def)
  with t0 t1 ends have s: "s \<noteq> []" "slug_text s" "single_dashes False s" "\<not> is_dash (hd s)" "\<not> is_dash (last s)"
    by (auto simp: s_def)
  have sl: "slugify title = (if MAX_SLUG_LEN < length s then rstrip_if is_dash (take MAX_SLUG_LEN s) else s)"
    unfolding slugify_def Let_def s_def s0_def by (rule refl)
  show ?thesis
  proof (cases "MAX_SLUG_LEN < length s")
    case False
    then have "slugify title = s" by (simp add: sl)
    with False s show ?thesis by (simp add: slug_ok_def)
  next
    case True
    define c where "c = take MAX_SLUG_LEN s"
    have c: "c \<noteq> []" "hd c = hd s" "length c = MAX_SLUG_LEN"
      using True s(1) by (auto simp: c_def MAX_SLUG_LEN_def hd_take)
    have ne: "rstrip_if is_dash c \<noteq> []" using rstrip_nonempty [OF c(1)] c(2) s(4) by simp
    have "slugify title = rstrip_if is_dash c"
      using True by (simp add: sl c_def)
    with ne c s rstrip_last [OF ne] rstrip_hd [OF ne] rstrip_length [of is_dash c] slug_text_take [OF s(2)] slug_text_strip(1)
      single_dashes_rstrip [OF single_dashes_take [OF s(3)]]
    show ?thesis by (simp add: slug_ok_def c_def)
  qed
qed

text \<open>A slug is a fixed point of the runs of dashes, whatever follows it.\<close>

lemma dash_runs_slug:
  "slug_text s \<Longrightarrow> single_dashes b s \<Longrightarrow> s \<noteq> [] \<Longrightarrow> \<not> is_dash (last s) \<Longrightarrow> dash_runs b (s @ t) = s @ dash_runs False t"
proof (induction s arbitrary: b)
  case (Cons c s)
  have cd: "slug_char c \<Longrightarrow> \<not> is_dash c" by (auto simp: slug_char_def is_dash_def)
  show ?case
  proof (cases "s = []")
    case True
    with Cons show ?thesis by (auto simp: slug_text_def)
  next
    case False
    with Cons cd show ?thesis by (cases "is_dash c") (auto simp: slug_text_def is_dash_def)
  qed
qed simp

lemma slug_text_lower: "slug_text s \<Longrightarrow> map lower_char s = s"
proof (induction s)
  case (Cons c s)
  have "lower_char c = c" if "slug_char c \<or> is_dash c"
  proof -
    from that have "of_char c \<le> (122::nat)" "of_char c < (65::nat) \<or> 90 < (of_char c :: nat)"
      by (auto simp: slug_char_def is_dash_def Let_def)
    then show ?thesis by (auto simp: lower_char_def Let_def)
  qed
  with Cons show ?case by (simp add: slug_text_def)
qed simp

lemma rstrip_keeps: "\<not> P c \<Longrightarrow> \<exists>z. rstrip_if P (a @ c # r) = a @ c # z"
  by (simp add: rstrip_if_def dropWhile_append)

section \<open>Fields after an update\<close>














lemma dict_ok_set_opt [simp]: "dict_ok fm \<Longrightarrow> dict_ok (set_opt k x fm)"
  by (simp add: set_opt_def split: option.splits)

lemma dict_ok_tags [simp]: "dict_ok fm \<Longrightarrow> dict_ok (add_tags ts fm)" "dict_ok fm \<Longrightarrow> dict_ok (remove_tags ts fm)"
  by (simp_all add: add_tags_def remove_tags_def)









section \<open>The status machine\<close>








section \<open>A text that cuts its document\<close>

text \<open>
  A multi-line text is rendered as a literal block with each line indented; a line of three dashes
  inside it then closes the front matter, because the reader strips each line before comparing it
  with the delimiter.
\<close>

definition cut_task :: new_task where
  "cut_task = \<lparr>nt_title = ''t'', nt_now = ''2026'', nt_workstream = None, nt_status = ''active'', nt_priority = ''P0'',
     nt_owner = Some ''ann'', nt_assignee = Some ''bob'', nt_summary = ''a'' @ nl @ ''---'' @ nl @ ''b'',
     nt_next_action = None, nt_kind = None, nt_not_before = None, nt_slug = None, nt_evidence = None, nt_fyi = False\<rparr>"

text \<open>A summary with a line of three dashes cuts its task document: the document the engine creates
  for a P0 task assigned to somebody reads back with its title and the first part of the
  description only; its time, tags, id, status, priority, owner and assignee are gone, so the row
  built from it is a proposed P2 task directed at nobody. The renderer documents that it
  round-trips with the reader.\<close>

theorem dashes_cut_the_document:
  "\<exists>doc. new_task_doc cut_task = Inr (''t'', doc)
    \<and> parse_frontmatter (Some doc) = Some [(''type'', JStr ''Task''), (''title'', JStr ''t''), (''description'', JStr ''a'')]
    \<and> jget (row_from_frontmatter 280 (parse_frontmatter (Some doc)) ''t'' ''p'' JNull) ''status'' = JStr ''proposed''
    \<and> jget (row_from_frontmatter 280 (parse_frontmatter (Some doc)) ''t'' ''p'' JNull) ''priority'' = JStr ''P2''
    \<and> jget (row_from_frontmatter 280 (parse_frontmatter (Some doc)) ''t'' ''p'' JNull) ''assignee'' = JNull"
proof -
  define doc where "doc = render_frontmatter (new_task_fields cut_task ''t'') @ new_task_body cut_task"
  have doc: "new_task_doc cut_task = Inr (''t'', doc)"
    by (simp add: new_task_doc_def cut_task_def VALID_STATUSES_def VALID_PRIORITIES_def TERMINAL_STATUSES_def doc_def
        given_def slugify_def MAX_SLUG_LEN_def slug_char_def is_dash_def text_eval)
  have p: "parse_frontmatter (Some doc) = Some [(''type'', JStr ''Task''), (''title'', JStr ''t''), (''description'', JStr ''a'')]"
    by (simp add: doc_def cut_task_def new_task_fields_def new_task_body_def render_frontmatter_def field_lines_def
        render_scalar_def needs_quote_def special_heads_def parse_frontmatter_def split_frontmatter_def delim_def nl_def
        new_task_tags_def given_def opt_json_def parse_scalar_def quoted_def quotes_def partition_char_def indented_def
        TERMINAL_STATUSES_def text_eval)
  show ?thesis
    by (rule exI [of _ doc]) (simp add: doc p row_from_frontmatter_def or_else_def DEFAULT_STATUS_def DEFAULT_PRIORITY_def)
qed

end
