(* ===== verification/Review.thy ===== *)
theory Review
  imports Okf Engine_Transport "HOL-Library.Product_Lexorder"
begin

text \<open>
  packages/coord-engine/coord_engine/review.py, and from cli.py the reading of a review's verdict
  shards into a tally: exact heads, verdict file names, the order of shards, supersession, the
  fold to one shard per reviewer, the tally and the settled marker. The hashes (SHA-1 and SHA-256
  in hexadecimal) and the conversion of the store's listing times are parameters.
\<close>

section \<open>Heads and file names\<close>

definition is_hex :: "char \<Rightarrow> bool" where
  "is_hex c = (let n = of_char c :: nat in 48 \<le> n \<and> n \<le> 57 \<or> 97 \<le> n \<and> n \<le> 102)"

definition is_digit :: "char \<Rightarrow> bool" where
  "is_digit c = (let n = of_char c :: nat in 48 \<le> n \<and> n \<le> 57)"

definition normalize_head :: "json \<Rightarrow> string option" where
  "normalize_head v =
     (let head = lower (strip (get_text v)) in
      if length head \<in> {40, 64} \<and> list_all is_hex head then Some head else None)"

text \<open>The shape of a second-precision UTC timestamp; \<open>d\<close> stands for a digit.\<close>

definition ts_shape :: string where
  "ts_shape = ''dddd-dd-ddTdd:dd:ddZ''"

definition shape_char :: "char \<Rightarrow> char \<Rightarrow> bool" where
  "shape_char p c = (if p = CHR ''d'' then is_digit c else c = p)"

definition is_ts :: "string \<Rightarrow> bool" where
  "is_ts s \<longleftrightarrow> list_all2 shape_char ts_shape s"

text \<open>
  \<open>_APPEND_SUFFIX\<close> at one position: \<open>--<ts>-<digest>\<close> up to the end of the name, before a last
  line feed where the name has one.
\<close>

definition drop_last_lf :: "string \<Rightarrow> string" where
  "drop_last_lf s = (if s \<noteq> [] \<and> last s = CHR 0x0A then butlast s else s)"

definition suffix_at :: "string \<Rightarrow> string option" where
  "suffix_at s =
     (if startswith s ''--'' \<and> is_ts (take 20 (drop 2 s)) \<and> startswith (drop 22 s) ''-''
         \<and> (let digest = drop_last_lf (drop 23 s) in 6 \<le> length digest \<and> length digest \<le> 16 \<and> list_all is_hex digest)
      then Some (take 20 (drop 2 s)) else None)"

fun find_suffix :: "string \<Rightarrow> (string \<times> string) option" where
  "find_suffix [] = None"
| "find_suffix (c # s) =
     (case suffix_at (c # s) of Some ts \<Rightarrow> Some ([], ts)
      | None \<Rightarrow> map_option (\<lambda>(pre, ts). (c # pre, ts)) (find_suffix s))"

definition verdict_filename :: "string \<Rightarrow> string option \<Rightarrow> string option \<Rightarrow> string option \<Rightarrow> string" where
  "verdict_filename reviewer head ts digest =
     (case head of
        Some (h # hs) \<Rightarrow>
          (case (ts, digest) of
             (Some (t # tt), Some (x # xs)) \<Rightarrow> (h # hs) @ ''--'' @ reviewer @ ''--'' @ (t # tt) @ ''-'' @ (x # xs) @ ''.md''
           | _ \<Rightarrow> (h # hs) @ ''--'' @ reviewer @ ''.md'')
      | _ \<Rightarrow> reviewer @ ''.md'')"

definition parse_verdict_filename :: "string \<Rightarrow> string option \<Rightarrow> (string \<times> string option) option" where
  "parse_verdict_filename name head =
     (if \<not> endswith name ''.md'' then None
      else (let stem = take (length name - 3) name in
        case head of
          Some (h # hs) \<Rightarrow>
            (let pre = (h # hs) @ ''--'' in
             if \<not> startswith stem pre then None
             else (let rest = drop (length pre) stem in
               if rest = [] then None
               else (case find_suffix rest of
                       Some (reviewer, ts) \<Rightarrow> if reviewer = [] then None else Some (reviewer, Some ts)
                     | None \<Rightarrow> Some (rest, None))))
        | _ \<Rightarrow> if find_text stem ''--'' = None then Some (stem, None) else None))"

definition reviewer_from_filename :: "string \<Rightarrow> string option \<Rightarrow> string option" where
  "reviewer_from_filename name head = map_option fst (parse_verdict_filename name head)"

section \<open>Ordering\<close>

definition ljust6 :: "string \<Rightarrow> string" where
  "ljust6 s = s @ replicate (6 - length s) (CHR ''0'')"

text \<open>\<open>_FRACTION\<close>: the one to six digits of the fraction of a \<open>...Z\<close> timestamp.\<close>

definition fraction_of :: "string \<Rightarrow> string option" where
  "fraction_of s0 =
     (let s = drop_last_lf s0; f = drop 20 (butlast s) in
      if list_all2 shape_char ''dddd-dd-ddTdd:dd:dd.'' (take 20 s) \<and> s \<noteq> [] \<and> last s = CHR ''Z''
         \<and> 1 \<le> length f \<and> length f \<le> 6 \<and> list_all is_digit f
      then Some f else None)"

definition or_text :: "string option \<Rightarrow> string \<Rightarrow> string" where
  "or_text x d = (case x of None \<Rightarrow> d | Some s \<Rightarrow> if s = [] then d else s)"

definition canonical_sort_key :: "string option \<Rightarrow> string option \<Rightarrow> string option \<Rightarrow> string" where
  "canonical_sort_key name_ts fm_ts mtime_ts =
     (let base = or_text name_ts (or_text fm_ts (or_text mtime_ts [])) in
      if length base < 19 then []
      else (let second = take 19 base; fm = or_text fm_ts [];
                fraction = (if fm \<noteq> [] \<and> take 19 fm = second
                            then (case fraction_of fm of Some f \<Rightarrow> ljust6 f | None \<Rightarrow> ''000000'') else ''000000'')
            in second @ ''.'' @ fraction @ ''Z''))"

definition content_digest :: "(string \<Rightarrow> string) \<Rightarrow> string option \<Rightarrow> string" where
  "content_digest sha256 raw = take 16 (sha256 (or_text raw []))"

section \<open>Verdicts\<close>

definition APPROVE_TOKENS :: "string list" where
  "APPROVE_TOKENS = [''approve'', ''approved'', ''lgtm'']"

definition CHANGES_TOKENS :: "string list" where
  "CHANGES_TOKENS = [''changes'', ''request-changes'', ''reject'', ''rejected'']"

definition accepted_vocabulary :: string where
  "accepted_vocabulary = join ''|'' (sort APPROVE_TOKENS) @ '' (approve) / '' @ join ''|'' (sort CHANGES_TOKENS) @ '' (changes)''"

datatype verdict = Approve | Changes

text \<open>\<open>(v or "").strip()\<close> raises for a true value that is not a text.\<close>

definition normalize_verdict :: "json \<Rightarrow> string + verdict option" where
  "normalize_verdict v =
     (case v of
        JStr t \<Rightarrow> (let s = lower (strip t) in
          Inr (if s \<in> set APPROVE_TOKENS then Some Approve else if s \<in> set CHANGES_TOKENS then Some Changes else None))
      | _ \<Rightarrow> if truthy v then Inl ''AttributeError'' else Inr None)"

definition verdict_of :: "json \<Rightarrow> verdict option" where
  "verdict_of v = (case normalize_verdict v of Inr x \<Rightarrow> x | Inl _ \<Rightarrow> None)"

section \<open>Supersession and the fold\<close>

record shard =
  sh_reviewer :: string
  sh_name :: string
  sh_verdict :: json
  sh_supersedes :: "string list"
  sh_digest :: string
  sh_mtime :: string
  sh_key :: string

text \<open>The dictionary of a reviewer's shards by name: the last one of a name counts.\<close>

definition target_of :: "shard list \<Rightarrow> string \<Rightarrow> shard option" where
  "target_of shards name = find (\<lambda>r. sh_name r = name) (rev shards)"

definition digest_ok :: "string \<Rightarrow> shard \<Rightarrow> bool" where
  "digest_ok token target \<longleftrightarrow> token = [] \<or> token = ''sha256:'' @ sh_digest target"

definition resolves :: "shard \<Rightarrow> string \<Rightarrow> shard list \<Rightarrow> string option \<times> string" where
  "resolves source entry shards =
     (case partition_char (CHR ''@'') entry of (name, _, token) \<Rightarrow>
        if name = sh_name source then (None, ''self-link'')
        else (case target_of shards name of
                None \<Rightarrow> (None, ''resolves nothing'')
              | Some target \<Rightarrow>
                  if \<not> digest_ok token target then (None, ''digest mismatch'')
                  else if sh_mtime target \<noteq> [] \<and> sh_mtime source \<noteq> [] \<and> sh_mtime target < sh_mtime source
                  then (Some name, ''ok'') else (None, ''no causal proof'')))"

definition resolved_names :: "shard list \<Rightarrow> string list" where
  "resolved_names shards =
     concat (map (\<lambda>r. List.map_filter (\<lambda>e. fst (resolves r e shards)) (sh_supersedes r)) shards)"

definition live_shards :: "shard list \<Rightarrow> shard list" where
  "live_shards shards =
     (let live = filter (\<lambda>r. sh_name r \<notin> set (resolved_names shards)) shards in
      if live = [] then shards else live)"

text \<open>\<open>max\<close> returns the first of the largest elements.\<close>

fun first_max :: "('a \<Rightarrow> 'k::linorder) \<Rightarrow> 'a \<Rightarrow> 'a list \<Rightarrow> 'a" where
  "first_max f x [] = x"
| "first_max f x (y # ys) = first_max f (if f x < f y then y else x) ys"

definition shard_key :: "shard \<Rightarrow> string \<times> string" where
  "shard_key r = (sh_key r, sh_name r)"

definition pool :: "shard list \<Rightarrow> shard list" where
  "pool shards =
     (let blocking = filter (\<lambda>r. verdict_of (sh_verdict r) = Some Changes) (live_shards shards) in
      if blocking = [] then live_shards shards else blocking)"

definition winner :: "shard list \<Rightarrow> shard" where
  "winner shards = first_max shard_key (hd (pool shards)) (tl (pool shards))"

definition shards_of :: "string \<Rightarrow> shard list \<Rightarrow> shard list" where
  "shards_of reviewer rows = filter (\<lambda>r. sh_reviewer r = reviewer) rows"

definition reviewers :: "shard list \<Rightarrow> string list" where
  "reviewers rows = sorted_set (map sh_reviewer rows)"

text \<open>Normalising the verdict of a live shard may raise, and the fold with it.\<close>

definition fold_newest_per_reviewer :: "shard list \<Rightarrow> string + (shard list \<times> nat)" where
  "fold_newest_per_reviewer rows =
     (if list_ex (\<lambda>rv. list_ex (\<lambda>r. normalize_verdict (sh_verdict r) = Inl ''AttributeError'')
                       (live_shards (shards_of rv rows))) (reviewers rows)
      then Inl ''AttributeError''
      else Inr (map (\<lambda>rv. winner (shards_of rv rows)) (reviewers rows), length rows - length (reviewers rows)))"

definition invalid_supersession_edges :: "shard list \<Rightarrow> (string \<times> string \<times> string) list" where
  "invalid_supersession_edges rows =
     concat (map (\<lambda>r. List.map_filter (\<lambda>e. case resolves r e (shards_of (sh_reviewer r) rows) of
         (None, why) \<Rightarrow> Some (sh_name r, e, why) | (Some _, _) \<Rightarrow> None) (sh_supersedes r)) rows)"

section \<open>The tally\<close>

datatype tstate = APPROVED | CHANGES | PENDING

record tally =
  ta_state :: tstate
  ta_approvals :: "string list"
  ta_changes :: "string list"
  ta_required :: "string list"
  ta_pending :: "string list"

text \<open>The last recognised verdict of each named reviewer, in the order of their first one.\<close>

definition by_reviewer :: "(string \<times> verdict option) list \<Rightarrow> (string \<times> verdict) list" where
  "by_reviewer vs =
     fold (\<lambda>(who, v) d. case v of None \<Rightarrow> d | Some x \<Rightarrow> if who = [] then d else dict_set who x d) vs []"

definition voted :: "verdict \<Rightarrow> (string \<times> verdict) list \<Rightarrow> string list" where
  "voted v d = map fst (filter (\<lambda>p. snd p = v) d)"

definition tally_of :: "(string \<times> verdict option) list \<Rightarrow> string list option \<Rightarrow> tally" where
  "tally_of vs required =
     (let d = by_reviewer vs; req = (case required of None \<Rightarrow> [] | Some rs \<Rightarrow> rs);
          approvals = voted Approve d; changes = voted Changes d in
      \<lparr>ta_state = (if changes \<noteq> [] then CHANGES
                   else if approvals \<noteq> [] \<and> list_all (\<lambda>r. r \<in> set approvals) req then APPROVED else PENDING),
       ta_approvals = sort approvals, ta_changes = sort changes, ta_required = req,
       ta_pending = sort (filter (\<lambda>r. r \<notin> fst ` set d) req)\<rparr>)"

definition is_pending_for :: "string list \<Rightarrow> string \<Rightarrow> (string \<times> string list) list \<Rightarrow> bool" where
  "is_pending_for pending agent holders =
     list_ex (\<lambda>r. r = agent \<or> agent \<in> set (case map_of holders r of None \<Rightarrow> [] | Some hs \<Rightarrow> hs)) pending"

definition is_settleable :: "tally \<Rightarrow> bool" where
  "is_settleable t \<longleftrightarrow> ta_state t = APPROVED \<and> ta_pending t = [] \<and> ta_required t \<noteq> []"

section \<open>The settled marker\<close>

definition md_names :: "string list \<Rightarrow> string list" where
  "md_names names = filter (\<lambda>n. endswith n ''.md'') names"

definition evidence_digest :: "(string \<Rightarrow> string) \<Rightarrow> string list \<Rightarrow> string" where
  "evidence_digest sha1 names = take 16 (sha1 (join nl (sort (md_names names))))"

definition evidence_is_immutable :: "string list \<Rightarrow> bool" where
  "evidence_is_immutable names \<longleftrightarrow>
     md_names names \<noteq> [] \<and> list_all (\<lambda>n. find_suffix (take (length n - 3) n) \<noteq> None) (md_names names)"

datatype settle = SETTLE_NO | SETTLE_CACHE | SETTLE_MERGED

definition settle_shortcircuit :: "(string \<Rightarrow> string) \<Rightarrow> (string \<times> json) list option \<Rightarrow> string list \<Rightarrow> settle" where
  "settle_shortcircuit sha1 marker names =
     (let fm = (case marker of None \<Rightarrow> [] | Some d \<Rightarrow> d);
          st = str_or [] (map_of fm ''state''); stamped = str_or [] (map_of fm ''evidence'') in
      if st = ''MERGED'' then SETTLE_MERGED
      else if st \<noteq> ''APPROVED'' then SETTLE_NO
      else if stamped = [] \<or> \<not> evidence_is_immutable names then SETTLE_NO
      else if stamped = evidence_digest sha1 names then SETTLE_CACHE else SETTLE_NO)"

definition settled_marker_fields :: "string \<Rightarrow> string \<Rightarrow> string option \<Rightarrow> string option \<Rightarrow> string option
    \<Rightarrow> (string \<times> json) list" where
  "settled_marker_fields st ts evidence merge_sha tally_json =
     [(''schema'', JStr ''review-settled/v1''), (''state'', JStr st), (''ts'', JStr ts)]
     @ (if or_text merge_sha [] \<noteq> [] then [(''merge_sha'', JStr (or_text merge_sha []))]
        else [(''evidence'', JStr (or_text evidence []))])
     @ (case tally_json of None \<Rightarrow> [] | Some j \<Rightarrow> [(''tally_json'', JStr j)])"

section \<open>Reading the shards of a review (cli.py)\<close>

record 'w rtrans =
  rt_read :: "string \<Rightarrow> 'w \<Rightarrow> string option \<times> 'w"
  rt_list :: "string \<Rightarrow> 'w \<Rightarrow> entry list option \<times> 'w"

record hashes =
  h_sha1 :: "string \<Rightarrow> string"
  h_sha256 :: "string \<Rightarrow> string"
  h_mtime_iso :: "string \<Rightarrow> string option"

definition verdicts_prefix :: "string \<Rightarrow> string \<Rightarrow> string" where
  "verdicts_prefix team slug = ''team/'' @ team @ ''/review/'' @ slug @ ''/verdicts/''"

definition review_doc_path :: "string \<Rightarrow> string \<Rightarrow> string" where
  "review_doc_path team slug = ''team/'' @ team @ ''/review/'' @ slug @ ''.md''"

definition is_unattributable :: "string \<Rightarrow> bool \<Rightarrow> bool" where
  "is_unattributable name keyed =
     (let stem = (if endswith name ''.md'' then take (length name - 3) name else name) in
      case partition_at stem ''--'' of (head, found, _) \<Rightarrow>
        found \<and> (\<not> keyed \<or> normalize_head (JStr head) = None))"

text \<open>\<open>required\<close>: a comma-separated text, a list, or a value that is used as it is.\<close>

definition required_of :: "json \<Rightarrow> string + string list option" where
  "required_of v =
     (case v of
        JStr s \<Rightarrow> Inr (Some (map strip (filter (\<lambda>r. strip r \<noteq> []) (split_on (CHR '','') s))))
      | JArr xs \<Rightarrow> Inr (Some (filter (\<lambda>r. r \<noteq> []) (map (\<lambda>x. strip (str_of x)) xs)))
      | JObj d \<Rightarrow> Inr (Some (map fst d))
      | _ \<Rightarrow> if truthy v then Inl ''TypeError'' else Inr None)"

definition supersedes_of :: "json \<Rightarrow> string + string list" where
  "supersedes_of v =
     (case v of JArr xs \<Rightarrow> Inr (map str_of xs)
      | JBool True \<Rightarrow> Inl ''TypeError'' | JNum n \<Rightarrow> if n = 0 then Inr [] else Inl ''TypeError''
      | _ \<Rightarrow> Inr [])"

definition mtime_iso :: "hashes \<Rightarrow> entry \<Rightarrow> string option" where
  "mtime_iso H e = (case en_mtime e of None \<Rightarrow> None | Some m \<Rightarrow> h_mtime_iso H m)"

record scan =
  sc_rows :: "shard list"
  sc_unattributable :: "string list"
  sc_unrecognised :: "(string \<times> string) list"
  sc_mismatched :: "(string \<times> string) list"
  sc_reads_ok :: bool
  sc_scanned :: bool

definition scan0 :: scan where
  "scan0 = \<lparr>sc_rows = [], sc_unattributable = [], sc_unrecognised = [], sc_mismatched = [], sc_reads_ok = True,
     sc_scanned = True\<rparr>"

text \<open>One shard that was read: a row, or a vote for another head.\<close>

definition add_shard :: "hashes \<Rightarrow> string option \<Rightarrow> entry \<Rightarrow> string \<times> string option \<Rightarrow> string option \<Rightarrow> scan
    \<Rightarrow> string + scan" where
  "add_shard H head e parsed raw a0 =
     (let a = (if raw = None then a0\<lparr>sc_reads_ok := False\<rparr> else a0);
          fm = (case parse_frontmatter raw of None \<Rightarrow> [] | Some d \<Rightarrow> d); n = en_name e in
      if head \<noteq> None \<and> normalize_head (jget fm ''head'') \<noteq> head
      then Inr (a\<lparr>sc_mismatched := sc_mismatched a @ [(n, get_text (jget fm ''head''))]\<rparr>)
      else (let token = jget fm ''verdict'' in
        res_bind (normalize_verdict token) (\<lambda>nv.
        res_bind (supersedes_of (jget fm ''supersedes'')) (\<lambda>sup.
          Inr (a\<lparr>sc_unrecognised := sc_unrecognised a @ (if token \<noteq> JNull \<and> nv = None then [(n, str_of token)] else []),
                 sc_rows := sc_rows a @ [\<lparr>sh_reviewer = fst parsed, sh_name = n, sh_verdict = token,
                    sh_supersedes = sup, sh_digest = content_digest (h_sha256 H) raw,
                    sh_mtime = or_text (mtime_iso H e) [],
                    sh_key = canonical_sort_key (snd parsed) (Some (get_text (jget fm ''ts''))) (mtime_iso H e)\<rparr>]\<rparr>)))))"

fun scan_shards :: "hashes \<Rightarrow> 'w clock \<Rightarrow> 'w rtrans \<Rightarrow> string \<Rightarrow> string option \<Rightarrow> deadline \<Rightarrow> entry list \<Rightarrow> scan
    \<Rightarrow> 'w \<Rightarrow> (string + scan) \<times> 'w" where
  "scan_shards H clock tr prefx head dl [] a w = (Inr a, w)"
| "scan_shards H clock tr prefx head dl (e # es) a w =
     (if en_dir e \<or> \<not> endswith (en_name e) ''.md'' then scan_shards H clock tr prefx head dl es a w
      else (case parse_verdict_filename (en_name e) head of
        None \<Rightarrow> scan_shards H clock tr prefx head dl es
                 (if is_unattributable (en_name e) (head \<noteq> None)
                  then a\<lparr>sc_unattributable := sc_unattributable a @ [en_name e]\<rparr> else a) w
      | Some parsed \<Rightarrow>
          (case expired clock dl w of (late, w1) \<Rightarrow>
             if late then (Inr (a\<lparr>sc_scanned := False\<rparr>), w1)
             else (case rt_read tr (prefx @ en_name e) w1 of (raw, w2) \<Rightarrow>
               (case expired clock dl w2 of (late, w3) \<Rightarrow>
                  if late then (Inr (a\<lparr>sc_scanned := False\<rparr>), w3)
                  else (case add_shard H head e parsed raw a of
                          Inl exc \<Rightarrow> (Inl exc, w3)
                        | Inr a' \<Rightarrow> scan_shards H clock tr prefx head dl es a' w3))))))"

record review = tally +
  rv_winning :: "(string \<times> string \<times> verdict option \<times> string) list"
  rv_bad_edges :: "(string \<times> string \<times> string) list"
  rv_evidence :: string
  rv_superseded :: nat
  rv_unattributable :: "string list"
  rv_unrecognised :: "(string \<times> string) list"
  rv_mismatched :: "(string \<times> string) list"
  rv_of :: "string option"
  rv_head :: "string option"
  rv_round :: "int option"

definition round_of :: "json \<Rightarrow> int" where
  "round_of v = (case v of JStr s \<Rightarrow> (case py_int s of None \<Rightarrow> 1 | Some n \<Rightarrow> if s = [] then 1 else max 1 n)
     | JNum n \<Rightarrow> max 1 n | _ \<Rightarrow> 1)"

definition review_of :: "hashes \<Rightarrow> (string \<times> json) list \<Rightarrow> string option \<Rightarrow> string list option \<Rightarrow> string list \<Rightarrow> scan
    \<Rightarrow> string + review" where
  "review_of H req_doc head required names a =
     res_bind (fold_newest_per_reviewer (sc_rows a)) (\<lambda>(kept, folded).
       (let t = tally_of (map (\<lambda>r. (sh_reviewer r, verdict_of (sh_verdict r))) kept) required in
        Inr \<lparr>ta_state = ta_state t, ta_approvals = ta_approvals t, ta_changes = ta_changes t,
             ta_required = ta_required t, ta_pending = ta_pending t,
             rv_winning = map (\<lambda>r. (sh_reviewer r, sh_name r, verdict_of (sh_verdict r), sh_key r)) kept,
             rv_bad_edges = invalid_supersession_edges (sc_rows a),
             rv_evidence = (if evidence_is_immutable names then evidence_digest (h_sha1 H) names else []),
             rv_superseded = folded, rv_unattributable = sort (sc_unattributable a),
             rv_unrecognised = sort (sc_unrecognised a), rv_mismatched = sort (sc_mismatched a),
             rv_of = (if truthy (jget req_doc ''of'') then Some (str_of (jget req_doc ''of'')) else None),
             rv_head = head, rv_round = (case head of None \<Rightarrow> None | Some _ \<Rightarrow> Some (round_of (jget req_doc ''round'')))\<rparr>))"

definition tally_from_verdict_entries :: "hashes \<Rightarrow> 'w clock \<Rightarrow> 'w rtrans \<Rightarrow> string \<Rightarrow> string \<Rightarrow> entry list
    \<Rightarrow> string option \<Rightarrow> rat option \<Rightarrow> 'w \<Rightarrow> (string + (review \<times> bool \<times> bool)) \<times> 'w" where
  "tally_from_verdict_entries H clock tr team slug entries doc_raw dl w =
     (let req_doc = (case parse_frontmatter doc_raw of None \<Rightarrow> [] | Some d \<Rightarrow> d);
          head = normalize_head (jget req_doc ''head'') in
      case scan_shards H clock tr (verdicts_prefix team slug) head (bare_deadline dl) entries scan0 w of
        (Inl exc, w') \<Rightarrow> (Inl exc, w')
      | (Inr a, w') \<Rightarrow>
          (res_bind (required_of (jget req_doc ''required'')) (\<lambda>required.
           res_bind (review_of H req_doc head required (map en_name entries) a) (\<lambda>t.
             Inr (t, sc_reads_ok a, sc_scanned a))), w'))"

definition review_tally :: "hashes \<Rightarrow> 'w clock \<Rightarrow> 'w rtrans \<Rightarrow> string \<Rightarrow> string \<Rightarrow> 'w
    \<Rightarrow> (string + (review \<times> bool \<times> bool \<times> bool)) \<times> 'w" where
  "review_tally H clock tr team slug w =
     (case rt_read tr (review_doc_path team slug) w of (raw, w1) \<Rightarrow>
        (case rt_list tr (verdicts_prefix team slug) w1 of (listing, w2) \<Rightarrow>
           (case tally_from_verdict_entries H clock tr team slug (case listing of None \<Rightarrow> [] | Some es \<Rightarrow> es) raw None w2 of
              (Inl exc, w3) \<Rightarrow> (Inl exc, w3)
            | (Inr (t, vok, _), w3) \<Rightarrow> (Inr (t, raw \<noteq> None, vok, listing \<noteq> None), w3))))"

end
