(* ===== verification/Review_Props.thy ===== *)
theory Review_Props
  imports Review Okf_Props
begin

text \<open>
  File names of verdicts, the order of shards, the dominance of an unresolved CHANGES, what an
  approval means, and the binding of the settled cache to its evidence.
\<close>

section \<open>Verdict file names\<close>

definition digest_shape :: "string \<Rightarrow> bool" where
  "digest_shape d \<longleftrightarrow> 6 \<le> length d \<and> length d \<le> 16 \<and> list_all is_hex d"

lemma is_ts_length: "is_ts s \<Longrightarrow> length s = 20"
  by (auto simp: is_ts_def ts_shape_def dest: list_all2_lengthD)

lemma hex_not_special: "is_hex c \<Longrightarrow> c \<noteq> CHR 0x0A \<and> c \<noteq> CHR ''-''"
  by (auto simp: is_hex_def)

lemma drop_last_lf_hex: "d \<noteq> [] \<Longrightarrow> is_hex (last d) \<Longrightarrow> drop_last_lf d = d"
  using hex_not_special by (auto simp: drop_last_lf_def)

lemma digest_last: "digest_shape d \<Longrightarrow> d \<noteq> [] \<and> is_hex (last d)"
proof -
  assume d: "digest_shape d"
  then have "d \<noteq> []" by (auto simp: digest_shape_def)
  with d show ?thesis by (simp add: digest_shape_def list_all_iff)
qed

lemma suffix_here:
  assumes "is_ts ts" "digest_shape d"
  shows "suffix_at (''--'' @ ts @ ''-'' @ d) = Some ts"
proof -
  have l: "length ts = 20" by (rule is_ts_length [OF assms(1)])
  from digest_last [OF assms(2)] have "d \<noteq> []" and "is_hex (last d)" by simp_all
  with assms l drop_last_lf_hex [of d] show ?thesis
    by (simp add: suffix_at_def startswith_def digest_shape_def numeral_eq_Suc Let_def)
qed

lemma suffix_not_before:
  assumes "is_ts ts" "digest_shape d" "u \<noteq> []"
  shows "suffix_at (u @ ''--'' @ ts @ ''-'' @ d) = None"
proof -
  define s where "s = u @ ''--'' @ ts @ ''-'' @ d"
  have l: "length ts = 20" by (rule is_ts_length [OF assms(1)])
  from digest_last [OF assms(2)] have d: "d \<noteq> []" "is_hex (last d)" by simp_all
  define A where "A = u @ ''--'' @ ts"
  have "length A \<ge> 23" using assms(3) l by (cases u) (simp_all add: A_def)
  moreover have "s = A @ ''-'' @ d" by (simp add: s_def A_def)
  ultimately have "drop 23 s = drop 23 A @ ''-'' @ d" by simp
  then have "CHR ''-'' \<in> set (drop 23 s)" "drop 23 s \<noteq> []" "last (drop 23 s) = last d"
    using d(1) by auto
  with drop_last_lf_hex [of "drop 23 s"] d(2) have "\<not> list_all is_hex (drop_last_lf (drop 23 s))"
    using hex_not_special by (auto simp: list_all_iff)
  then show ?thesis unfolding s_def [symmetric] suffix_at_def Let_def by simp
qed

lemma find_suffix_append:
  assumes "is_ts ts" "digest_shape d"
  shows "find_suffix (u @ ''--'' @ ts @ ''-'' @ d) = Some (u, ts)"
proof (induction u)
  case Nil
  then show ?case using suffix_here [OF assms] by simp
next
  case (Cons c u)
  then show ?case using suffix_not_before [OF assms, of "c # u"] by simp
qed

lemma parse_stem:
  assumes "head \<noteq> []" "rest \<noteq> []" "name = (head @ ''--'' @ rest) @ ''.md''"
  shows "parse_verdict_filename name (Some head) =
    (case find_suffix rest of Some (rv, ts) \<Rightarrow> if rv = [] then None else Some (rv, Some ts) | None \<Rightarrow> Some (rest, None))"
proof -
  define stem where "stem = head @ ''--'' @ rest"
  have name: "name = stem @ ''.md''" using assms(3) unfolding stem_def .
  have n: "endswith name ''.md''" "take (length name - 3) name = stem"
    using endswith_append [of stem "''.md''"] by (simp_all add: name)
  have p: "startswith stem (head @ ''--'')" "drop (length (head @ ''--'')) stem = rest"
    using startswith_append [of "head @ ''--''" rest] by (simp_all add: stem_def)
  obtain h hs where h: "head = h # hs" using assms(1) by (cases head) auto
  show ?thesis using p assms(2) unfolding parse_verdict_filename_def n(2) h by (simp add: n(1) Let_def)
qed

text \<open>A verdict file name gives back its reviewer: for every head and every non-empty reviewer, the
  append-only name of a verdict parses under that head to the reviewer and the timestamp, however
  many dashes the reviewer's name has; so a verdict is never attributed to somebody else.\<close>

theorem verdict_filename_roundtrip:
  assumes "head \<noteq> []" "reviewer \<noteq> []" "is_ts ts" "digest_shape d"
  shows "parse_verdict_filename (verdict_filename reviewer (Some head) (Some ts) (Some d)) (Some head)
    = Some (reviewer, Some ts)"
proof -
  obtain h hs where head: "head = h # hs" using assms(1) by (cases head) auto
  have tn: "ts \<noteq> []" "d \<noteq> []" using is_ts_length [OF assms(3)] digest_last [OF assms(4)] by auto
  have "verdict_filename reviewer (Some head) (Some ts) (Some d)
      = (head @ ''--'' @ reviewer @ ''--'' @ ts @ ''-'' @ d) @ ''.md''"
    using tn by (cases ts; cases d) (simp_all add: verdict_filename_def head)
  with parse_stem [OF assms(1), of "reviewer @ ''--'' @ ts @ ''-'' @ d"] find_suffix_append [OF assms(3,4), of reviewer] assms(2)
  show ?thesis by simp
qed

lemma verdict_filename_roundtrip_witness:
  "parse_verdict_filename ''abc--code--bot--2026-01-01T00:00:00Z-feb86aee.md'' (Some ''abc'')
     = Some (''code--bot'', Some ''2026-01-01T00:00:00Z'')"
  using verdict_filename_roundtrip [of "''abc''" "''code--bot''" "''2026-01-01T00:00:00Z''" "''feb86aee''"]
  by (simp add: is_ts_def ts_shape_def shape_char_def is_digit_def digest_shape_def is_hex_def verdict_filename_def)

section \<open>The order of shards\<close>

lemma less_append_same_length:
  fixes a b :: "'a::linorder list"
  shows "a < b \<Longrightarrow> length a = length b \<Longrightarrow> a @ x < b @ y"
proof (induction a arbitrary: b)
  case (Cons c a)
  then show ?case by (cases b) auto
qed auto

lemma fraction_length: "fraction_of s = Some f \<Longrightarrow> length (ljust6 f) = 6"
  by (auto simp: fraction_of_def ljust6_def Let_def split: if_splits)

lemma canonical_named:
  assumes "19 \<le> length n"
  shows "\<exists>f. canonical_sort_key (Some n) fm mt = take 19 n @ ''.'' @ f @ ''Z'' \<and> length f = 6"
proof -
  from assms have "n \<noteq> []" by auto
  with assms show ?thesis
    using fraction_length by (fastforce simp: canonical_sort_key_def or_text_def Let_def split: option.splits)
qed

text \<open>The file name decides the second: of two shards whose names carry different seconds, the one
  with the later name has the larger ordering key, whatever times their front matter and the
  listing claim; and every key of a named shard has the same length, so keys of different
  precision never meet.\<close>

theorem name_decides_the_second:
  assumes "19 \<le> length n1" "19 \<le> length n2" "take 19 n1 < take 19 n2"
  shows "canonical_sort_key (Some n1) fm1 mt1 < canonical_sort_key (Some n2) fm2 mt2
    \<and> length (canonical_sort_key (Some n1) fm1 mt1) = 27"
proof -
  obtain f1 where f1: "canonical_sort_key (Some n1) fm1 mt1 = take 19 n1 @ ''.'' @ f1 @ ''Z''" "length f1 = 6"
    using canonical_named [OF assms(1)] by blast
  obtain f2 where f2: "canonical_sort_key (Some n2) fm2 mt2 = take 19 n2 @ ''.'' @ f2 @ ''Z''"
    using canonical_named [OF assms(2)] by blast
  have "length (take 19 n1) = length (take 19 n2)" using assms(1,2) by simp
  with f1 f2 assms less_append_same_length [OF assms(3)] show ?thesis by simp
qed

lemma name_decides_the_second_witness:
  "canonical_sort_key (Some ''2026-01-01T00:00:00Z'') (Some ''2027-01-01T00:00:00.5Z'') None
     < canonical_sort_key (Some ''2026-01-01T00:00:01Z'') None None"
  using name_decides_the_second [of "''2026-01-01T00:00:00Z''" "''2026-01-01T00:00:01Z''"
      "Some ''2027-01-01T00:00:00.5Z''" None None None]
  by (simp add: numeral_eq_Suc)

section \<open>Supersession\<close>

text \<open>What it takes to resolve a shard: a quote of its name by another shard, with its current digest
  where one is quoted, that the store dates strictly later.\<close>

definition proves :: "shard \<Rightarrow> string \<Rightarrow> shard \<Rightarrow> bool" where
  "proves source entry target \<longleftrightarrow>
     (case partition_char (CHR ''@'') entry of (name, _, token) \<Rightarrow>
        name = sh_name target \<and> sh_name source \<noteq> sh_name target \<and> digest_ok token target
        \<and> sh_mtime target \<noteq> [] \<and> sh_mtime source \<noteq> [] \<and> sh_mtime target < sh_mtime source)"

lemma target_of_in: "target_of shards n = Some t \<Longrightarrow> t \<in> set shards \<and> sh_name t = n"
  unfolding target_of_def by (metis (mono_tags, lifting) find_Some_iff nth_mem set_rev)

lemma resolves_proves:
  assumes "fst (resolves r e shards) = Some n"
  shows "\<exists>t \<in> set shards. sh_name t = n \<and> proves r e t"
proof -
  obtain nm x tok where e: "partition_char (CHR ''@'') e = (nm, x, tok)" by (metis prod_cases3)
  with assms obtain t where t: "target_of shards nm = Some t" "nm = n" "nm \<noteq> sh_name r" "digest_ok tok t"
    "sh_mtime t \<noteq> []" "sh_mtime r \<noteq> []" "sh_mtime t < sh_mtime r"
    by (auto simp: resolves_def split: if_splits option.splits)
  with target_of_in [OF t(1)] e show ?thesis by (auto simp: proves_def)
qed

lemma first_max_in: "first_max f x ys \<in> insert x (set ys)"
  by (induction f x ys rule: first_max.induct) auto

lemma first_max_max: "y \<in> insert x (set ys) \<Longrightarrow> f y \<le> f (first_max f x ys)"
proof (induction f x ys arbitrary: y rule: first_max.induct)
  case (2 f x z zs)
  have "f x \<le> f (first_max f (if f x < f z then z else x) zs)" "f z \<le> f (first_max f (if f x < f z then z else x) zs)"
    using 2(1) [of "if f x < f z then z else x"] by (auto split: if_splits)
  with 2 show ?case by auto
qed simp

lemma live_nonempty: "shards \<noteq> [] \<Longrightarrow> live_shards shards \<noteq> []"
  by (simp add: live_shards_def Let_def)

lemma live_subset: "set (live_shards shards) \<subseteq> set shards"
  by (auto simp: live_shards_def Let_def)

lemma pool_nonempty: "shards \<noteq> [] \<Longrightarrow> pool shards \<noteq> []"
  by (simp add: pool_def Let_def live_nonempty)

lemma winner_in_pool: "shards \<noteq> [] \<Longrightarrow> winner shards \<in> set (pool shards)"
  using pool_nonempty [of shards] first_max_in [of shard_key "hd (pool shards)" "tl (pool shards)"]
  by (cases "pool shards") (auto simp: winner_def)

lemma pool_live: "set (pool shards) \<subseteq> set (live_shards shards)"
  by (auto simp: pool_def Let_def)

lemma winner_live: "shards \<noteq> [] \<Longrightarrow> winner shards \<in> set (live_shards shards)"
  using winner_in_pool pool_live by blast

lemma winner_changes:
  assumes "c \<in> set (live_shards shards)" "verdict_of (sh_verdict c) = Some Changes"
  shows "verdict_of (sh_verdict (winner shards)) = Some Changes"
proof -
  have "c \<in> set (filter (\<lambda>r. verdict_of (sh_verdict r) = Some Changes) (live_shards shards))"
    using assms by simp
  then have p: "pool shards = filter (\<lambda>r. verdict_of (sh_verdict r) = Some Changes) (live_shards shards)"
    by (auto simp: pool_def Let_def filter_empty_conv)
  have "shards \<noteq> []" using assms(1) live_subset by fastforce
  with winner_in_pool [of shards] p show ?thesis by auto
qed

lemma shards_of_simps: "r \<in> set (shards_of rv rows) \<longleftrightarrow> r \<in> set rows \<and> sh_reviewer r = rv"
  by (auto simp: shards_of_def)

lemma reviewers_shards: "rv \<in> set (reviewers rows) \<longleftrightarrow> shards_of rv rows \<noteq> []"
  by (auto simp: reviewers_def shards_of_def filter_empty_conv image_iff)

lemma winner_reviewer: "rv \<in> set (reviewers rows) \<Longrightarrow> sh_reviewer (winner (shards_of rv rows)) = rv"
  using winner_live [of "shards_of rv rows"] live_subset shards_of_simps reviewers_shards by blast

lemma fold_kept:
  assumes "fold_newest_per_reviewer rows = Inr (kept, folded)"
  shows "kept = map (\<lambda>rv. winner (shards_of rv rows)) (reviewers rows)"
  using assms by (auto simp: fold_newest_per_reviewer_def split: if_splits)

section \<open>The tally of the kept shards\<close>

definition votes :: "shard list \<Rightarrow> (string \<times> verdict option) list" where
  "votes kept = map (\<lambda>r. (sh_reviewer r, verdict_of (sh_verdict r))) kept"

lemma by_reviewer_map:
  "distinct (map fst vs) \<Longrightarrow> map_of (by_reviewer vs) who =
     (if who = [] then None else (case map_of vs who of None \<Rightarrow> None | Some v \<Rightarrow> v))"
proof -
  have G: "distinct (map fst vs) \<Longrightarrow> map_of (fold (\<lambda>(who, v) d. case v of None \<Rightarrow> d | Some x \<Rightarrow> if who = [] then d else dict_set who x d) vs d) who =
     (if who = [] then map_of d who else (case map_of vs who of None \<Rightarrow> map_of d who | Some None \<Rightarrow> map_of d who | Some (Some v) \<Rightarrow> Some v))" for d
  proof (induction vs arbitrary: d)
    case (Cons p vs)
    obtain a v where p: "p = (a, v)" by (cases p)
    from Cons.prems p have "map_of vs a = None" by (auto simp: map_of_eq_None_iff)
    with Cons p show ?case by (auto split: option.splits)
  qed simp
  assume "distinct (map fst vs)"
  from G [OF this, of "[]"] show ?thesis by (auto simp: by_reviewer_def split: option.splits)
qed

lemma dict_ok_by_reviewer: "dict_ok (by_reviewer vs)"
proof -
  have "dict_ok d \<Longrightarrow> dict_ok (fold (\<lambda>(who, v) d. case v of None \<Rightarrow> d | Some x \<Rightarrow> if who = [] then d else dict_set who x d) vs d)" for d
    by (induction vs arbitrary: d) (auto split: option.splits)
  then show ?thesis by (simp add: by_reviewer_def)
qed

lemma in_voted: "who \<in> set (voted v (by_reviewer vs)) \<longleftrightarrow> map_of (by_reviewer vs) who = Some v"
  using dict_mem_map_of [OF dict_ok_by_reviewer] by (force simp: voted_def)

lemma votes_names: "map fst (votes (map (\<lambda>rv. winner (shards_of rv rows)) (reviewers rows))) = reviewers rows"
  by (simp add: votes_def comp_def winner_reviewer map_idI)

lemma votes_distinct: "distinct (map fst (votes (map (\<lambda>rv. winner (shards_of rv rows)) (reviewers rows))))"
  unfolding votes_names by (simp add: reviewers_def)

lemma votes_winner:
  assumes "rv \<in> set (reviewers rows)"
  shows "map_of (votes (map (\<lambda>rv. winner (shards_of rv rows)) (reviewers rows))) rv
    = Some (verdict_of (sh_verdict (winner (shards_of rv rows))))"
proof -
  let ?w = "winner (shards_of rv rows)"
  have "(sh_reviewer ?w, verdict_of (sh_verdict ?w)) \<in> set (votes (map (\<lambda>rv. winner (shards_of rv rows)) (reviewers rows)))"
    using assms unfolding votes_def set_map by blast
  with votes_distinct winner_reviewer [OF assms] show ?thesis by simp
qed

lemma winner_vote:
  assumes "rv \<in> set (reviewers rows)" "rv \<noteq> []" "kept = map (\<lambda>rv. winner (shards_of rv rows)) (reviewers rows)"
  shows "rv \<in> set (voted v (by_reviewer (votes kept))) \<longleftrightarrow> verdict_of (sh_verdict (winner (shards_of rv rows))) = Some v"
  using votes_winner [OF assms(1)] votes_distinct [of rows] assms(2,3) by (simp add: in_voted by_reviewer_map)

lemma voted_reviewer:
  assumes "rv \<in> set (voted v (by_reviewer (votes kept)))" "kept = map (\<lambda>rv. winner (shards_of rv rows)) (reviewers rows)"
  shows "rv \<in> set (reviewers rows) \<and> rv \<noteq> []"
proof -
  have d: "distinct (map fst (votes kept))" using votes_distinct assms(2) by simp
  have "map fst (votes kept) = reviewers rows" using votes_names assms(2) by simp
  moreover from assms(1) d have "rv \<noteq> []" "map_of (votes kept) rv \<noteq> None"
    by (auto simp: in_voted by_reviewer_map split: if_splits option.splits)
  ultimately show ?thesis by (metis map_of_eq_None_iff list.set_map)
qed

text \<open>C6. An unresolved CHANGES blocks the review whatever the verdict timestamps: when a reviewer
  filed CHANGES in a shard, and every entry of another shard of theirs that quotes it by name with
  no digest (a bare legacy name) or with its current digest lacks the proof of order (either store
  time is missing, or the quoting shard is not stored strictly later), the state of the folded
  tally is CHANGES. So a predicted name, a dangling or self-referring link, the digest of a
  rewritten shard and an unproven order all fail to remove it. The reviewer has a name, and the
  shards of the reviewer have distinct file names.\<close>

theorem unresolved_changes_blocks:
  assumes "fold_newest_per_reviewer rows = Inr (kept, folded)" "c \<in> set rows" "sh_reviewer c \<noteq> []"
    and "verdict_of (sh_verdict c) = Some Changes"
    and "distinct (map sh_name (shards_of (sh_reviewer c) rows))"
    and "\<And>r e sep token. r \<in> set rows \<Longrightarrow> sh_reviewer r = sh_reviewer c \<Longrightarrow> sh_name r \<noteq> sh_name c
      \<Longrightarrow> e \<in> set (sh_supersedes r) \<Longrightarrow> partition_char (CHR ''@'') e = (sh_name c, sep, token)
      \<Longrightarrow> token = [] \<or> token = ''sha256:'' @ sh_digest c
      \<Longrightarrow> sh_mtime c = [] \<or> sh_mtime r = [] \<or> \<not> sh_mtime c < sh_mtime r"
  shows "ta_state (tally_of (votes kept) required) = CHANGES"
proof -
  let ?S = "shards_of (sh_reviewer c) rows"
  have cS: "c \<in> set ?S" using assms(2) by (simp add: shards_of_simps)
  have "sh_name c \<notin> set (resolved_names ?S)"
  proof
    assume "sh_name c \<in> set (resolved_names ?S)"
    then obtain r e where re: "r \<in> set ?S" "e \<in> set (sh_supersedes r)" "fst (resolves r e ?S) = Some (sh_name c)"
      by (auto simp: resolved_names_def List.map_filter_def)
    then obtain t where t: "t \<in> set ?S" "sh_name t = sh_name c" "proves r e t" using resolves_proves by blast
    with cS assms(5) have "t = c" by (auto simp: distinct_map dest: inj_onD)
    with t re have p: "r \<in> set rows" "sh_reviewer r = sh_reviewer c" "proves r e c" by (auto simp: shards_of_simps)
    obtain nm sep tok where e: "partition_char (CHR ''@'') e = (nm, sep, tok)" by (metis prod_cases3)
    with p(3) have q: "nm = sh_name c" "sh_name r \<noteq> sh_name c" "tok = [] \<or> tok = ''sha256:'' @ sh_digest c"
      "sh_mtime c \<noteq> []" "sh_mtime r \<noteq> []" "sh_mtime c < sh_mtime r"
      by (auto simp: proves_def digest_ok_def)
    from assms(6) [OF p(1,2) q(2) re(2) _ q(3)] e q show False by auto
  qed
  with cS have live: "c \<in> set (live_shards ?S)" by (auto simp: live_shards_def Let_def)
  have rv: "sh_reviewer c \<in> set (reviewers rows)" using cS reviewers_shards by fastforce
  have "sh_reviewer c \<in> set (voted Changes (by_reviewer (votes kept)))"
    using winner_vote [OF rv assms(3) fold_kept [OF assms(1)]] winner_changes [OF live assms(4)] by simp
  then have "voted Changes (by_reviewer (votes kept)) \<noteq> []" by auto
  then show ?thesis by (simp add: tally_of_def Let_def)
qed

text \<open>C34. An approval rests on live approvals only: when the folded tally is APPROVED, no reviewer has a
  live shard that asks for changes, at least one reviewer approves, and each required reviewer
  has a live approving shard that no live shard of theirs outranks.\<close>

theorem approved_rests_on_live_approvals:
  assumes "fold_newest_per_reviewer rows = Inr (kept, folded)"
    and "ta_state (tally_of (votes kept) (Some required)) = APPROVED"
    and "\<And>r. r \<in> set rows \<Longrightarrow> sh_reviewer r \<noteq> []"
  shows "(\<forall>r \<in> set rows. r \<in> set (live_shards (shards_of (sh_reviewer r) rows)) \<longrightarrow> verdict_of (sh_verdict r) \<noteq> Some Changes)
    \<and> (\<exists>r \<in> set rows. verdict_of (sh_verdict r) = Some Approve)
    \<and> (\<forall>q \<in> set required. \<exists>r \<in> set rows. sh_reviewer r = q \<and> verdict_of (sh_verdict r) = Some Approve
         \<and> r \<in> set (live_shards (shards_of q rows))
         \<and> (\<forall>r' \<in> set (live_shards (shards_of q rows)). shard_key r' \<le> shard_key r))"
proof -
  note k = fold_kept [OF assms(1)]
  from assms(2) have st: "voted Changes (by_reviewer (votes kept)) = []" "voted Approve (by_reviewer (votes kept)) \<noteq> []"
    "set required \<subseteq> set (voted Approve (by_reviewer (votes kept)))"
    by (auto simp: tally_of_def Let_def list_all_iff split: if_splits)
  have no_changes: "verdict_of (sh_verdict r) \<noteq> Some Changes"
    if "r \<in> set (live_shards (shards_of rv rows))" "rv \<in> set (reviewers rows)" "rv \<noteq> []" for r rv
    using winner_changes [OF that(1)] winner_vote [OF that(2,3) k, of Changes] st(1) by auto
  have approving: "\<exists>r \<in> set rows. sh_reviewer r = q \<and> verdict_of (sh_verdict r) = Some Approve
         \<and> r \<in> set (live_shards (shards_of q rows))
         \<and> (\<forall>r' \<in> set (live_shards (shards_of q rows)). shard_key r' \<le> shard_key r)"
    if "q \<in> set (voted Approve (by_reviewer (votes kept)))" for q
  proof -
    from voted_reviewer [OF that k] have q: "q \<in> set (reviewers rows)" "q \<noteq> []" by auto
    let ?S = "shards_of q rows"
    have ne: "?S \<noteq> []" using q(1) reviewers_shards by blast
    have w: "winner ?S \<in> set (live_shards ?S)" by (rule winner_live [OF ne])
    have "\<forall>r \<in> set (live_shards ?S). verdict_of (sh_verdict r) \<noteq> Some Changes" using no_changes q by blast
    then have "filter (\<lambda>r. verdict_of (sh_verdict r) = Some Changes) (live_shards ?S) = []"
      by (simp add: filter_empty_conv)
    then have "pool ?S = live_shards ?S" by (simp add: pool_def Let_def)
    moreover have "live_shards ?S = hd (live_shards ?S) # tl (live_shards ?S)" using live_nonempty [OF ne] by simp
    ultimately have "\<forall>r' \<in> set (live_shards ?S). shard_key r' \<le> shard_key (winner ?S)"
      using first_max_max [of _ "hd (live_shards ?S)" "tl (live_shards ?S)" shard_key]
      unfolding winner_def by (metis insert_iff list.set(2))
    moreover have "winner ?S \<in> set rows" "sh_reviewer (winner ?S) = q"
      using w live_subset shards_of_simps by blast+
    ultimately show ?thesis using w winner_vote [OF q k, of Approve] that by blast
  qed
  have A: "verdict_of (sh_verdict r) \<noteq> Some Changes"
    if "r \<in> set rows" "r \<in> set (live_shards (shards_of (sh_reviewer r) rows))" for r
    using no_changes [OF that(2)] reviewers_shards [of "sh_reviewer r" rows] that assms(3) shards_of_simps
    by (metis empty_iff list.set(1))
  obtain q where "q \<in> set (voted Approve (by_reviewer (votes kept)))" using st(2) by fastforce
  from approving [OF this] have B: "\<exists>r \<in> set rows. verdict_of (sh_verdict r) = Some Approve" by blast
  show ?thesis
  proof (intro conjI)
    show "\<forall>q \<in> set required. \<exists>r \<in> set rows. sh_reviewer r = q \<and> verdict_of (sh_verdict r) = Some Approve
         \<and> r \<in> set (live_shards (shards_of q rows))
         \<and> (\<forall>r' \<in> set (live_shards (shards_of q rows)). shard_key r' \<le> shard_key r)"
      using approving st(3) by (intro ballI) (simp add: subset_iff)
  qed (use A B in simp_all)
qed

section \<open>The settled cache\<close>

text \<open>The settled cache is bound to its evidence: a reader that takes an APPROVED marker at its word
  sees, in the listing it has now, exactly the verdict files the marker was written over, and all
  of them carry append-only names; so a marker written from a stale listing is ignored whenever
  it is written. The hypothesis on the hash says that it does not collide on the two lists of
  names in question.\<close>

theorem cache_bound_to_evidence:
  assumes "settle_shortcircuit sha1 (Some (settled_marker_fields ''APPROVED'' ts (Some (evidence_digest sha1 old)) None tj)) names = SETTLE_CACHE"
    and "list_all one_line old" "list_all one_line names"
    and "evidence_digest sha1 old = evidence_digest sha1 names \<Longrightarrow>
           join nl (sort (md_names old)) = join nl (sort (md_names names))"
  shows "sort (md_names old) = sort (md_names names) \<and> evidence_is_immutable names"
proof -
  have st: "map_of (settled_marker_fields ''APPROVED'' ts (Some (evidence_digest sha1 old)) None tj) ''evidence''
      = Some (JStr (evidence_digest sha1 old))"
    by (auto simp: settled_marker_fields_def or_text_def)
  with assms(1) have e: "evidence_digest sha1 old = evidence_digest sha1 names" and im: "evidence_is_immutable names"
    by (auto simp: settle_shortcircuit_def Let_def settled_marker_fields_def split: if_splits)
  have ol: "splitlines (join nl (sort (md_names ns))) = sort (md_names ns)" if "list_all one_line ns" for ns
  proof -
    have "list_all (\<lambda>l. list_all (\<lambda>c. \<not> is_newline c) l \<and> l \<noteq> []) (sort (md_names ns))"
      using that by (auto simp: list_all_iff md_names_def one_line_def endswith_def)
    then show ?thesis using splitlines_join by (simp add: nl_def)
  qed
  with assms(2,3) assms(4) [OF e] have "sort (md_names old) = sort (md_names names)" by metis
  with im show ?thesis by simp
qed

section \<open>A verdict that stops the tally\<close>

text \<open>
  A shard whose front matter says \<open>verdict: true\<close> (or a list) parses to a value with no
  \<open>strip\<close>: normalising it raises, and the tally of the whole review with it.
\<close>

lemma poison_verdict_raises:
  assumes "parse_frontmatter raw = Some fm" "jget fm ''verdict'' = JBool True" "head = None"
  shows "add_shard H head e parsed raw a = Inl ''AttributeError''"
  using assms by (simp add: add_shard_def normalize_verdict_def Let_def)

section \<open>Witnesses\<close>

definition blocked_shard :: shard where
  "blocked_shard = \<lparr>sh_reviewer = ''ann'', sh_name = ''c.md'', sh_verdict = JStr ''changes'', sh_supersedes = [],
     sh_digest = ''d1'', sh_mtime = ''1'', sh_key = ''k1''\<rparr>"

definition late_approve :: "string list \<Rightarrow> shard" where
  "late_approve links = \<lparr>sh_reviewer = ''ann'', sh_name = ''a.md'', sh_verdict = JStr ''approve'', sh_supersedes = links,
     sh_digest = ''d2'', sh_mtime = ''2'', sh_key = ''k2''\<rparr>"

lemmas shard_eval = blocked_shard_def late_approve_def fold_newest_per_reviewer_def reviewers_def shards_of_def
  live_shards_def resolved_names_def resolves_def target_of_def digest_ok_def partition_char_def normalize_verdict_def
  verdict_of_def APPROVE_TOKENS_def CHANGES_TOKENS_def winner_def pool_def shard_key_def sorted_set_def
  List.map_filter_simps text_eval

text \<open>A later approval that links nothing does not remove the blocker; one that quotes it does.\<close>

lemma unlinked_fold:
  "fold_newest_per_reviewer [blocked_shard, late_approve []] = Inr ([blocked_shard], 1)"
  by (simp add: shard_eval)

lemma linked_fold:
  "fold_newest_per_reviewer [blocked_shard, late_approve [''c.md@sha256:d1'']]
     = Inr ([late_approve [''c.md@sha256:d1'']], 1)"
proof -
  let ?b = blocked_shard and ?a = "late_approve [''c.md@sha256:d1'']"
  have s: "shards_of ''ann'' [?b, ?a] = [?b, ?a]" by (simp add: shards_of_def blocked_shard_def late_approve_def)
  have r: "resolved_names [?b, ?a] = [''c.md'']"
    by (simp add: resolved_names_def resolves_def target_of_def digest_ok_def partition_char_def blocked_shard_def late_approve_def List.map_filter_simps less_char_def)
  have l: "live_shards [?b, ?a] = [?a]"
    unfolding live_shards_def r by (simp add: blocked_shard_def late_approve_def)
  have v: "normalize_verdict (sh_verdict ?a) = Inr (Some Approve)"
    by (simp add: shard_eval)
  have w: "winner [?b, ?a] = ?a" by (simp add: winner_def pool_def l verdict_of_def v)
  have rv: "reviewers [?b, ?a] = [''ann'']" by (simp add: reviewers_def sorted_set_def blocked_shard_def late_approve_def)
  show ?thesis by (simp add: fold_newest_per_reviewer_def rv s l v w)
qed

lemma stale_digest_fold:
  "fold_newest_per_reviewer [blocked_shard, late_approve [''c.md@sha256:d0'']] = Inr ([blocked_shard], 1)"
proof -
  let ?b = blocked_shard and ?a = "late_approve [''c.md@sha256:d0'']"
  have s: "shards_of ''ann'' [?b, ?a] = [?b, ?a]" by (simp add: shards_of_def blocked_shard_def late_approve_def)
  have r: "resolved_names [?b, ?a] = []"
    by (simp add: resolved_names_def resolves_def target_of_def digest_ok_def partition_char_def blocked_shard_def late_approve_def List.map_filter_simps less_char_def)
  have l: "live_shards [?b, ?a] = [?b, ?a]" unfolding live_shards_def r by simp
  have v: "normalize_verdict (sh_verdict ?a) = Inr (Some Approve)" "normalize_verdict (sh_verdict ?b) = Inr (Some Changes)"
    by (simp_all add: shard_eval)
  have w: "winner [?b, ?a] = ?b" by (simp add: winner_def pool_def l verdict_of_def v)
  have rv: "reviewers [?b, ?a] = [''ann'']" by (simp add: reviewers_def sorted_set_def blocked_shard_def late_approve_def)
  show ?thesis by (simp add: fold_newest_per_reviewer_def rv s l v w)
qed

lemma unresolved_changes_blocks_witness:
  "ta_state (tally_of (votes [blocked_shard]) None) = CHANGES"
proof (rule unresolved_changes_blocks [OF stale_digest_fold, of blocked_shard])
  show "verdict_of (sh_verdict blocked_shard) = Some Changes" by (simp add: shard_eval)
  show "distinct (map sh_name (shards_of (sh_reviewer blocked_shard) [blocked_shard, late_approve [''c.md@sha256:d0'']]))"
    by (simp add: shard_eval)
  show "sh_mtime blocked_shard = [] \<or> sh_mtime r = [] \<or> \<not> sh_mtime blocked_shard < sh_mtime r"
    if "r \<in> set [blocked_shard, late_approve [''c.md@sha256:d0'']]" "e \<in> set (sh_supersedes r)"
      "partition_char (CHR ''@'') e = (sh_name blocked_shard, sep, token)"
      "token = [] \<or> token = ''sha256:'' @ sh_digest blocked_shard" for r e sep token
    using that by (auto simp: blocked_shard_def late_approve_def partition_char_def)
qed (simp_all add: blocked_shard_def)

lemma approved_rests_on_live_approvals_witness:
  "\<exists>r \<in> set [blocked_shard, late_approve [''c.md@sha256:d1'']]. sh_reviewer r = ''ann'' \<and> verdict_of (sh_verdict r) = Some Approve"
proof -
  have st: "ta_state (tally_of (votes [late_approve [''c.md@sha256:d1'']]) (Some [''ann''])) = APPROVED"
    by (simp add: votes_def tally_of_def by_reviewer_def voted_def Let_def shard_eval)
  have nm: "sh_reviewer r \<noteq> []" if "r \<in> set [blocked_shard, late_approve [''c.md@sha256:d1'']]" for r
    using that by (auto simp: blocked_shard_def late_approve_def)
  from approved_rests_on_live_approvals [OF linked_fold st nm] show ?thesis by auto
qed

lemma cache_bound_to_evidence_witness:
  "sort (md_names [''abc--bob--2026-01-01T00:00:00Z-feb86aee.md'']) = sort (md_names [''abc--bob--2026-01-01T00:00:00Z-feb86aee.md''])
     \<and> evidence_is_immutable [''abc--bob--2026-01-01T00:00:00Z-feb86aee.md'']"
proof (rule cache_bound_to_evidence)
  let ?n = "[''abc--bob--2026-01-01T00:00:00Z-feb86aee.md'']"
  have "evidence_is_immutable ?n"
    by (simp add: evidence_is_immutable_def md_names_def suffix_at_def is_ts_def ts_shape_def shape_char_def is_digit_def
        is_hex_def drop_last_lf_def text_eval)
  then show "settle_shortcircuit (\<lambda>t. ''0011'') (Some (settled_marker_fields ''APPROVED'' ''t''
       (Some (evidence_digest (\<lambda>t. ''0011'') ?n)) None None)) ?n = SETTLE_CACHE"
    by (simp add: settle_shortcircuit_def settled_marker_fields_def or_text_def evidence_digest_def)
qed (simp_all add: one_line_def is_newline_def)

end
