(* ===== verification/Roles.thy ===== *)
theory Roles
  imports Review Tasks Py_Time
begin

text \<open>
  packages/coord-engine/coord_engine/roles.py, and from cli.py the reading of role documents and
  lease shards: lease freshness, the state of a role, its escalation, the recognition of a vacancy
  notice, the fresh holders of a role, the membership of one agent and the roles an agent holds.
  Hours and ages are exact rationals; Python rounds the division and the parsed literal to 53
  bits. An hour count that is an \<^const>\<open>JNum\<close> does not come out of a document.
\<close>

section \<open>float\<close>

text \<open>\<open>float(s)\<close> of a text: a sign, an infinity, a NaN or a decimal with an exponent.\<close>

datatype pyfloat = Finite rat | Infinite | NaN

fun underscores_ok :: "bool \<Rightarrow> string \<Rightarrow> bool" where
  "underscores_ok after_digit [] = True"
| "underscores_ok after_digit (c # s) =
     (if c = CHR ''_'' then after_digit \<and> s \<noteq> [] \<and> is_digit (hd s) \<and> underscores_ok False s
      else underscores_ok (is_digit c) s)"

fun float_digits :: "nat \<Rightarrow> nat \<Rightarrow> string \<Rightarrow> nat \<times> nat \<times> string" where
  "float_digits acc n [] = (acc, n, [])"
| "float_digits acc n (c # s) =
     (case digit_val c of None \<Rightarrow> (acc, n, c # s) | Some d \<Rightarrow> float_digits (10 * acc + d) (Suc n) s)"

definition float_exponent :: "string \<Rightarrow> int option" where
  "float_exponent s =
     (case s of [] \<Rightarrow> Some 0
      | e # r \<Rightarrow>
          if e \<noteq> CHR ''e'' then None
          else (let (neg, r) = (case r of c # t \<Rightarrow> if c = CHR ''-'' then (True, t)
                                   else if c = CHR ''+'' then (False, t) else (False, r) | [] \<Rightarrow> (False, r)) in
                case float_digits 0 0 r of (v, n, rest) \<Rightarrow>
                  if n = 0 \<or> rest \<noteq> [] then None else Some (if neg then - int v else int v)))"

definition scale10 :: "nat \<Rightarrow> int \<Rightarrow> rat" where
  "scale10 m e = (if 0 \<le> e then of_nat (m * 10 ^ nat e) else of_nat m / of_nat (10 ^ nat (- e)))"

text \<open>Beyond the largest double the result is infinite, below half the smallest one it is zero.\<close>

definition to_double :: "rat \<Rightarrow> pyfloat" where
  "to_double x =
     (if 2 ^ 1024 - 2 ^ 970 \<le> \<bar>x\<bar> then Infinite
      else if \<bar>x\<bar> * 2 ^ 1075 \<le> 1 then Finite 0 else Finite x)"

definition float_unsigned :: "string \<Rightarrow> pyfloat option" where
  "float_unsigned v =
     (if v = ''inf'' \<or> v = ''infinity'' then Some Infinite else if v = ''nan'' then Some NaN
      else (case float_digits 0 0 v of (i, n1, r) \<Rightarrow>
        (case (case r of c # t \<Rightarrow> if c = CHR ''.'' then float_digits i 0 t else (i, 0, r) | [] \<Rightarrow> (i, 0, r)) of
           (mant, n2, r2) \<Rightarrow>
             if n1 + n2 = 0 then None
             else map_option (\<lambda>e. to_double (scale10 mant (e - int n2))) (float_exponent r2))))"

definition py_float :: "string \<Rightarrow> pyfloat option" where
  "py_float s =
     (let t = lower (strip s) in
      if \<not> underscores_ok False t then None
      else (case filter (\<lambda>c. c \<noteq> CHR ''_'') t of [] \<Rightarrow> None
        | c # r \<Rightarrow> if c = CHR ''-'' then map_option (\<lambda>x. case x of Finite q \<Rightarrow> Finite (- q) | y \<Rightarrow> y) (float_unsigned r)
                  else if c = CHR ''+'' then float_unsigned r else float_unsigned (c # r)))"

section \<open>Lease freshness\<close>

datatype role_state = HELD | LAPSED | VACANT | CONTESTED | UNKNOWN | DORMANT

record lease =
  le_agent :: json
  le_timestamp :: json

definition DEFAULT_SLA_HOURS :: rat where
  "DEFAULT_SLA_HOURS = 24"

definition role_parse :: "json \<Rightarrow> pydt option" where
  "role_parse ts = (if truthy ts then parse_z (str_of ts) else None)"

definition hour_micros :: rat where
  "hour_micros = 3600000000"

text \<open>\<open>None\<close> is the infinite age.\<close>

definition age_hours :: "json \<Rightarrow> json \<Rightarrow> rat option" where
  "age_hours ts now =
     (case (role_parse ts, role_parse now) of
        (Some a, Some n) \<Rightarrow> Some (of_int (utc_us n - utc_us a) / hour_micros)
      | _ \<Rightarrow> None)"

definition is_fresh :: "string \<Rightarrow> rat \<Rightarrow> lease \<Rightarrow> bool" where
  "is_fresh now sla l = (case age_hours (le_timestamp l) (JStr now) of None \<Rightarrow> False | Some h \<Rightarrow> h \<le> sla)"

definition fresh_holders :: "lease list \<Rightarrow> string \<Rightarrow> rat \<Rightarrow> lease list" where
  "fresh_holders leases now sla = filter (is_fresh now sla) leases"

definition classify :: "lease list option \<Rightarrow> string \<Rightarrow> rat \<Rightarrow> string \<Rightarrow> role_state" where
  "classify leases now sla policy =
     (case leases of None \<Rightarrow> UNKNOWN
      | Some ls \<Rightarrow>
          (let fresh = fresh_holders ls now sla in
           if policy = ''exclusive'' \<and> 2 \<le> length fresh then CONTESTED
           else if fresh \<noteq> [] then HELD
           else if ls \<noteq> [] then LAPSED else VACANT))"

definition parse_sla_hours :: "json \<Rightarrow> rat option" where
  "parse_sla_hours value =
     (case value of
        JNull \<Rightarrow> Some DEFAULT_SLA_HOURS
      | JStr s \<Rightarrow>
          if strip s = [] then Some DEFAULT_SLA_HOURS
          else (case py_float s of Some (Finite q) \<Rightarrow> if q \<le> 0 then None else Some q | _ \<Rightarrow> None)
      | JNum n \<Rightarrow> if n \<le> 0 then None else Some (of_int n)
      | _ \<Rightarrow> None)"

definition dormant_state :: "json \<Rightarrow> string \<Rightarrow> bool \<times> bool" where
  "dormant_state dormant_until now =
     (if dormant_until = JNull then (False, False)
      else (let raw = strip (str_of dormant_until) in
        if raw = [] then (False, False)
        else (case role_parse (JStr raw) of None \<Rightarrow> (False, True)
          | Some until \<Rightarrow> (case role_parse (JStr now) of None \<Rightarrow> (False, False)
              | Some n \<Rightarrow> (utc_us n < utc_us until, False)))))"

definition escalation_due :: "lease list option \<Rightarrow> string \<Rightarrow> rat \<Rightarrow> bool \<Rightarrow> bool \<Rightarrow> bool option \<Rightarrow> bool" where
  "escalation_due leases now sla marker_exists_today dormant attended =
     (if dormant \<or> marker_exists_today \<or> attended = Some True then False
      else classify leases now sla ''shared'' \<in> {VACANT, LAPSED})"

section \<open>Vacancy notices\<close>

definition VACANCY_TITLE_PREFIX :: string where
  "VACANCY_TITLE_PREFIX = ''ROLE VACANT ''"

definition non_empty :: "string \<Rightarrow> string option" where
  "non_empty s = (if s = [] then None else Some s)"

definition vacancy_role_of :: "string \<Rightarrow> string option" where
  "vacancy_role_of title =
     (if \<not> startswith title VACANCY_TITLE_PREFIX then None
      else (case partition_at title '': '' of (_, sep, rest) \<Rightarrow>
        if \<not> sep \<or> rest = [] then None
        else (case partition_char (CHR '' '') rest of (role, _, _) \<Rightarrow> non_empty role)))"

definition VACANCY_SLUG_PREFIX :: string where
  "VACANCY_SLUG_PREFIX = ''role-vacant-''"

definition VACANCY_SLUG_MARKERS :: "string list" where
  "VACANCY_SLUG_MARKERS = [''-lease-lapsed-'', ''-unattended-'']"

text \<open>The first marker that stands after the first character.\<close>

definition marker_cut :: "string \<Rightarrow> nat option" where
  "marker_cut rest =
     (case filter (\<lambda>i. 0 < i) (List.map_filter (find_text rest) VACANCY_SLUG_MARKERS) of
        [] \<Rightarrow> None | i # is \<Rightarrow> Some (fold min is i))"

definition vacancy_role_of_slug :: "string \<Rightarrow> string option" where
  "vacancy_role_of_slug slug =
     (if \<not> startswith slug VACANCY_SLUG_PREFIX then None
      else (let rest = drop (length VACANCY_SLUG_PREFIX) slug in
        if length rest < 11 \<or> rest ! 4 \<noteq> CHR ''-'' \<or> rest ! 7 \<noteq> CHR ''-'' \<or> rest ! 10 \<noteq> CHR ''-'' then None
        else (let rest = drop 11 rest in
          case marker_cut rest of None \<Rightarrow> None | Some k \<Rightarrow> non_empty (take k rest))))"

definition vacancy_role :: "string \<Rightarrow> string option" where
  "vacancy_role identifier =
     (case vacancy_role_of identifier of Some r \<Rightarrow> Some r | None \<Rightarrow> vacancy_role_of_slug identifier)"

definition vacancy_already_open :: "string list option \<Rightarrow> string \<Rightarrow> string + bool" where
  "vacancy_already_open open_titles role =
     (case open_titles of None \<Rightarrow> Inl ''ValueError''
      | Some ts \<Rightarrow> Inr (list_ex (\<lambda>t. vacancy_role t = Some role) ts))"

text \<open>The title the sweep mints; the rendered number of hours is an argument.\<close>

definition vacancy_title :: "string \<Rightarrow> string \<Rightarrow> string \<Rightarrow> bool option \<Rightarrow> string" where
  "vacancy_title today role sla attended =
     (if attended = Some False
      then ''ROLE VACANT '' @ today @ '': '' @ role @ '' UNATTENDED past '' @ sla @ ''h SLA '' @ em_dash @ '' no holder work found''
      else ''ROLE VACANT '' @ today @ '': '' @ role @ '' lease lapsed past '' @ sla @ ''h SLA (attendance UNVERIFIED)'')"

text \<open>Both file names a role's notice of a day can have.\<close>

definition vacancy_slug_candidates :: "string \<Rightarrow> string \<Rightarrow> string \<Rightarrow> string list" where
  "vacancy_slug_candidates role today sla =
     [slugify (vacancy_title today role sla (Some False)), slugify (vacancy_title today role sla None)]"

section \<open>Reading the roles of a team (cli.py)\<close>

definition role_doc_path :: "string \<Rightarrow> string \<Rightarrow> string" where
  "role_doc_path team role = ''team/'' @ team @ ''/roles/'' @ role @ ''.md''"

definition leases_prefix :: "string \<Rightarrow> string \<Rightarrow> string" where
  "leases_prefix team role = ''team/'' @ team @ ''/roles/'' @ role @ ''/leases/''"

definition roles_listing_names :: "'w rtrans \<Rightarrow> string \<Rightarrow> 'w \<Rightarrow> string list option \<times> 'w" where
  "roles_listing_names tr team w =
     (case rt_list tr (''team/'' @ team @ ''/roles/'') w of (listing, w') \<Rightarrow> (map_option (map en_name) listing, w'))"

text \<open>The per-pass memo of that listing: \<open>None\<close> before the first use.\<close>

type_synonym memo = "string list option option"

definition memo_names :: "'w rtrans \<Rightarrow> string \<Rightarrow> memo \<Rightarrow> 'w \<Rightarrow> string list option \<times> memo \<times> 'w" where
  "memo_names tr team cache w =
     (case cache of Some names \<Rightarrow> (names, cache, w)
      | None \<Rightarrow> (case roles_listing_names tr team w of (names, w') \<Rightarrow> (names, Some names, w')))"

text \<open>No usable role document: only a listing that shows neither the document nor a directory
  of that name is an answer.\<close>

definition not_a_role :: "string \<Rightarrow> string list option \<Rightarrow> bool" where
  "not_a_role name names =
     (case names of None \<Rightarrow> False
      | Some ns \<Rightarrow> name @ ''.md'' \<notin> set ns \<and> name \<notin> set ns \<and> name @ ''/'' \<notin> set ns)"

fun read_leases :: "'w clock \<Rightarrow> 'w rtrans \<Rightarrow> string \<Rightarrow> deadline \<Rightarrow> entry list \<Rightarrow> lease list \<Rightarrow> 'w
    \<Rightarrow> lease list option \<times> 'w" where
  "read_leases clock tr pre dl [] acc w = (Some acc, w)"
| "read_leases clock tr pre dl (e # es) acc w =
     (if en_dir e \<or> \<not> endswith (en_name e) ''.md'' then read_leases clock tr pre dl es acc w
      else (case expired clock dl w of (late, w1) \<Rightarrow>
        if late then (None, w1)
        else (case rt_read tr (pre @ en_name e) w1 of (raw, w2) \<Rightarrow>
          (case parse_frontmatter raw of None \<Rightarrow> (None, w2)
           | Some fm \<Rightarrow>
               read_leases clock tr pre dl es
                 (acc @ [\<lparr>le_agent = or_else (jget fm ''agent'') (JStr (take (length (en_name e) - 3) (en_name e))),
                          le_timestamp = jget fm ''timestamp''\<rparr>]) w2))))"

definition role_fresh_holders :: "'w clock \<Rightarrow> 'w rtrans \<Rightarrow> string \<Rightarrow> string \<Rightarrow> string \<Rightarrow> memo \<Rightarrow> deadline option \<Rightarrow> 'w
    \<Rightarrow> (string list \<times> bool) \<times> memo \<times> 'w" where
  "role_fresh_holders clock tr team name now cache deadline w =
     (if CHR ''/'' \<in> set name then (([], True), cache, w)
      else (let dl = (case deadline of None \<Rightarrow> bare_deadline None | Some d \<Rightarrow> d) in
        case rt_read tr (role_doc_path team name) w of (raw_doc, w1) \<Rightarrow>
        (case parse_frontmatter raw_doc of
           None \<Rightarrow> (case memo_names tr team cache w1 of (names, cache', w2) \<Rightarrow> (([], not_a_role name names), cache', w2))
         | Some reg \<Rightarrow>
             (case parse_sla_hours (jget reg ''sla_hours'') of
                None \<Rightarrow> (([], False), cache, w1)
              | Some sla \<Rightarrow>
                  (case expired clock dl w1 of (late, w2) \<Rightarrow>
                     if late then (([], False), cache, w2)
                     else (case rt_list tr (leases_prefix team name) w2 of
                        (None, w3) \<Rightarrow> (([], False), cache, w3)
                      | (Some es, w3) \<Rightarrow>
                          (case read_leases clock tr (leases_prefix team name) dl es [] w3 of
                             (None, w4) \<Rightarrow> (([], False), cache, w4)
                           | (Some ls, w4) \<Rightarrow>
                               ((map (\<lambda>l. str_of (le_agent l)) (fresh_holders ls now sla), True), cache, w4))))))))"

definition lease_name :: "(string \<Rightarrow> string) \<Rightarrow> string \<Rightarrow> string" where
  "lease_name sha1 agent = agent_key sha1 agent @ ''.md''"

definition role_membership_for_agent :: "(string \<Rightarrow> string) \<Rightarrow> 'w clock \<Rightarrow> 'w rtrans \<Rightarrow> string \<Rightarrow> string \<Rightarrow> string
    \<Rightarrow> string \<Rightarrow> memo \<Rightarrow> deadline option \<Rightarrow> 'w \<Rightarrow> (string list \<times> bool) \<times> memo \<times> 'w" where
  "role_membership_for_agent sha1 clock tr team name agent now cache deadline w =
     (if CHR ''/'' \<in> set name then (([], True), cache, w)
      else (let dl = (case deadline of None \<Rightarrow> bare_deadline None | Some d \<Rightarrow> d) in
        case rt_read tr (role_doc_path team name) w of (raw_doc, w1) \<Rightarrow>
        (case parse_frontmatter raw_doc of
           None \<Rightarrow> (case memo_names tr team cache w1 of (names, cache', w2) \<Rightarrow> (([], not_a_role name names), cache', w2))
         | Some reg \<Rightarrow>
             (case parse_sla_hours (jget reg ''sla_hours'') of
                None \<Rightarrow> (([], False), cache, w1)
              | Some sla \<Rightarrow>
                  (case expired clock dl w1 of (late, w2) \<Rightarrow>
                     if late then (([], False), cache, w2)
                     else (case rt_list tr (leases_prefix team name) w2 of
                        (None, w3) \<Rightarrow> (([], False), cache, w3)
                      | (Some es, w3) \<Rightarrow>
                          if \<not> list_ex (\<lambda>e. \<not> en_dir e \<and> en_name e = lease_name sha1 agent) es then (([], True), cache, w3)
                          else (case expired clock dl w3 of (late, w4) \<Rightarrow>
                            if late then (([], False), cache, w4)
                            else (case rt_read tr (leases_prefix team name @ lease_name sha1 agent) w4 of (raw, w5) \<Rightarrow>
                              (case parse_frontmatter raw of None \<Rightarrow> (([], False), cache, w5)
                               | Some fm \<Rightarrow>
                                   (let lease_agent = str_or agent (Some (jget fm ''agent'')) in
                                    if lease_agent \<noteq> agent then (([], True), cache, w5)
                                    else ((if fresh_holders [\<lparr>le_agent = JStr lease_agent,
                                                 le_timestamp = jget fm ''timestamp''\<rparr>] now sla = []
                                           then [] else [agent], True), cache, w5)))))))))))"

text \<open>
  The roles an agent holds among the assignees of open rows. \<open>sink\<close> is the record of every
  resolution of the pass, a dictionary. A row whose status is a list or an object raises.
\<close>

definition role_candidates :: "row list \<Rightarrow> string \<Rightarrow> terr + string list" where
  "role_candidates rows agent =
     (if list_ex (\<lambda>r. \<not> hashable (jget r ''status'')) rows then Inl TypeError
      else Inr (filter (\<lambda>a. a \<noteq> [] \<and> a \<notin> {agent, ''*'', BACKLOG} \<and> CHR ''/'' \<notin> set a)
       (map (\<lambda>r. str_or [] (Some (jget r ''assignee'')))
         (filter (\<lambda>r. jget r ''status'' \<in> JStr ` set OPEN_STATUSES) rows))))"

record role_pass =
  rp_held :: "string list"
  rp_unresolved :: "string list"
  rp_sink :: "(string, string list \<times> bool) dict"

fun resolve_roles :: "(string \<Rightarrow> string) \<Rightarrow> 'w clock \<Rightarrow> 'w rtrans \<Rightarrow> string \<Rightarrow> string \<Rightarrow> string \<Rightarrow> deadline
    \<Rightarrow> string list \<Rightarrow> memo \<Rightarrow> role_pass \<Rightarrow> 'w \<Rightarrow> role_pass \<times> 'w" where
  "resolve_roles sha1 clock tr team agent now dl [] cache p w = (p, w)"
| "resolve_roles sha1 clock tr team agent now dl (r # rs) cache p w =
     (case expired clock dl w of (late, w1) \<Rightarrow>
        if late
        then (p\<lparr>rp_unresolved := rp_unresolved p @ (r # rs),
                rp_sink := fold (\<lambda>x. dict_set x ([], False)) (r # rs) (rp_sink p)\<rparr>, w1)
        else (case role_membership_for_agent sha1 clock tr team r agent now cache (Some dl) w1 of
          ((holders, ok), cache', w2) \<Rightarrow>
            resolve_roles sha1 clock tr team agent now dl rs cache'
              (p\<lparr>rp_held := rp_held p @ (if ok \<and> agent \<in> set holders then [r] else []),
                 rp_unresolved := rp_unresolved p @ (if ok then [] else [r]),
                 rp_sink := dict_set r (holders, ok) (rp_sink p)\<rparr>) w2))"

definition held_roles_for_rows :: "(string \<Rightarrow> string) \<Rightarrow> 'w clock \<Rightarrow> 'w rtrans \<Rightarrow> string \<Rightarrow> string \<Rightarrow> row list \<Rightarrow> string
    \<Rightarrow> rat \<Rightarrow> (string, string list \<times> bool) dict \<Rightarrow> 'w \<Rightarrow> (terr + role_pass) \<times> 'w" where
  "held_roles_for_rows sha1 clock tr team agent rows now seconds sink w =
     (let p0 = \<lparr>rp_held = [], rp_unresolved = [], rp_sink = sink\<rparr> in
      case role_candidates rows agent of Inl exc \<Rightarrow> (Inl exc, w)
      | Inr candidates \<Rightarrow>
         (case deadline_open clock (Some seconds) w of (dl, w1) \<Rightarrow>
            if candidates = [] then (Inr p0, w1)
            else (case expired clock dl w1 of (late, w2) \<Rightarrow>
              if late then (Inr (p0\<lparr>rp_unresolved := sorted_set candidates\<rparr>), w2)
              else (case roles_listing_names tr team w2 of (names, w3) \<Rightarrow>
                apfst Inr (resolve_roles sha1 clock tr team agent now dl
                  (sorted_set (case names of None \<Rightarrow> candidates
                     | Some ns \<Rightarrow> filter (\<lambda>c. c @ ''.md'' \<in> set ns) candidates))
                  (Some names) p0 w3)))))"

end
