(* ===== verification/Roles_Props.thy ===== *)
theory Roles_Props
  imports Roles Tasks_Props
begin

text \<open>
  What a role fold answers about a store that does not change during the pass, the agreement of the
  two role folds, the roles an agent holds, and the recognition of a vacancy notice by its slug.
\<close>

section \<open>A store that does not change during the pass\<close>

definition steady :: "'w rtrans \<Rightarrow> (string \<Rightarrow> string option) \<Rightarrow> (string \<Rightarrow> entry list option) \<Rightarrow> bool" where
  "steady tr files dirs \<longleftrightarrow> (\<forall>p w. fst (rt_read tr p w) = files p \<and> fst (rt_list tr p w) = dirs p)"

lemma steadyD:
  "steady tr files dirs \<Longrightarrow> rt_read tr p w = (x, w') \<Longrightarrow> x = files p"
  "steady tr files dirs \<Longrightarrow> rt_list tr p w = (y, w') \<Longrightarrow> y = dirs p"
  by (metis steady_def fst_conv)+

definition is_shard :: "entry \<Rightarrow> bool" where
  "is_shard e \<longleftrightarrow> \<not> en_dir e \<and> endswith (en_name e) ''.md''"

definition lease_of :: "(string \<Rightarrow> string option) \<Rightarrow> string \<Rightarrow> entry \<Rightarrow> lease option" where
  "lease_of files pre e =
     map_option (\<lambda>fm. \<lparr>le_agent = or_else (jget fm ''agent'') (JStr (take (length (en_name e) - 3) (en_name e))),
                      le_timestamp = jget fm ''timestamp''\<rparr>) (parse_frontmatter (files (pre @ en_name e)))"

definition roles_names :: "(string \<Rightarrow> entry list option) \<Rightarrow> string \<Rightarrow> string list option" where
  "roles_names dirs team = map_option (map en_name) (dirs (''team/'' @ team @ ''/roles/''))"

text \<open>The answer a role has in the store: the agents with a fresh lease, or \<open>None\<close> when the
  store does not say.\<close>

definition holders_in :: "(string \<Rightarrow> string option) \<Rightarrow> (string \<Rightarrow> entry list option) \<Rightarrow> string \<Rightarrow> string \<Rightarrow> string
    \<Rightarrow> string list option" where
  "holders_in files dirs team name now =
     (if CHR ''/'' \<in> set name then Some []
      else (case parse_frontmatter (files (role_doc_path team name)) of
        None \<Rightarrow> if not_a_role name (roles_names dirs team) then Some [] else None
      | Some reg \<Rightarrow>
          Option.bind (parse_sla_hours (jget reg ''sla_hours'')) (\<lambda>sla.
          Option.bind (dirs (leases_prefix team name)) (\<lambda>es.
            map_option (\<lambda>ls. map (\<lambda>l. str_of (le_agent l)) (fresh_holders ls now sla))
              (all_some (lease_of files (leases_prefix team name)) (filter is_shard es))))))"

definition memo_ok :: "(string \<Rightarrow> entry list option) \<Rightarrow> string \<Rightarrow> memo \<Rightarrow> bool" where
  "memo_ok dirs team cache \<longleftrightarrow> cache \<in> {None, Some (roles_names dirs team)}"

lemma memo_names_steady:
  assumes "steady tr files dirs" "memo_ok dirs team cache" "memo_names tr team cache w = (names, cache', w')"
  shows "names = roles_names dirs team \<and> memo_ok dirs team cache'"
  using assms by (auto simp: memo_names_def roles_listing_names_def memo_ok_def roles_names_def
      split: option.splits prod.splits dest: steadyD)

lemma read_leases_steady:
  assumes "steady tr files dirs" "read_leases clock tr pre dl es acc w = (r, w')"
  shows "(\<forall>ls. r = Some ls \<longrightarrow> map_option ((@) acc) (all_some (lease_of files pre) (filter is_shard es)) = Some ls)
    \<and> (r = None \<longrightarrow> all_some (lease_of files pre) (filter is_shard es) = None \<or> instant dl \<noteq> None)"
  using assms(2)
proof (induction es arbitrary: acc w)
  case (Cons e es)
  show ?case
  proof (cases "is_shard e")
    case False
    then have "en_dir e \<or> \<not> endswith (en_name e) ''.md''" by (simp add: is_shard_def)
    with Cons False show ?thesis by simp
  next
    case True
    then have sh: "\<not> (en_dir e \<or> \<not> endswith (en_name e) ''.md'')" by (simp add: is_shard_def)
    obtain late w1 where ex: "expired clock dl w = (late, w1)" by (cases "expired clock dl w")
    obtain raw w2 where rd: "rt_read tr (pre @ en_name e) w1 = (raw, w2)" by (cases "rt_read tr (pre @ en_name e) w1")
    have raw: "raw = files (pre @ en_name e)" using steadyD(1) [OF assms(1) rd] .
    show ?thesis
    proof (cases "late \<or> parse_frontmatter raw = None")
      case True
      with Cons.prems sh ex rd have "r = None" by (auto split: if_splits)
      moreover have "instant dl \<noteq> None" if late using ex that by (cases "instant dl") (simp_all add: expired_def)
      ultimately show ?thesis using True raw \<open>is_shard e\<close> by (auto simp: lease_of_def)
    next
      case False
      then obtain fm where fm: "parse_frontmatter raw = Some fm" and nl: "\<not> late" by auto
      let ?l = "\<lparr>le_agent = or_else (jget fm ''agent'') (JStr (take (length (en_name e) - 3) (en_name e))),
                    le_timestamp = jget fm ''timestamp''\<rparr>"
      from Cons.prems sh ex rd nl fm have
        rec: "read_leases clock tr pre dl es (acc @ [?l]) w2 = (r, w')" by simp
      have l: "lease_of files pre e = Some ?l" using fm raw by (simp add: lease_of_def)
      from Cons.IH [OF rec] True l show ?thesis by (auto simp: option.map_comp o_def)
    qed
  qed
next
  case Nil
  then show ?case by (cases r) simp_all
qed

section \<open>An answer is evidence\<close>

lemma role_answer:
  assumes "steady tr files dirs" "memo_ok dirs team cache"
    and "role_fresh_holders clock tr team name now cache deadline w = ((hs, ok), cache', w')"
  shows "(ok \<longrightarrow> holders_in files dirs team name now = Some hs) \<and> (\<not> ok \<longrightarrow> hs = [])
    \<and> (deadline = None \<longrightarrow> ok = (holders_in files dirs team name now \<noteq> None))"
proof (cases "CHR ''/'' \<in> set name")
  case True
  with assms(3) show ?thesis by (auto simp: role_fresh_holders_def holders_in_def)
next
  case slash: False
  obtain raw w1 where rd: "rt_read tr (role_doc_path team name) w = (raw, w1)" by (cases "rt_read tr (role_doc_path team name) w")
  have raw: "raw = files (role_doc_path team name)" by (rule steadyD(1) [OF assms(1) rd])
  let ?dl = "case deadline of None \<Rightarrow> bare_deadline None | Some d \<Rightarrow> d"
  have bare: "instant ?dl = None" if "deadline = None" using that by (simp add: bare_deadline_def)
  show ?thesis
  proof (cases "parse_frontmatter raw")
    case None
    obtain names c2 w2 where mn: "memo_names tr team cache w1 = (names, c2, w2)" by (cases "memo_names tr team cache w1") auto
    from memo_names_steady [OF assms(1,2) mn] have "names = roles_names dirs team" by simp
    with assms(3) slash rd None mn raw show ?thesis by (auto simp: role_fresh_holders_def holders_in_def)
  next
    case (Some reg)
    show ?thesis
    proof (cases "parse_sla_hours (jget reg ''sla_hours'')")
      case None
      with assms(3) slash rd Some raw show ?thesis by (auto simp: role_fresh_holders_def holders_in_def)
    next
      case sla: (Some sla)
      obtain late w2 where ex: "expired clock ?dl w1 = (late, w2)" by (cases "expired clock ?dl w1")
      obtain es w3 where ls: "rt_list tr (leases_prefix team name) w2 = (es, w3)" by (cases "rt_list tr (leases_prefix team name) w2")
      have es: "es = dirs (leases_prefix team name)" by (rule steadyD(2) [OF assms(1) ls])
      have nlate: "\<not> late" if "deadline = None" using bare [OF that] ex by (auto simp: expired_def)
      show ?thesis
      proof (cases "late \<or> es = None")
        case True
        with assms(3) slash rd Some sla ex ls es raw nlate show ?thesis
          by (auto simp: role_fresh_holders_def holders_in_def split: if_splits)
      next
        case False
        then obtain es' where es': "es = Some es'" and "\<not> late" by auto
        obtain r w4 where rl: "read_leases clock tr (leases_prefix team name) ?dl es' [] w3 = (r, w4)"
          by (cases "read_leases clock tr (leases_prefix team name) ?dl es' [] w3")
        from read_leases_steady [OF assms(1) rl] have
          r: "\<forall>ls. r = Some ls \<longrightarrow> all_some (lease_of files (leases_prefix team name)) (filter is_shard es') = Some ls"
             "r = None \<longrightarrow> all_some (lease_of files (leases_prefix team name)) (filter is_shard es') = None \<or> instant ?dl \<noteq> None"
          by (auto simp: option.map_id0 [simplified] id_def)
        from assms(3) slash rd Some sla ex ls es' \<open>\<not> late\<close> rl have
          res: "(hs, ok) = (case r of None \<Rightarrow> ([], False) | Some ls \<Rightarrow> (map (\<lambda>l. str_of (le_agent l)) (fresh_holders ls now sla), True))"
          by (cases r) (simp_all add: role_fresh_holders_def)
        have hi: "holders_in files dirs team name now = map_option (\<lambda>ls. map (\<lambda>l. str_of (le_agent l)) (fresh_holders ls now sla))
              (all_some (lease_of files (leases_prefix team name)) (filter is_shard es'))"
          using slash Some sla es [symmetric] es' raw by (simp add: holders_in_def)
        show ?thesis using res r bare unfolding hi by (cases r) auto
      qed
    qed
  qed
qed








lemma all_some_iff: "all_some f xs = Some ys \<longleftrightarrow> map f xs = map Some ys"
  by (induction xs arbitrary: ys) (auto split: option.splits simp: map_eq_Cons_conv Cons_eq_map_conv)




section \<open>The membership fold reads one shard instead of all\<close>

text \<open>The membership of one agent, as the store has it.\<close>

definition member_in :: "(string \<Rightarrow> string) \<Rightarrow> (string \<Rightarrow> string option) \<Rightarrow> (string \<Rightarrow> entry list option) \<Rightarrow> string
    \<Rightarrow> string \<Rightarrow> string \<Rightarrow> string \<Rightarrow> string list option" where
  "member_in sha1 files dirs team name agent now =
     (if CHR ''/'' \<in> set name then Some []
      else (case parse_frontmatter (files (role_doc_path team name)) of
        None \<Rightarrow> if not_a_role name (roles_names dirs team) then Some [] else None
      | Some reg \<Rightarrow>
          Option.bind (parse_sla_hours (jget reg ''sla_hours'')) (\<lambda>sla.
          Option.bind (dirs (leases_prefix team name)) (\<lambda>es.
            if \<not> list_ex (\<lambda>e. \<not> en_dir e \<and> en_name e = lease_name sha1 agent) es then Some []
            else map_option (\<lambda>fm. if str_or agent (Some (jget fm ''agent'')) = agent
                   \<and> is_fresh now sla \<lparr>le_agent = JStr agent, le_timestamp = jget fm ''timestamp''\<rparr> then [agent] else [])
                 (parse_frontmatter (files (leases_prefix team name @ lease_name sha1 agent)))))))"

lemma membership_steady:
  assumes "steady tr files dirs" "memo_ok dirs team cache"
    and "role_membership_for_agent sha1 clock tr team name agent now cache deadline w = ((hs, ok), cache', w')"
  shows "(ok \<longrightarrow> member_in sha1 files dirs team name agent now = Some hs) \<and> (\<not> ok \<longrightarrow> hs = [])
    \<and> (deadline = None \<longrightarrow> ok = (member_in sha1 files dirs team name agent now \<noteq> None)) \<and> memo_ok dirs team cache'"
proof (cases "CHR ''/'' \<in> set name")
  case True
  with assms(2,3) show ?thesis by (auto simp: role_membership_for_agent_def member_in_def)
next
  case slash: False
  obtain raw w1 where rd: "rt_read tr (role_doc_path team name) w = (raw, w1)" by (cases "rt_read tr (role_doc_path team name) w")
  have raw: "raw = files (role_doc_path team name)" by (rule steadyD(1) [OF assms(1) rd])
  let ?dl = "case deadline of None \<Rightarrow> bare_deadline None | Some d \<Rightarrow> d"
  have bare: "fst (expired clock ?dl v) = False" if "deadline = None" for v
    using that by (simp add: bare_deadline_def expired_def)
  show ?thesis
  proof (cases "parse_frontmatter raw")
    case None
    obtain names c2 w2 where mn: "memo_names tr team cache w1 = (names, c2, w2)" by (cases "memo_names tr team cache w1") auto
    from memo_names_steady [OF assms(1,2) mn] have "names = roles_names dirs team \<and> memo_ok dirs team c2" .
    with assms(3) slash rd None mn raw show ?thesis by (auto simp: role_membership_for_agent_def member_in_def)
  next
    case (Some reg)
    show ?thesis
    proof (cases "parse_sla_hours (jget reg ''sla_hours'')")
      case None
      with assms(2,3) slash rd Some raw show ?thesis by (auto simp: role_membership_for_agent_def member_in_def)
    next
      case sla: (Some sla)
      obtain late w2 where ex: "expired clock ?dl w1 = (late, w2)" by (cases "expired clock ?dl w1")
      obtain es w3 where ls: "rt_list tr (leases_prefix team name) w2 = (es, w3)" by (cases "rt_list tr (leases_prefix team name) w2")
      have es: "es = dirs (leases_prefix team name)" by (rule steadyD(2) [OF assms(1) ls])
      have nlate: "\<not> late" if "deadline = None" using bare [OF that, of w1] ex by simp
      show ?thesis
      proof (cases "late \<or> es = None")
        case True
        with assms(2,3) slash rd Some sla ex ls es raw nlate show ?thesis
          by (auto simp: role_membership_for_agent_def member_in_def split: if_splits)
      next
        case False
        then obtain es' where es': "es = Some es'" and nl: "\<not> late" by auto
        show ?thesis
        proof (cases "list_ex (\<lambda>e. \<not> en_dir e \<and> en_name e = lease_name sha1 agent) es'")
          case False
          with assms(2,3) slash rd Some sla ex ls es [symmetric] es' nl raw show ?thesis
            by (auto simp: role_membership_for_agent_def member_in_def)
        next
          case listed: True
          obtain late2 w4 where ex2: "expired clock ?dl w3 = (late2, w4)" by (cases "expired clock ?dl w3")
          have nlate2: "\<not> late2" if "deadline = None" using bare [OF that, of w3] ex2 by simp
          obtain raw2 w5 where rd2: "rt_read tr (leases_prefix team name @ lease_name sha1 agent) w4 = (raw2, w5)"
            by (cases "rt_read tr (leases_prefix team name @ lease_name sha1 agent) w4")
          have raw2: "raw2 = files (leases_prefix team name @ lease_name sha1 agent)" by (rule steadyD(1) [OF assms(1) rd2])
          have mi: "member_in sha1 files dirs team name agent now = map_option (\<lambda>fm. if str_or agent (Some (jget fm ''agent'')) = agent
                   \<and> is_fresh now sla \<lparr>le_agent = JStr agent, le_timestamp = jget fm ''timestamp''\<rparr> then [agent] else []) (parse_frontmatter raw2)"
            using slash Some sla es [symmetric] es' raw raw2 listed by (simp add: member_in_def)
          from assms(3) slash rd Some sla ex ls es' nl listed ex2 rd2 have
            "(hs, ok, cache') = (if late2 then ([], False, cache) else (case parse_frontmatter raw2 of None \<Rightarrow> ([], False, cache)
               | Some fm \<Rightarrow> (if str_or agent (Some (jget fm ''agent'')) = agent
                   \<and> is_fresh now sla \<lparr>le_agent = JStr agent, le_timestamp = jget fm ''timestamp''\<rparr> then [agent] else [], True, cache)))"
            by (auto simp: role_membership_for_agent_def Let_def fresh_holders_def split: option.splits if_splits)
          with assms(2) nlate2 show ?thesis unfolding mi by (auto split: if_splits option.splits)
        qed
      qed
    qed
  qed
qed

text \<open>Every shard of the listing is named after the agent it records.\<close>

definition well_named :: "(string \<Rightarrow> string) \<Rightarrow> (string \<Rightarrow> string option) \<Rightarrow> (string \<Rightarrow> entry list option) \<Rightarrow> string
    \<Rightarrow> string \<Rightarrow> bool" where
  "well_named sha1 files dirs team name \<longleftrightarrow>
     (\<forall>es e fm. dirs (leases_prefix team name) = Some es \<longrightarrow> e \<in> set es \<longrightarrow> is_shard e \<longrightarrow>
        parse_frontmatter (files (leases_prefix team name @ en_name e)) = Some fm \<longrightarrow>
        truthy (jget fm ''agent'') \<and> en_name e = lease_name sha1 (str_of (jget fm ''agent'')))"

lemma all_some_mem:
  assumes "all_some f xs = Some ys"
  shows "y \<in> set ys \<longleftrightarrow> (\<exists>x \<in> set xs. f x = Some y)" "x \<in> set xs \<Longrightarrow> \<exists>y \<in> set ys. f x = Some y"
proof -
  from assms have "map f xs = map Some ys" by (simp add: all_some_iff)
  then have "set (map f xs) = set (map Some ys)" by (rule arg_cong)
  then have e: "f ` set xs = Some ` set ys" by simp
  have "y \<in> set ys \<longleftrightarrow> Some y \<in> f ` set xs" unfolding e by auto
  then show "y \<in> set ys \<longleftrightarrow> (\<exists>x \<in> set xs. f x = Some y)" by (auto simp: image_iff eq_commute)
  show "\<exists>y \<in> set ys. f x = Some y" if "x \<in> set xs"
  proof -
    from that have "f x \<in> Some ` set ys" using e by (metis imageI)
    then show ?thesis by auto
  qed
qed

lemma is_fresh_timestamp: "is_fresh now sla \<lparr>le_agent = a, le_timestamp = t\<rparr> = is_fresh now sla \<lparr>le_agent = b, le_timestamp = t\<rparr>"
  by (simp add: is_fresh_def)

lemma lease_name_shard: "endswith (lease_name sha1 agent) ''.md''"
  by (simp add: lease_name_def endswith_def)

lemma holders_member:
  assumes "holders_in files dirs team name now = Some hs" "well_named sha1 files dirs team name"
  shows "member_in sha1 files dirs team name agent now = Some (if agent \<in> set hs then [agent] else [])"
proof (cases "CHR ''/'' \<in> set name \<or> parse_frontmatter (files (role_doc_path team name)) = None")
  case True
  with assms(1) show ?thesis by (auto simp: holders_in_def member_in_def split: if_splits)
next
  case False
  then obtain reg where slash: "CHR ''/'' \<notin> set name" and reg: "parse_frontmatter (files (role_doc_path team name)) = Some reg" by auto
  let ?pre = "leases_prefix team name"
  from assms(1) slash reg obtain sla es ls where
    sla: "parse_sla_hours (jget reg ''sla_hours'') = Some sla" and es: "dirs ?pre = Some es" and
    ls: "all_some (lease_of files ?pre) (filter is_shard es) = Some ls" and
    hs: "hs = map (\<lambda>l. str_of (le_agent l)) (fresh_holders ls now sla)"
    by (auto simp: holders_in_def bind_eq_Some_conv)
  have wn: "truthy (jget fm ''agent'') \<and> en_name e = lease_name sha1 (str_of (jget fm ''agent''))"
    if "e \<in> set es" "is_shard e" "parse_frontmatter (files (?pre @ en_name e)) = Some fm" for e fm
    using assms(2) that es unfolding well_named_def by blast
  have mem: "agent \<in> set hs \<longleftrightarrow> (\<exists>e fm. e \<in> set es \<and> is_shard e \<and> parse_frontmatter (files (?pre @ en_name e)) = Some fm
      \<and> str_of (jget fm ''agent'') = agent \<and> is_fresh now sla \<lparr>le_agent = JStr agent, le_timestamp = jget fm ''timestamp''\<rparr>)"
    (is "_ \<longleftrightarrow> ?R")
  proof
    assume "agent \<in> set hs"
    then obtain l where l: "l \<in> set ls" "is_fresh now sla l" "agent = str_of (le_agent l)" by (auto simp: hs fresh_holders_def)
    from l(1) all_some_mem(1) [OF ls] obtain e where e: "e \<in> set es" "is_shard e" "lease_of files ?pre e = Some l" by auto
    then obtain fm where fm: "parse_frontmatter (files (?pre @ en_name e)) = Some fm" by (auto simp: lease_of_def)
    from wn [OF e(1,2) fm] fm e(3) have "l = \<lparr>le_agent = jget fm ''agent'', le_timestamp = jget fm ''timestamp''\<rparr>"
      by (auto simp: lease_of_def or_else_def)
    with l e fm show ?R by (auto simp: is_fresh_def)
  next
    assume ?R
    then obtain e fm where e: "e \<in> set es" "is_shard e" "parse_frontmatter (files (?pre @ en_name e)) = Some fm"
      "str_of (jget fm ''agent'') = agent" "is_fresh now sla \<lparr>le_agent = JStr agent, le_timestamp = jget fm ''timestamp''\<rparr>" by auto
    from wn [OF e(1-3)] e(3) have "lease_of files ?pre e = Some \<lparr>le_agent = jget fm ''agent'', le_timestamp = jget fm ''timestamp''\<rparr>"
      by (simp add: lease_of_def or_else_def)
    with all_some_mem(1) [OF ls] e(1,2) have "\<lparr>le_agent = jget fm ''agent'', le_timestamp = jget fm ''timestamp''\<rparr> \<in> set ls" by auto
    with e(4,5) show "agent \<in> set hs" by (force simp: hs fresh_holders_def is_fresh_def)
  qed
  show ?thesis
  proof (cases "\<exists>e \<in> set es. \<not> en_dir e \<and> en_name e = lease_name sha1 agent")
    case False
    have "agent \<notin> set hs"
      using False wn unfolding mem is_shard_def by blast
    with False slash reg sla es show ?thesis by (simp add: member_in_def list_ex_iff)
  next
    case True
    then obtain e where e: "e \<in> set es" "\<not> en_dir e" "en_name e = lease_name sha1 agent" by blast
    then have sh: "is_shard e" by (simp add: is_shard_def lease_name_shard)
    with e all_some_mem(2) [OF ls, of e] obtain fm where fm: "parse_frontmatter (files (?pre @ en_name e)) = Some fm"
      by (auto simp: lease_of_def)
    have same: "parse_frontmatter (files (?pre @ en_name e')) = Some fm' \<Longrightarrow> e' \<in> set es \<Longrightarrow> is_shard e' \<Longrightarrow>
        str_of (jget fm' ''agent'') = agent \<Longrightarrow> fm' = fm" for e' fm'
      using wn [of e' fm'] fm e(3) by auto
    have tr: "str_or agent (Some (jget fm ''agent'')) = str_of (jget fm ''agent'')"
      using wn [OF e(1) sh fm] by (simp add: str_or_def)
    have "agent \<in> set hs \<longleftrightarrow> str_of (jget fm ''agent'') = agent
        \<and> is_fresh now sla \<lparr>le_agent = JStr agent, le_timestamp = jget fm ''timestamp''\<rparr>"
      unfolding mem using same fm e(1) sh by blast
    with slash reg sla es e fm tr show ?thesis by (auto simp: member_in_def list_ex_iff)
  qed
qed

text \<open>The membership fold, which reads one lease instead of all of them, agrees with the fold over
  every lease: on a store that does not change, when the full fold has an answer and each shard is
  named after the agent it records, the membership fold has an answer too, and it names the agent
  exactly when the full answer does.\<close>

theorem membership_agrees_with_fold:
  assumes "steady tr files dirs" "well_named sha1 files dirs team name"
    and "role_fresh_holders clock tr team name now None None w = ((hs, True), c1, w1)"
    and "role_membership_for_agent sha1 clock tr team name agent now None None v = ((ms, ok), c2, v1)"
  shows "ok \<and> ms = (if agent \<in> set hs then [agent] else [])"
proof -
  have mo: "memo_ok dirs team None" by (simp add: memo_ok_def)
  from role_answer [OF assms(1) mo assms(3)] have "holders_in files dirs team name now = Some hs" by simp
  from holders_member [OF this assms(2)] have m: "member_in sha1 files dirs team name agent now = Some (if agent \<in> set hs then [agent] else [])" .
  from membership_steady [OF assms(1) mo assms(4)] m show ?thesis by auto
qed

section \<open>The roles an agent holds\<close>

lemma resolve_roles_steady:
  assumes "steady tr files dirs" "memo_ok dirs team cache"
    and "resolve_roles sha1 clock tr team agent now dl rs cache p w = (p', w')"
  shows "\<exists>held unres. rp_held p' = rp_held p @ held \<and> rp_unresolved p' = rp_unresolved p @ unres
    \<and> (\<forall>r \<in> set held. r \<in> set rs \<and> member_in sha1 files dirs team r agent now = Some [agent])
    \<and> set unres \<subseteq> set rs
    \<and> (\<forall>r \<in> set rs. r \<in> set held \<or> r \<in> set unres \<or> member_in sha1 files dirs team r agent now = Some [])"
  using assms(2,3)
proof (induction rs arbitrary: cache p w)
  case Nil
  then show ?case by auto
next
  case (Cons r rs)
  obtain late w1 where ex: "expired clock dl w = (late, w1)" by (cases "expired clock dl w")
  show ?case
  proof (cases late)
    case True
    with Cons.prems(2) ex have "rp_held p' = rp_held p \<and> rp_unresolved p' = rp_unresolved p @ (r # rs)"
      by auto
    then show ?thesis by (intro exI [of _ "[]"] exI [of _ "r # rs"]) simp
  next
    case False
    obtain hs ok c2 w2 where mb: "role_membership_for_agent sha1 clock tr team r agent now cache (Some dl) w1 = ((hs, ok), c2, w2)"
      by (metis prod.exhaust)
    from membership_steady [OF assms(1) Cons.prems(1) mb] have
      m: "ok \<longrightarrow> member_in sha1 files dirs team r agent now = Some hs" "memo_ok dirs team c2" by auto
    have range: "member_in sha1 files dirs team r agent now = Some hs \<Longrightarrow> hs = [] \<or> hs = [agent]"
      by (auto simp: member_in_def bind_eq_Some_conv split: if_splits option.splits)
    let ?p = "p\<lparr>rp_held := rp_held p @ (if ok \<and> agent \<in> set hs then [r] else []),
                 rp_unresolved := rp_unresolved p @ (if ok then [] else [r]),
                 rp_sink := dict_set r (hs, ok) (rp_sink p)\<rparr>"
    from Cons.prems(2) ex False mb have
      rec: "resolve_roles sha1 clock tr team agent now dl rs c2 ?p w2 = (p', w')" by simp
    from Cons.IH [OF m(2) rec] obtain held unres where
      ih: "rp_held p' = rp_held ?p @ held" "rp_unresolved p' = rp_unresolved ?p @ unres"
        "\<forall>r \<in> set held. r \<in> set rs \<and> member_in sha1 files dirs team r agent now = Some [agent]" "set unres \<subseteq> set rs"
        "\<forall>r \<in> set rs. r \<in> set held \<or> r \<in> set unres \<or> member_in sha1 files dirs team r agent now = Some []" by blast
    let ?h = "(if ok \<and> agent \<in> set hs then [r] else []) @ held" and ?u = "(if ok then [] else [r]) @ unres"
    have "rp_held p' = rp_held p @ ?h" "rp_unresolved p' = rp_unresolved p @ ?u" using ih(1,2) by simp_all
    moreover have "\<forall>x \<in> set ?h. x \<in> set (r # rs) \<and> member_in sha1 files dirs team x agent now = Some [agent]"
      using ih(3) m(1) range by (auto split: if_splits)
    moreover have "set ?u \<subseteq> set (r # rs)" using ih(4) by auto
    moreover have "\<forall>x \<in> set (r # rs). x \<in> set ?h \<or> x \<in> set ?u \<or> member_in sha1 files dirs team x agent now = Some []"
      using ih(5) m(1) range by (auto split: if_splits)
    ultimately show ?thesis by blast
  qed
qed

definition listed_role :: "(string \<Rightarrow> entry list option) \<Rightarrow> string \<Rightarrow> string \<Rightarrow> bool" where
  "listed_role dirs team c \<longleftrightarrow> (case roles_names dirs team of None \<Rightarrow> True | Some ns \<Rightarrow> c @ ''.md'' \<in> set ns)"

lemma held_roles:
  assumes "steady tr files dirs" "role_candidates rows agent = Inr cs"
    and "held_roles_for_rows sha1 clock tr team agent rows now seconds sink w = (Inr p, w')"
  shows "(\<forall>r \<in> set (rp_held p). r \<in> set cs \<and> listed_role dirs team r \<and> member_in sha1 files dirs team r agent now = Some [agent])
    \<and> set (rp_unresolved p) \<subseteq> set cs
    \<and> (\<forall>c \<in> set cs. listed_role dirs team c \<longrightarrow> c \<in> set (rp_held p) \<or> c \<in> set (rp_unresolved p)
         \<or> member_in sha1 files dirs team c agent now = Some [])
    \<and> (\<forall>c. \<not> listed_role dirs team c \<longrightarrow> c \<notin> set (rp_held p) \<and> (rp_unresolved p = sorted_set cs \<or> c \<notin> set (rp_unresolved p)))"
proof -
  let ?p0 = "\<lparr>rp_held = [], rp_unresolved = [], rp_sink = sink\<rparr>"
  obtain dl w1 where dl: "deadline_open clock (Some seconds) w = (dl, w1)" by (cases "deadline_open clock (Some seconds) w")
  obtain late w2 where ex: "expired clock dl w1 = (late, w2)" by (cases "expired clock dl w1")
  obtain names w3 where nm: "roles_listing_names tr team w2 = (names, w3)" by (cases "roles_listing_names tr team w2")
  have names: "names = roles_names dirs team"
    using nm steadyD(2) [OF assms(1)] by (auto simp: roles_listing_names_def roles_names_def split: prod.splits)
  let ?rs = "case names of None \<Rightarrow> cs | Some ns \<Rightarrow> filter (\<lambda>c. c @ ''.md'' \<in> set ns) cs"
  have rs: "set ?rs = {c \<in> set cs. listed_role dirs team c}" by (auto simp: names listed_role_def split: option.splits)
  show ?thesis
  proof (cases "cs = [] \<or> late")
    case True
    have "p = (if cs = [] then ?p0 else ?p0\<lparr>rp_unresolved := sorted_set cs\<rparr>)"
      using assms(2,3) dl ex True by (cases "cs = []") (simp_all add: held_roles_for_rows_def Let_def)
    then show ?thesis by auto
  next
    case False
    with assms(2,3) dl ex nm have
      "resolve_roles sha1 clock tr team agent now dl (sorted_set ?rs) (Some names) ?p0 w3 = (p, w')"
      by (auto simp: held_roles_for_rows_def Let_def map_prod_def apfst_def split: prod.splits)
    from resolve_roles_steady [OF assms(1) _ this] have
      "(\<forall>r \<in> set (rp_held p). r \<in> set ?rs \<and> member_in sha1 files dirs team r agent now = Some [agent])
       \<and> set (rp_unresolved p) \<subseteq> set ?rs
       \<and> (\<forall>r \<in> set ?rs. r \<in> set (rp_held p) \<or> r \<in> set (rp_unresolved p) \<or> member_in sha1 files dirs team r agent now = Some [])"
      by (auto simp: memo_ok_def names)
    then show ?thesis unfolding rs by blast
  qed
qed

text \<open>The role inbox is never silently blind to a registered role: on a store that does not change,
  every role-shaped assignee of an open row that the roles listing names (any such assignee, when
  the listing fails) is reported held, is reported unresolved, or is one whose document and leases
  say the agent is not a holder; and a role is reported held only on a fresh lease of the agent's
  own.\<close>

theorem role_inbox_not_blind:
  assumes "steady tr files dirs" "role_candidates rows agent = Inr cs"
    and "held_roles_for_rows sha1 clock tr team agent rows now seconds sink w = (Inr p, w')"
  shows "(\<forall>r \<in> set (rp_held p). r \<in> set cs \<and> member_in sha1 files dirs team r agent now = Some [agent])
    \<and> (\<forall>c \<in> set cs. listed_role dirs team c \<longrightarrow> c \<in> set (rp_held p) \<or> c \<in> set (rp_unresolved p)
         \<or> member_in sha1 files dirs team c agent now = Some [])"
  using held_roles [OF assms] by blast

text \<open>A role whose document is missing but whose lease directory is there is unknown to the
  membership fold and dropped by the role inbox: with a listing that shows the directory and not the
  document, the membership of any agent has no answer, and the inbox reports the role neither held
  nor unresolved unless its whole budget was spent before the listing.\<close>

theorem orphaned_leases_dropped:
  assumes "steady tr files dirs" "role_candidates rows agent = Inr cs"
    and "held_roles_for_rows sha1 clock tr team agent rows now seconds sink w = (Inr p, w')"
    and "CHR ''/'' \<notin> set c" "files (role_doc_path team c) = None" "dirs (''team/'' @ team @ ''/roles/'') = Some es"
    and "c \<in> en_name ` set es" "c @ ''.md'' \<notin> en_name ` set es"
  shows "member_in sha1 files dirs team c agent now = None
    \<and> c \<notin> set (rp_held p) \<and> (rp_unresolved p = sorted_set cs \<or> c \<notin> set (rp_unresolved p))"
proof -
  have "parse_frontmatter None = None" by (simp add: parse_frontmatter_def split_frontmatter_def)
  with assms(4-8) have m: "member_in sha1 files dirs team c agent now = None"
    by (simp add: member_in_def not_a_role_def roles_names_def)
  have "\<not> listed_role dirs team c" using assms(6,8) by (simp add: listed_role_def roles_names_def)
  with m held_roles [OF assms(1-3)] show ?thesis by blast
qed

section \<open>Witnesses\<close>

definition demo_files :: "string \<Rightarrow> string option" where
  "demo_files = map_of [(''team/t/roles/rev.md'', ''---'' @ nl @ ''sla_hours: 24'' @ nl @ ''---''),
     (''team/t/roles/rev/leases/ann-abcdef.md'',
        ''---'' @ nl @ ''agent: ann'' @ nl @ ''timestamp: 2026-01-01T00:00:00Z'' @ nl @ ''---'')]"

definition demo_dirs :: "string \<Rightarrow> entry list option" where
  "demo_dirs = map_of [(''team/t/roles/'', [\<lparr>en_name = ''rev.md'', en_size = None, en_mtime = None, en_dir = False\<rparr>,
        \<lparr>en_name = ''old'', en_size = None, en_mtime = None, en_dir = True\<rparr>]),
     (''team/t/roles/rev/leases/'', [\<lparr>en_name = ''ann-abcdef.md'', en_size = None, en_mtime = None, en_dir = False\<rparr>])]"

definition demo_store :: "unit rtrans" where
  "demo_store = \<lparr>rt_read = \<lambda>p w. (demo_files p, w), rt_list = \<lambda>p w. (demo_dirs p, w)\<rparr>"

definition demo_clock :: "unit clock" where
  "demo_clock w = (0, w)"

lemma demo_steady: "steady demo_store demo_files demo_dirs"
  by (simp add: steady_def demo_store_def)

lemma demo_doc: "parse_frontmatter (demo_files (role_doc_path ''t'' ''rev'')) = Some [(''sla_hours'', JStr ''24'')]"
  by code_simp

lemma demo_lease: "parse_frontmatter (demo_files (leases_prefix ''t'' ''rev'' @ ''ann-abcdef.md''))
     = Some [(''agent'', JStr ''ann''), (''timestamp'', JStr ''2026-01-01T00:00:00Z'')]"
  by code_simp

lemma demo_missing: "demo_files (role_doc_path ''t'' ''old'') = None"
  by (simp add: demo_files_def role_doc_path_def)

lemma demo_name: "lease_name (\<lambda>_. ''abcdef'') ''ann'' = ''ann-abcdef.md''" by code_simp

lemma demo_sla: "parse_sla_hours (JStr ''24'') = Some 24"
  by (simp add: parse_sla_hours_def py_float_def float_unsigned_def float_exponent_def scale10_def to_double_def
      is_digit_def text_eval)

lemma demo_md: "endswith ''ann-abcdef.md'' ''.md''" by (simp add: endswith_def)

lemmas demo_parse = demo_doc demo_lease demo_missing demo_name demo_sla demo_md

lemma demo_listings:
  "demo_dirs (leases_prefix ''t'' ''rev'') = Some [\<lparr>en_name = ''ann-abcdef.md'', en_size = None, en_mtime = None, en_dir = False\<rparr>]"
  "demo_dirs (''team/t/roles/'') = Some [\<lparr>en_name = ''rev.md'', en_size = None, en_mtime = None, en_dir = False\<rparr>,
        \<lparr>en_name = ''old'', en_size = None, en_mtime = None, en_dir = True\<rparr>]"
  by (simp_all add: demo_dirs_def leases_prefix_def)

lemma demo_fresh: "is_fresh ''2026-01-01T12:00:00Z'' 24 \<lparr>le_agent = a, le_timestamp = JStr ''2026-01-01T00:00:00Z''\<rparr>"
  by (simp add: is_fresh_def age_hours_def role_parse_def hour_micros_def time_eval)

lemma demo_full:
  "role_fresh_holders demo_clock demo_store ''t'' ''rev'' ''2026-01-01T12:00:00Z'' None None () = (([''ann''], True), None, ())"
  using demo_parse demo_listings demo_fresh
  by (simp add: role_fresh_holders_def demo_store_def bare_deadline_def expired_def or_else_def fresh_holders_def jget_def)

lemma demo_membership:
  "role_membership_for_agent (\<lambda>_. ''abcdef'') demo_clock demo_store ''t'' ''rev'' ''ann'' ''2026-01-01T12:00:00Z'' None None ()
     = (([''ann''], True), None, ())"
  using demo_parse demo_listings demo_fresh
  by (simp add: role_membership_for_agent_def demo_store_def bare_deadline_def expired_def fresh_holders_def str_or_def)

lemma demo_well_named: "well_named (\<lambda>_. ''abcdef'') demo_files demo_dirs ''t'' ''rev''"
  using demo_parse demo_listings by (auto simp: well_named_def)


lemma membership_agrees_with_fold_witness:
  "\<exists>ms. role_membership_for_agent (\<lambda>_. ''abcdef'') demo_clock demo_store ''t'' ''rev'' ''ann'' ''2026-01-01T12:00:00Z'' None None ()
         = ((ms, True), None, ())
     \<and> ms = (if ''ann'' \<in> set [''ann''] then [''ann''] else [])"
  using membership_agrees_with_fold [OF demo_steady demo_well_named demo_full demo_membership] demo_membership by blast

definition demo_rows :: "row list" where
  "demo_rows = [[(''status'', JStr ''active''), (''assignee'', JStr ''rev'')], [(''status'', JStr ''active''), (''assignee'', JStr ''old'')]]"

lemma demo_candidates: "role_candidates demo_rows ''ann'' = Inr [''rev'', ''old'']"
  by (simp add: role_candidates_def demo_rows_def OPEN_STATUSES_def VALID_STATUSES_def TERMINAL_STATUSES_def BACKLOG_def str_or_def
      image_def)

lemma demo_held:
  "held_roles_for_rows (\<lambda>_. ''abcdef'') demo_clock demo_store ''t'' ''ann'' demo_rows ''2026-01-01T12:00:00Z'' 10 [] ()
     = (Inr \<lparr>rp_held = [''rev''], rp_unresolved = [], rp_sink = [(''rev'', [''ann''], True)]\<rparr>, ())"
  using demo_parse demo_listings demo_fresh demo_candidates
  by (simp add: held_roles_for_rows_def deadline_open_def demo_clock_def expired_def roles_listing_names_def demo_store_def
     sorted_set_def role_membership_for_agent_def fresh_holders_def str_or_def)

lemma role_inbox_not_blind_witness:
  "member_in (\<lambda>_. ''abcdef'') demo_files demo_dirs ''t'' ''rev'' ''ann'' ''2026-01-01T12:00:00Z'' = Some [''ann'']"
  using role_inbox_not_blind [OF demo_steady demo_candidates demo_held] by simp

lemma orphaned_leases_dropped_witness:
  "member_in (\<lambda>_. ''abcdef'') demo_files demo_dirs ''t'' ''old'' ''ann'' ''2026-01-01T12:00:00Z'' = None"
  using orphaned_leases_dropped [OF demo_steady demo_candidates demo_held, of "''old''"] demo_missing demo_listings(2) by simp
end
