(* ===== verification/Vacancy_Props.thy ===== *)
theory Vacancy_Props
  imports Roles Tasks_Props
begin

text \<open>
  A vacancy notice carries its role in its title and in its file name: the sweep that mints a
  notice today is recognised by the sweep of tomorrow, for role names up to the bound the cut slug
  leaves.
\<close>

section \<open>The first marker of a slug\<close>


definition clear_of_markers :: "string \<Rightarrow> string \<Rightarrow> bool" where
  "clear_of_markers role m \<longleftrightarrow>
     list_all (\<lambda>k. case find_text (role @ m) k of None \<Rightarrow> True | Some i \<Rightarrow> length role \<le> i) VACANCY_SLUG_MARKERS"

lemma marker_cut_role:
  assumes "role \<noteq> []" "m \<in> set VACANCY_SLUG_MARKERS" "clear_of_markers role (m @ ''p'')"
  shows "marker_cut (role @ m @ ''p'' @ z) = Some (length role)"
proof -
  let ?r = "role @ m @ ''p'' @ z"
  have ln: "length k \<le> Suc (length m) + 1" if "k \<in> set VACANCY_SLUG_MARKERS" for k
    using that assms(2) by (auto simp: VACANCY_SLUG_MARKERS_def)
  have late: "length role \<le> length u" if "k \<in> set VACANCY_SLUG_MARKERS" "?r = u @ k @ v" for k u v
  proof (rule ccontr)
    assume "\<not> length role \<le> length u"
    then have le: "length (u @ k) \<le> length (role @ m @ ''p'')" using ln [OF that(1)] by simp
    have "(role @ m @ ''p'') @ z = (u @ k) @ v" using that(2) by simp
    then have "take (length (u @ k)) ((role @ m @ ''p'') @ z) = u @ k" by simp
    with le have "take (length (u @ k)) (role @ m @ ''p'') = u @ k" by (metis take_append diff_is_0_eq take_eq_Nil append_Nil2)
    then obtain w where w: "role @ m @ ''p'' = u @ k @ w" by (metis append_take_drop_id append_assoc)
    have "k \<noteq> []" using that(1) by (auto simp: VACANCY_SLUG_MARKERS_def)
    then have "find_text (role @ m @ ''p'') k \<noteq> None" using w by (auto simp: find_text_def find_at_None)
    then obtain i where i: "find_text (role @ m @ ''p'') k = Some i" by blast
    with assms(3) that(1) have "length role \<le> i" by (auto simp: clear_of_markers_def list_all_iff split: option.splits)
    moreover have "i \<le> length u" using i w find_at_leftmost [of k 0 u w i] by (simp add: find_text_def)
    ultimately show False using \<open>\<not> length role \<le> length u\<close> by simp
  qed
  have ne: "m \<noteq> []" using assms(2) by (auto simp: VACANCY_SLUG_MARKERS_def)
  have "find_text (role @ m @ (''p'' @ z)) m = Some (length role)"
    using late [OF assms(2)] by (intro find_text_first [OF ne]) auto
  then have f: "find_text ?r m = Some (length role)" by simp
  let ?hits = "List.map_filter (find_text ?r) VACANCY_SLUG_MARKERS"
  have hits: "length role \<in> set ?hits"
    using f assms(2) by (force simp: List.map_filter_def)
  have ge: "length role \<le> i" if "i \<in> set ?hits" for i
  proof -
    from that obtain k where k: "k \<in> set VACANCY_SLUG_MARKERS" "find_text ?r k = Some i"
      by (auto simp: List.map_filter_def)
    then obtain u v where "?r = u @ k @ v" "i = length u" using find_at_Some [of k 0] by (fastforce simp: find_text_def)
    with late k(1) show ?thesis by blast
  qed
  have flt: "filter (\<lambda>i. 0 < i) ?hits = ?hits" unfolding filter_id_conv
  proof
    show "0 < i" if "i \<in> set ?hits" for i using ge [OF that] assms(1) by (cases role) auto
  qed
  obtain i js where hs: "?hits = i # js" using hits by (cases ?hits) auto
  have "fold min js i = Min (set (i # js))" by (rule Min.set_eq_fold [symmetric])
  also have "\<dots> = length role" using hits ge unfolding hs by (intro Min_eqI) auto
  finally show ?thesis using flt hs by (simp add: marker_cut_def)
qed

definition is_date :: "string \<Rightarrow> bool" where
  "is_date s \<longleftrightarrow> list_all2 shape_char ''dddd-dd-dd'' s"

lemma is_date_slug:
  assumes "is_date s"
  shows "length s = 10" "s ! 4 = CHR ''-''" "s ! 7 = CHR ''-''" "slug_text s" "single_dashes fl s" "\<not> is_dash (last s)" "s \<noteq> []"
proof -
  have d: "is_digit c \<Longrightarrow> slug_char c \<and> \<not> is_dash c" for c by (auto simp: is_digit_def slug_char_def is_dash_def Let_def)
  from assms obtain a b c e f g h i where s: "s = [a, b, c, e, CHR ''-'', f, g, CHR ''-'', h, i]"
    and dg: "is_digit a" "is_digit b" "is_digit c" "is_digit e" "is_digit f" "is_digit g" "is_digit h" "is_digit i"
    by (auto simp: is_date_def list_all2_Cons1 shape_char_def)
  show "length s = 10" "s ! 4 = CHR ''-''" "s ! 7 = CHR ''-''" "slug_text s" "single_dashes fl s" "\<not> is_dash (last s)" "s \<noteq> []"
    using dg d by (simp_all add: s slug_text_def is_dash_def)
qed

lemma slug_of_tail:
  assumes "slug_ok role" "is_date today"
  shows "dash_runs False (''role vacant '' @ today @ '': '' @ role @ t) = ''role-vacant-'' @ today @ ''-'' @ role @ dash_runs False t"
proof -
  have w: "dash_runs False (''role vacant '' @ u) = ''role-vacant-'' @ dash_runs True u" for u
    by (simp add: slug_char_def)
  have td: "dash_runs b (today @ u) = today @ dash_runs False u" for b u
    using is_date_slug [OF assms(2)] by (intro dash_runs_slug) auto
  have c: "dash_runs False ('': '' @ u) = ''-'' @ dash_runs True u" for u by (simp add: slug_char_def)
  have "\<not> is_dash (hd role)" "single_dashes False role" "role \<noteq> []" using assms(1) by (auto simp: slug_ok_def)
  then have "single_dashes True role" by (cases role) auto
  with assms(1) have rl: "dash_runs True (role @ u) = role @ dash_runs False u" for u
    by (intro dash_runs_slug) (auto simp: slug_ok_def)
  show ?thesis by (simp only: w td c rl append_assoc)
qed

lemma slug_cut:
  assumes "dash_runs False (lower title) = a @ CHR ''p'' # r" "a \<noteq> []" "\<not> is_dash (hd a)" "length a < 80"
  shows "\<exists>z. slugify title = a @ CHR ''p'' # z"
proof -
  have np: "\<not> is_dash (CHR ''p'')" by (simp add: is_dash_def)
  have l: "lstrip_if is_dash (dash_runs False (lower title)) = a @ CHR ''p'' # r"
    using assms(1-3) by (cases a) (auto simp: lstrip_if_def)
  obtain z where z: "rstrip_if is_dash (a @ CHR ''p'' # r) = a @ CHR ''p'' # z" using rstrip_keeps np by blast
  have "take 80 (a @ CHR ''p'' # z) = a @ CHR ''p'' # take (79 - length a) z"
    using assms(4) by (simp add: take_Cons' )
  moreover obtain z2 where "rstrip_if is_dash (a @ CHR ''p'' # take (79 - length a) z) = a @ CHR ''p'' # z2"
    using rstrip_keeps np by blast
  ultimately show ?thesis by (auto simp: slugify_def l z Let_def MAX_SLUG_LEN_def)
qed

definition vacancy_marker :: "bool option \<Rightarrow> string" where
  "vacancy_marker attended = (if attended = Some False then ''-unattended-'' else ''-lease-lapsed-'')"

section \<open>Titles and slugs\<close>

lemma lower_titles:
  "map lower_char ''ROLE VACANT '' = ''role vacant ''"
  "map lower_char '' UNATTENDED past '' = '' unattended past ''"
  "map lower_char '' lease lapsed past '' = '' lease lapsed past ''"
  "map lower_char '': '' = '': ''"
  by code_simp+

lemma vacancy_slug:
  assumes "slug_ok role" "length role \<le> 42" "is_date today"
  shows "\<exists>z. slugify (vacancy_title today role sla attended) = ''role-vacant-'' @ today @ ''-'' @ role @ vacancy_marker attended @ ''p'' @ z"
proof -
  have low: "map lower_char role = role" "map lower_char today = today"
    using assms(1) is_date_slug(4) [OF assms(3)] by (auto simp: slug_ok_def slug_text_lower)
  obtain u where u: "lower (vacancy_title today role sla attended) = ''role vacant '' @ today @ '': '' @ role
      @ (if attended = Some False then '' unattended past '' else '' lease lapsed past '') @ u"
  proof (cases "attended = Some False")
    case True
    then have "lower (vacancy_title today role sla attended) = ''role vacant '' @ today @ '': '' @ role
      @ '' unattended past '' @ map lower_char (sla @ ''h SLA '' @ em_dash @ '' no holder work found'')"
      unfolding vacancy_title_def lower_def by (simp only: simp_thms if_True map_append lower_titles low append_assoc)
    with True that show ?thesis by simp
  next
    case False
    then have "lower (vacancy_title today role sla attended) = ''role vacant '' @ today @ '': '' @ role
      @ '' lease lapsed past '' @ map lower_char (sla @ ''h SLA (attendance UNVERIFIED)'')"
      unfolding vacancy_title_def lower_def by (simp only: if_False map_append lower_titles low append_assoc)
    with False that show ?thesis by simp
  qed
  have tail: "\<exists>v. dash_runs False ((if attended = Some False then '' unattended past '' else '' lease lapsed past '') @ u)
      = vacancy_marker attended @ CHR ''p'' # v"
    by (simp add: vacancy_marker_def slug_char_def)
  then obtain v where v: "dash_runs False ((if attended = Some False then '' unattended past '' else '' lease lapsed past '') @ u)
      = vacancy_marker attended @ CHR ''p'' # v" by blast
  let ?a = "''role-vacant-'' @ today @ ''-'' @ role @ vacancy_marker attended"
  have d: "dash_runs False (lower (vacancy_title today role sla attended)) = ?a @ CHR ''p'' # v"
    unfolding u slug_of_tail [OF assms(1,3)] v by simp
  have "length ?a < 80" using assms(2) is_date_slug(1) [OF assms(3)] by (simp add: vacancy_marker_def)
  from slug_cut [OF d _ _ this] show ?thesis by (simp add: is_dash_def)
qed

text \<open>A vacancy notice is recognised for exactly its role, by title and by slug: for a role named by
  a slug of at most 42 characters that no notice marker runs through, the title the sweep mints and
  the file name the slug gives it both lead back to that role, on any day and for any window; so
  the next sweep sees the standing notice. (The bound is what is left of an 80-character slug.)\<close>

theorem vacancy_slug_names_role:
  assumes "slug_ok role" "length role \<le> 42" "is_date today"
    and "clear_of_markers role (vacancy_marker attended @ ''p'')"
  shows "vacancy_role_of (vacancy_title today role sla attended) = Some role
    \<and> vacancy_role_of_slug (slugify (vacancy_title today role sla attended)) = Some role
    \<and> vacancy_already_open (Some [slugify (vacancy_title today role sla attended)]) role = Inr True"
proof -
  from vacancy_slug [OF assms(1-3)] obtain z where
    z: "slugify (vacancy_title today role sla attended) = ''role-vacant-'' @ today @ ''-'' @ role @ vacancy_marker attended @ ''p'' @ z" by blast
  have ne: "role \<noteq> []" using assms(1) by (simp add: slug_ok_def)
  have mk: "vacancy_marker attended \<in> set VACANCY_SLUG_MARKERS" by (simp add: vacancy_marker_def VACANCY_SLUG_MARKERS_def)
  let ?rest = "role @ vacancy_marker attended @ ''p'' @ z"
  have "marker_cut ?rest = Some (length role)" by (rule marker_cut_role [OF ne mk assms(4)])
  moreover have "length today = 10" "today ! 4 = CHR ''-''" "today ! 7 = CHR ''-''" using is_date_slug [OF assms(3)] by auto
  ultimately have sl: "vacancy_role_of_slug (slugify (vacancy_title today role sla attended)) = Some role"
    using ne unfolding z by (simp add: vacancy_role_of_slug_def VACANCY_SLUG_PREFIX_def startswith_def nth_append non_empty_def Let_def)
  have nt: "vacancy_role_of (slugify (vacancy_title today role sla attended)) = None"
    unfolding z by (simp add: vacancy_role_of_def VACANCY_TITLE_PREFIX_def startswith_def)
  have sp: "CHR '' '' \<notin> set role \<and> CHR '':'' \<notin> set role"
    using assms(1) by (auto simp: slug_ok_def slug_text_def list_all_iff slug_char_def is_dash_def)
  have tt: "vacancy_role_of (vacancy_title today role sla attended) = Some role"
  proof -
    let ?p = "''ROLE VACANT '' @ today"
    obtain t where t: "vacancy_title today role sla attended = ?p @ '': '' @ (role @ CHR '' '' # t)"
      using that [of "''UNATTENDED past '' @ sla @ ''h SLA '' @ em_dash @ '' no holder work found''"]
        that [of "''lease lapsed past '' @ sla @ ''h SLA (attendance UNVERIFIED)''"]
      by (cases "attended = Some False") (simp_all add: vacancy_title_def)
    have "CHR '':'' \<notin> set today"
      using is_date_slug(4) [OF assms(3)] by (auto simp: slug_text_def list_all_iff slug_char_def is_dash_def)
    then have nc: "CHR '':'' \<notin> set ?p" by simp
    have "find_text (?p @ '': '' @ (role @ CHR '' '' # t)) '': '' = Some (length ?p)"
      by (rule find_text_absent [OF nc])
    then have "partition_at (vacancy_title today role sla attended) '': '' = (?p, True, role @ CHR '' '' # t)"
      unfolding t by (simp add: partition_at_def)
    moreover have "startswith (vacancy_title today role sla attended) VACANCY_TITLE_PREFIX"
      unfolding t by (simp add: VACANCY_TITLE_PREFIX_def startswith_def)
    ultimately show ?thesis using sp ne by (simp add: vacancy_role_of_def non_empty_def)
  qed
  from sl nt tt show ?thesis by (simp add: vacancy_already_open_def vacancy_role_def)
qed

lemma vacancy_slug_names_role_witness:
  "vacancy_already_open (Some [slugify (vacancy_title ''2026-09-02'' ''codex-reviewer'' ''24'' None)]) ''codex-reviewer'' = Inr True"
  using vacancy_slug_names_role [of "''codex-reviewer''" "''2026-09-02''" None "''24''"]
  by (simp add: slug_ok_def slug_text_def slug_char_def is_dash_def MAX_SLUG_LEN_def is_date_def shape_char_def is_digit_def
      clear_of_markers_def vacancy_marker_def VACANCY_SLUG_MARKERS_def find_text_def startswith_def)

text \<open>Beyond the bound the cut slug has no marker left: the guard cannot see the standing notice.\<close>

lemma long_role_not_recognised:
  "vacancy_role_of_slug (slugify (vacancy_title ''2026-09-02'' (replicate 50 (CHR ''a'')) ''24'' None)) = None"
  by code_simp

end
