(* ===== verification/Merge_Ready.thy ===== *)
theory Merge_Ready
  imports Review
begin

text \<open>
  packages/coord-engine/coord_engine/merge_ready.py, the pull-request links of forge.py, and from
  cli.py the verb \<open>review merge-ready\<close>: the decision over a review tally and a pull request,
  and the fail-closed order of its reads. The GitHub command, JSON decoding and the delivery of the
  report are parameters.
\<close>

section \<open>Pull-request links (forge.py)\<close>

definition is_word :: "char \<Rightarrow> bool" where
  "is_word c = (let n = of_char c :: nat in
     48 \<le> n \<and> n \<le> 57 \<or> 65 \<le> n \<and> n \<le> 90 \<or> 97 \<le> n \<and> n \<le> 122 \<or> n = 95
     \<or> n \<in> {170, 178, 179, 181, 185, 186, 188, 189, 190} \<or> 192 \<le> n \<and> n \<noteq> 215 \<and> n \<noteq> 247)"

definition repo_char :: "char \<Rightarrow> bool" where
  "repo_char c \<longleftrightarrow> is_word c \<or> c = CHR ''.'' \<or> c = CHR ''-''"

text \<open>\<open>_PR_URL\<close> at one position: owner and name, and the number.\<close>

definition pr_url_at :: "string \<Rightarrow> (string \<times> string) option" where
  "pr_url_at s =
     (if \<not> startswith s ''https://github.com/'' then None
      else (let r = drop 19 s; owner = takeWhile repo_char r; r = drop (length owner) r in
        if owner = [] \<or> \<not> startswith r ''/'' then None
        else (let r = tl r; name = takeWhile repo_char r; r = drop (length name) r in
          if name = [] \<or> \<not> startswith r ''/pull/'' then None
          else (let number = takeWhile is_digit (drop 6 r) in
            if number = [] then None else Some (owner @ ''/'' @ name, number)))))"

fun pr_url_search :: "string \<Rightarrow> (string \<times> string) option" where
  "pr_url_search [] = None"
| "pr_url_search (c # s) = (case pr_url_at (c # s) of Some m \<Rightarrow> Some m | None \<Rightarrow> pr_url_search s)"

definition review_artifact :: "(string \<times> json) list \<Rightarrow> json" where
  "review_artifact fm = (if jget fm ''of'' \<noteq> JNull then jget fm ''of'' else jget fm ''artifact'')"

definition parse_pr_url :: "string option \<Rightarrow> string option \<Rightarrow> string option" where
  "parse_pr_url artifact repo =
     (case pr_url_search (or_text artifact []) of None \<Rightarrow> None
      | Some (slug, number) \<Rightarrow>
          if or_text repo [] \<noteq> [] \<and> lower slug \<noteq> lower (or_text repo []) then None
          else Some (''https://github.com/'' @ slug @ ''/pull/'' @ number))"

section \<open>The decision\<close>

definition PR_FIELDS :: string where
  "PR_FIELDS = ''state,isDraft,headRefOid,statusCheckRollup''"

definition PASSING_CONCLUSIONS :: "string list" where
  "PASSING_CONCLUSIONS = [''SUCCESS'', ''NEUTRAL'', ''SKIPPED'']"

record 'w forge =
  fg_cli :: "'w \<Rightarrow> (string \<times> string) \<times> 'w"
  fg_gh :: "string list \<Rightarrow> 'w \<Rightarrow> string option \<times> 'w"
  fg_json :: "string \<Rightarrow> json option"

definition pr_view :: "'w forge \<Rightarrow> string \<Rightarrow> 'w \<Rightarrow> (string \<times> json) list option \<times> 'w" where
  "pr_view F url w =
     (case fg_gh F [''gh'', ''pr'', ''view'', url, ''--json'', PR_FIELDS] w of (raw, w') \<Rightarrow>
        (case raw of None \<Rightarrow> None
         | Some t \<Rightarrow> if t = [] then None else (case fg_json F t of Some (JObj d) \<Rightarrow> Some d | _ \<Rightarrow> None), w'))"

datatype ci = CiNone | CiGreen | CiPending | CiFailed

datatype check = Passing | PendingCheck string | FailedCheck string

definition check_text :: "(string \<times> json) list \<Rightarrow> string \<Rightarrow> string" where
  "check_text d k = upper (get_text (jget d k))"

definition classify_check :: "json \<Rightarrow> check" where
  "classify_check c =
     (case c of
        JObj d \<Rightarrow>
          (let name = (let n = get_text (jget d ''name'') in if n \<noteq> [] then n
                       else (let x = get_text (jget d ''context'') in if x \<noteq> [] then x else ''<unnamed>'')) in
           if jget d ''__typename'' = JStr ''StatusContext'' \<or> (map_of d ''state'' \<noteq> None \<and> map_of d ''status'' = None)
           then (let st = check_text d ''state'' in
                 if st = ''SUCCESS'' then Passing
                 else if st \<in> {''PENDING'', ''EXPECTED'', ''''} then PendingCheck name else FailedCheck name)
           else if check_text d ''status'' \<noteq> ''COMPLETED'' then PendingCheck name
           else if check_text d ''conclusion'' \<notin> set PASSING_CONCLUSIONS then FailedCheck name else Passing)
      | _ \<Rightarrow> FailedCheck ''<malformed check>'')"

fun failed_names :: "check list \<Rightarrow> string list" where
  "failed_names [] = []"
| "failed_names (FailedCheck n # cs) = n # failed_names cs"
| "failed_names (_ # cs) = failed_names cs"

fun pending_names :: "check list \<Rightarrow> string list" where
  "pending_names [] = []"
| "pending_names (PendingCheck n # cs) = n # pending_names cs"
| "pending_names (_ # cs) = pending_names cs"

definition ci_state :: "json \<Rightarrow> ci \<times> string list" where
  "ci_state rollup =
     (case rollup of
        JArr (c # cs) \<Rightarrow>
          (let checks = map classify_check (c # cs) in
           if failed_names checks \<noteq> [] then (CiFailed, failed_names checks)
           else if pending_names checks \<noteq> [] then (CiPending, pending_names checks)
           else (CiGreen, []))
      | _ \<Rightarrow> (CiNone, []))"

definition state_name :: "tstate \<Rightarrow> string" where
  "state_name s = (case s of APPROVED \<Rightarrow> ''APPROVED'' | CHANGES \<Rightarrow> ''CHANGES'' | PENDING \<Rightarrow> ''PENDING'')"

definition ci_name :: "ci \<Rightarrow> string" where
  "ci_name c = (case c of CiNone \<Rightarrow> ''none'' | CiGreen \<Rightarrow> ''green'' | CiPending \<Rightarrow> ''pending'' | CiFailed \<Rightarrow> ''failed'')"

definition reason_if :: "bool \<Rightarrow> string \<Rightarrow> string list" where
  "reason_if b r = (if b then [r] else [])"

definition review_reason :: "review \<Rightarrow> string" where
  "review_reason t =
     (let changes = join '', '' (ta_changes t); pending = join '', '' (ta_pending t);
          detail = join ''; '' (reason_if (changes \<noteq> []) (''changes requested: '' @ changes)
                                @ reason_if (pending \<noteq> []) (''awaiting: '' @ pending)) in
      ''review is '' @ state_name (ta_state t) @ (if detail \<noteq> [] then '' ('' @ detail @ '')'' else []))"

definition register_reasons :: "review \<Rightarrow> string list" where
  "register_reasons t =
     concat (map (\<lambda>(n, label). reason_if (n \<noteq> 0) (label @ '' in the register: '' @ nat_str n))
       [(length (rv_mismatched t), ''verdicts attesting another head''),
        (length (rv_unattributable t), ''unattributable verdict files''),
        (length (rv_unrecognised t), ''unrecognised verdict tokens''),
        (length (rv_bad_edges t), ''malformed supersession edges'')])"

definition winning_of :: "review \<Rightarrow> string \<Rightarrow> (string \<times> verdict option) option" where
  "winning_of t reviewer = map_option (\<lambda>(n, v, k). (n, v)) (map_of (rv_winning t) reviewer)"

definition head_reasons :: "review \<Rightarrow> string \<Rightarrow> string list" where
  "head_reasons t head =
     concat (map (\<lambda>q. case winning_of t q of
         Some (name, Some Approve) \<Rightarrow>
           reason_if (\<not> startswith name (head @ ''--''))
             (q @ CHR 0x27 # ''s winning approval '' @ repr_str name @ '' is not a shard of head '' @ head)
       | _ \<Rightarrow> []) (ta_required t))"

record merge_result =
  mr_ready :: bool
  mr_reasons :: "string list"
  mr_head :: "string option"
  mr_pr_head :: "string option"
  mr_ci :: ci
  mr_checks :: nat
  mr_approvals :: "string list"

definition evaluate :: "review \<Rightarrow> (string \<times> json) list \<Rightarrow> merge_result" where
  "evaluate t pr =
     (let head = or_text (rv_head t) []; pr_state = get_text (jget pr ''state'');
          pr_head = lower (get_text (jget pr ''headRefOid'')); rollup = jget pr ''statusCheckRollup'' in
      case ci_state rollup of (ci, names) \<Rightarrow>
      let reasons =
         reason_if (head = []) ''the review register names no head, so no verdict is bound to the code being merged (re-request with --head <sha>)''
         @ reason_if (ta_state t \<noteq> APPROVED) (review_reason t)
         @ register_reasons t
         @ (if head \<noteq> [] then head_reasons t head else [])
         @ reason_if (pr_state \<noteq> ''OPEN'') (''PR is '' @ (if pr_state = [] then ''in an unknown state'' else pr_state) @ '', not OPEN'')
         @ reason_if (truthy (jget pr ''isDraft'')) ''PR is a draft''
         @ reason_if (head \<noteq> [] \<and> pr_head \<noteq> lower head)
             (''PR head '' @ (if pr_head = [] then ''<none>'' else pr_head) @ '' is not the reviewed head '' @ head
              @ '' (new commits since review: re-request at the new head)'')
         @ reason_if (ci = CiNone) ''CI reported no checks on the PR head''
         @ reason_if (ci \<noteq> CiNone \<and> ci \<noteq> CiGreen) (''CI '' @ ci_name ci @ '': '' @ join '', '' names) in
      \<lparr>mr_ready = (reasons = []), mr_reasons = reasons, mr_head = rv_head t,
       mr_pr_head = (if pr_head = [] then None else Some pr_head), mr_ci = ci,
       mr_checks = (case rollup of JArr cs \<Rightarrow> length cs | _ \<Rightarrow> 0), mr_approvals = ta_approvals t\<rparr>)"

section \<open>The verb (cli.py)\<close>

definition review_presence :: "'w rtrans \<Rightarrow> string \<Rightarrow> string \<Rightarrow> 'w \<Rightarrow> string option \<times> 'w" where
  "review_presence tr team slug w =
     (case rt_list tr (''team/'' @ team @ ''/review/'') w of (listing, w') \<Rightarrow>
        (map_option (\<lambda>es.
           if list_ex (\<lambda>e. en_name e = slug @ ''.md'' \<and> \<not> en_dir e) es then ''doc''
           else if list_ex (\<lambda>e. rstrip_if (\<lambda>c. c = CHR ''/'') (en_name e) = slug \<and> (en_dir e \<or> endswith (en_name e) ''/'')) es
           then ''dir'' else ''absent'') listing, w'))"

record mr_exit =
  mx_rc :: int
  mx_ready :: bool
  mx_verdict :: string
  mx_reasons :: "string list"
  mx_result :: "merge_result option"
  mx_reported :: "string option"

definition mr_stop :: "int \<Rightarrow> string \<Rightarrow> mr_exit" where
  "mr_stop rc message =
     \<lparr>mx_rc = rc, mx_ready = False, mx_verdict = (if rc = 2 then ''not-ready'' else ''unknown''), mx_reasons = [message],
      mx_result = None, mx_reported = None\<rparr>"

definition mr_done :: "merge_result \<Rightarrow> string option \<Rightarrow> mr_exit" where
  "mr_done r reported =
     \<lparr>mx_rc = (if mr_ready r then 0 else 2), mx_ready = mr_ready r,
      mx_verdict = (if mr_ready r then ''ready'' else ''not-ready''), mx_reasons = mr_reasons r, mx_result = Some r,
      mx_reported = reported\<rparr>"

definition retry_text :: string where
  "retry_text = em_dash @ '' UNKNOWN, retry''"

definition cmd_review_merge_ready :: "hashes \<Rightarrow> 'w clock \<Rightarrow> 'w rtrans \<Rightarrow> 'w forge
    \<Rightarrow> (string \<Rightarrow> merge_result \<Rightarrow> 'w \<Rightarrow> string option \<times> 'w) \<Rightarrow> string \<Rightarrow> string \<Rightarrow> string option \<Rightarrow> string option
    \<Rightarrow> 'w \<Rightarrow> (string + mr_exit) \<times> 'w" where
  "cmd_review_merge_ready H clock tr F report team slug repo notify w =
     (case review_tally H clock tr team slug w of
        (Inl exc, w1) \<Rightarrow> (Inl exc, w1)
      | (Inr (t, doc_ok, vreads_ok, listing_ok), w1) \<Rightarrow>
          if \<not> doc_ok then
            (case review_presence tr team slug w1 of (p, w2) \<Rightarrow>
               (Inr (if p = Some ''absent'' then mr_stop 2 (''no such review in team/'' @ team)
                     else mr_stop 1 (review_doc_path team slug @ '' unreadable '' @ retry_text)), w2))
          else if \<not> listing_ok \<or> \<not> vreads_ok then
            (Inr (mr_stop 1 (''verdicts under '' @ verdicts_prefix team slug @ '' not fully readable '' @ retry_text)), w1)
          else (case parse_pr_url (rv_of t) repo of
             None \<Rightarrow> (Inr (mr_stop 2 (''artifact '' @ (case rv_of t of None \<Rightarrow> ''None'' | Some a \<Rightarrow> repr_str a)
                 @ '' is not a GitHub PR'' @ (if or_text repo [] \<noteq> [] then '' in '' @ or_text repo [] else []))), w1)
           | Some url \<Rightarrow>
               (case fg_cli F w1 of ((cli_state, why), w2) \<Rightarrow>
                  if cli_state \<noteq> ''ok'' then
                    (Inr (mr_stop 1 (''GitHub CLI unavailable: '' @ why @ '' '' @ em_dash @ '' PR head and CI are UNKNOWN on this host''
                        @ (if cli_state = ''unknown'' then '', retry'' else []))), w2)
                  else (case pr_view F url w2 of
                     (None, w3) \<Rightarrow> (Inr (mr_stop 1 (''forge read of '' @ url @ '' failed '' @ em_dash
                         @ '' PR head and CI UNKNOWN, retry'')), w3)
                   | (Some pr, w3) \<Rightarrow>
                       (let result = evaluate t pr in
                        if mr_ready result \<and> or_text notify [] \<noteq> [] then
                          (case report url result w3 of
                             (None, w4) \<Rightarrow> (Inr ((mr_stop 1 (''MERGE-READY but the report to '' @ or_text notify []
                                 @ '' was NOT delivered '' @ em_dash @ '' retry''))\<lparr>mx_result := Some result\<rparr>), w4)
                           | (Some dslug, w4) \<Rightarrow> (Inr (mr_done result (Some dslug)), w4))
                        else (Inr (mr_done result None), w3))))))"

end
