(* ===== verification/Merge_Props.thy ===== *)
theory Merge_Props
  imports Merge_Ready Review_Props
begin

text \<open>
  What exit 0 of the merge check rests on, from the verdict shards to the pull request.
\<close>

section \<open>Heads and checks\<close>


lemma hex_lower: "is_hex c \<Longrightarrow> lower_char c = c"
proof -
  assume "is_hex c"
  then have "of_char c \<le> (102::nat)" "of_char c < (58::nat) \<or> 97 \<le> (of_char c :: nat)"
    by (auto simp: is_hex_def Let_def)
  then show ?thesis by (auto simp: lower_char_def Let_def)
qed

lemma normalize_head_shape:
  "normalize_head v = Some h \<Longrightarrow> length h \<in> {40, 64} \<and> list_all is_hex h \<and> lower h = h \<and> h \<noteq> []"
proof -
  assume "normalize_head v = Some h"
  then have h: "length h \<in> {40, 64}" "list_all is_hex h" by (auto simp: normalize_head_def Let_def split: if_splits)
  then have "lower h = h" by (auto simp: lower_def list_all_iff hex_lower intro: map_idI)
  with h show ?thesis by auto
qed

lemma failed_names_Nil: "failed_names cs = [] \<longleftrightarrow> (\<forall>n. FailedCheck n \<notin> set cs)"
  by (induction cs rule: failed_names.induct) auto

lemma pending_names_Nil: "pending_names cs = [] \<longleftrightarrow> (\<forall>n. PendingCheck n \<notin> set cs)"
  by (induction cs rule: pending_names.induct) auto

lemma ci_green: "fst (ci_state r) = CiGreen \<longleftrightarrow> (\<exists>cs. r = JArr cs \<and> cs \<noteq> [] \<and> list_all (\<lambda>c. classify_check c = Passing) cs)"
proof (cases r)
  case (JArr cs)
  have "list_all (\<lambda>c. classify_check c = Passing) cs \<longleftrightarrow> failed_names (map classify_check cs) = [] \<and> pending_names (map classify_check cs) = []"
    unfolding failed_names_Nil pending_names_Nil list_all_iff by (auto simp: image_iff) (metis check.exhaust)
  with JArr show ?thesis by (cases cs) (auto simp: ci_state_def Let_def)
qed (simp_all add: ci_state_def)

lemma reason_if_Nil [simp]: "reason_if b r = [] \<longleftrightarrow> \<not> b"
  by (simp add: reason_if_def)

lemma evaluate_ready:
  assumes "mr_ready (evaluate t pr)"
  shows "\<exists>h. rv_head t = Some h \<and> h \<noteq> [] \<and> ta_state t = APPROVED
    \<and> rv_mismatched t = [] \<and> rv_unattributable t = [] \<and> rv_unrecognised t = [] \<and> rv_bad_edges t = []
    \<and> head_reasons t h = [] \<and> get_text (jget pr ''state'') = ''OPEN'' \<and> \<not> truthy (jget pr ''isDraft'')
    \<and> lower (get_text (jget pr ''headRefOid'')) = lower h
    \<and> (\<exists>cs. jget pr ''statusCheckRollup'' = JArr cs \<and> cs \<noteq> [] \<and> list_all (\<lambda>c. classify_check c = Passing) cs)"
proof -
  obtain ci names where ci: "ci_state (jget pr ''statusCheckRollup'') = (ci, names)" by (cases "ci_state (jget pr ''statusCheckRollup'')")
  from assms have "or_text (rv_head t) [] \<noteq> []" "ta_state t = APPROVED" "register_reasons t = []"
    "or_text (rv_head t) [] \<noteq> [] \<Longrightarrow> head_reasons t (or_text (rv_head t) []) = []"
    "get_text (jget pr ''state'') = ''OPEN''" "\<not> truthy (jget pr ''isDraft'')"
    "or_text (rv_head t) [] \<noteq> [] \<Longrightarrow> lower (get_text (jget pr ''headRefOid'')) = lower (or_text (rv_head t) [])"
    "ci = CiGreen"
    unfolding evaluate_def Let_def ci by (auto split: if_splits)
  moreover from this ci have "\<exists>cs. jget pr ''statusCheckRollup'' = JArr cs \<and> cs \<noteq> [] \<and> list_all (\<lambda>c. classify_check c = Passing) cs"
    using ci_green [of "jget pr ''statusCheckRollup''"] by simp
  ultimately show ?thesis
    by (cases "rv_head t") (auto simp: or_text_def register_reasons_def split: if_splits)
qed

text \<open>The tally a scan gives has a winning shard for every approval it counts.\<close>

lemma review_of_shape:
  assumes "review_of H req_doc head required names a = Inr t"
  shows "rv_head t = head
    \<and> (ta_state t = APPROVED \<longrightarrow> (\<forall>q \<in> set (ta_required t). \<exists>n k. map_of (rv_winning t) q = Some (n, Some Approve, k)))"
proof -
  from assms obtain kept folded where fo: "fold_newest_per_reviewer (sc_rows a) = Inr (kept, folded)"
    by (auto simp: review_of_def res_bind_Inr_iff)
  have k: "kept = map (\<lambda>rv. winner (shards_of rv (sc_rows a))) (reviewers (sc_rows a))" by (rule fold_kept [OF fo])
  let ?t = "tally_of (votes kept) required"
  from assms fo have t: "rv_head t = head" "ta_state t = ta_state ?t" "ta_required t = ta_required ?t"
    "rv_winning t = map (\<lambda>r. (sh_reviewer r, sh_name r, verdict_of (sh_verdict r), sh_key r)) kept"
    by (auto simp: review_of_def Let_def votes_def)
  show ?thesis
  proof (intro conjI impI ballI)
    fix q assume ap: "ta_state t = APPROVED" and q: "q \<in> set (ta_required t)"
    from ap q t(2,3) have qv: "q \<in> set (voted Approve (by_reviewer (votes kept)))"
      by (auto simp: tally_of_def Let_def list_all_iff split: if_splits option.splits)
    show "\<exists>n k. map_of (rv_winning t) q = Some (n, Some Approve, k)"
    proof -
      from voted_reviewer [OF qv k] have rv: "q \<in> set (reviewers (sc_rows a))" "q \<noteq> []" by auto
      let ?w = "winner (shards_of q (sc_rows a))"
      have v: "verdict_of (sh_verdict ?w) = Some Approve" using winner_vote [OF rv k] qv by simp
      have nm: "map fst (rv_winning t) = reviewers (sc_rows a)"
        unfolding t(4) k by (simp add: comp_def winner_reviewer map_idI)
      then have "distinct (map fst (rv_winning t))" by (simp add: reviewers_def)
      moreover have "(sh_reviewer ?w, sh_name ?w, verdict_of (sh_verdict ?w), sh_key ?w) \<in> set (rv_winning t)"
        unfolding t(4) k using rv(1) by force
      ultimately show ?thesis using v winner_reviewer [OF rv(1)] by (metis map_of_is_SomeI)
    qed
  qed (rule t(1))
qed

lemma tally_shape:
  assumes "review_tally H clock tr team slug w = (Inr (t, d, v, l), w')"
  shows "(\<forall>h. rv_head t = Some h \<longrightarrow> length h \<in> {40, 64} \<and> list_all is_hex h \<and> lower h = h)
    \<and> (ta_state t = APPROVED \<longrightarrow> (\<forall>q \<in> set (ta_required t). \<exists>n k. map_of (rv_winning t) q = Some (n, Some Approve, k)))"
proof -
  from assms obtain H' entries raw dl w1 ok sc w2 where
    "tally_from_verdict_entries H clock tr team slug entries raw dl w1 = (Inr (t, ok, sc), w2)"
    by (auto simp: review_tally_def split: prod.splits sum.splits option.splits)
  then obtain req_doc head required names a where r: "review_of H req_doc head required names a = Inr t"
    and h: "head = normalize_head (jget req_doc ''head'')"
    by (auto simp: tally_from_verdict_entries_def Let_def res_bind_Inr_iff split: prod.splits sum.splits)
  from review_of_shape [OF r] normalize_head_shape [of "jget req_doc ''head''"] h show ?thesis by auto
qed

section \<open>Merge-ready\<close>

text \<open>C5. Exit 0 of the merge check means what its report says: the register, all its listed verdicts and
  the pull request were read; the register names an exact head (40 or 64 hexadecimal digits), is
  APPROVED and has no mismatched, unattributable, unrecognised or malformed entry; each required
  reviewer has a winning approval whose file is a shard of that head; the pull request is open, is
  no draft and stands at that head; and it has at least one check, all of them passing.\<close>

theorem merge_ready_sound:
  assumes "cmd_review_merge_ready H clock tr F report team slug repo notify w = (Inr x, w')" "mx_rc x = 0"
  shows "\<exists>t w1 url w2 pr w3 h cs. review_tally H clock tr team slug w = (Inr (t, True, True, True), w1)
    \<and> parse_pr_url (rv_of t) repo = Some url \<and> pr_view F url w2 = (Some pr, w3)
    \<and> rv_head t = Some h \<and> length h \<in> {40, 64} \<and> list_all is_hex h \<and> ta_state t = APPROVED
    \<and> rv_mismatched t = [] \<and> rv_unattributable t = [] \<and> rv_unrecognised t = [] \<and> rv_bad_edges t = []
    \<and> (\<forall>q \<in> set (ta_required t). \<exists>n k. map_of (rv_winning t) q = Some (n, Some Approve, k) \<and> startswith n (h @ ''--''))
    \<and> get_text (jget pr ''state'') = ''OPEN'' \<and> \<not> truthy (jget pr ''isDraft'')
    \<and> lower (get_text (jget pr ''headRefOid'')) = h
    \<and> jget pr ''statusCheckRollup'' = JArr cs \<and> cs \<noteq> [] \<and> list_all (\<lambda>c. classify_check c = Passing) cs"
proof -
  from assms obtain t w1 url w2 pr w3 where
    rt: "review_tally H clock tr team slug w = (Inr (t, True, True, True), w1)" and
    url: "parse_pr_url (rv_of t) repo = Some url" and pv: "pr_view F url w2 = (Some pr, w3)" and
    rd: "mr_ready (evaluate t pr)"
    by (auto simp: cmd_review_merge_ready_def mr_stop_def mr_done_def Let_def
        split: prod.splits sum.splits option.splits if_splits)
  from evaluate_ready [OF rd] obtain h cs where
    e: "rv_head t = Some h" "h \<noteq> []" "ta_state t = APPROVED"
      "rv_mismatched t = []" "rv_unattributable t = []" "rv_unrecognised t = []" "rv_bad_edges t = []"
      "head_reasons t h = []" "get_text (jget pr ''state'') = ''OPEN''" "\<not> truthy (jget pr ''isDraft'')"
      "lower (get_text (jget pr ''headRefOid'')) = lower h"
      "jget pr ''statusCheckRollup'' = JArr cs" "cs \<noteq> []" "list_all (\<lambda>c. classify_check c = Passing) cs" by blast
  from tally_shape [OF rt] e(1,3) have
    s: "length h \<in> {40, 64}" "list_all is_hex h" "lower h = h"
       "\<forall>q \<in> set (ta_required t). \<exists>n k. map_of (rv_winning t) q = Some (n, Some Approve, k)" by auto
  have q: "\<forall>q \<in> set (ta_required t). \<exists>n k. map_of (rv_winning t) q = Some (n, Some Approve, k) \<and> startswith n (h @ ''--'')"
  proof
    fix q assume q: "q \<in> set (ta_required t)"
    with s(4) obtain n k where n: "map_of (rv_winning t) q = Some (n, Some Approve, k)" by blast
    with q e(8) have "startswith n (h @ ''--'')" by (fastforce simp: head_reasons_def winning_of_def)
    with n show "\<exists>n k. map_of (rv_winning t) q = Some (n, Some Approve, k) \<and> startswith n (h @ ''--'')" by blast
  qed
  show ?thesis using rt url pv e s(1,2) q unfolding s(3) by blast
qed

section \<open>Witness\<close>

definition demo_head :: string where
  "demo_head = replicate 40 (CHR ''a'')"

definition demo_tree :: "string \<Rightarrow> string option" where
  "demo_tree = map_of [(''team/t/review/s.md'', join nl [''---'', ''head: '' @ demo_head, ''required: ann'',
       ''of: https://github.com/o/r/pull/7'', ''---'']),
     (''team/t/review/s/verdicts/'' @ demo_head @ ''--ann.md'', join nl [''---'', ''head: '' @ demo_head, ''verdict: approve'', ''---''])]"

definition demo_reads :: "unit rtrans" where
  "demo_reads = \<lparr>rt_read = \<lambda>p w. (demo_tree p, w),
     rt_list = \<lambda>p w. (Some [\<lparr>en_name = demo_head @ ''--ann.md'', en_size = None, en_mtime = None, en_dir = False\<rparr>], w)\<rparr>"

definition demo_pr :: "(string \<times> json) list" where
  "demo_pr = [(''state'', JStr ''OPEN''), (''isDraft'', JBool False), (''headRefOid'', JStr demo_head),
     (''statusCheckRollup'', JArr [JObj [(''name'', JStr ''unit''), (''status'', JStr ''COMPLETED''), (''conclusion'', JStr ''SUCCESS'')]])]"

definition demo_forge :: "unit forge" where
  "demo_forge = \<lparr>fg_cli = \<lambda>w. ((''ok'', []), w), fg_gh = \<lambda>args w. (Some ''{...}'', w), fg_json = \<lambda>t. Some (JObj demo_pr)\<rparr>"

definition demo_hashes :: hashes where
  "demo_hashes = \<lparr>h_sha1 = \<lambda>t. ''00'', h_sha256 = \<lambda>t. ''00'', h_mtime_iso = \<lambda>m. None\<rparr>"

definition demo_exit :: "string + mr_exit" where
  "demo_exit = fst (cmd_review_merge_ready demo_hashes (\<lambda>w. (0, w)) demo_reads demo_forge (\<lambda>n r w. (None, w)) ''t'' ''s'' None None ())"

lemma demo_exit_ready: "(case demo_exit of Inl e \<Rightarrow> False | Inr x \<Rightarrow> mx_rc x = 0 \<and> mx_verdict x = ''ready'')"
  by code_simp

lemma merge_ready_sound_witness:
  "\<exists>(t::review) h cs. rv_head t = Some h \<and> ta_state t = APPROVED \<and> lower (get_text (jget demo_pr ''headRefOid'')) = h
     \<and> jget demo_pr ''statusCheckRollup'' = JArr cs \<and> cs \<noteq> []"
proof -
  obtain x where x: "cmd_review_merge_ready demo_hashes (\<lambda>w. (0, w)) demo_reads demo_forge (\<lambda>n r w. (None, w)) ''t'' ''s'' None None ()
      = (Inr x, ())" "mx_rc x = 0"
    using demo_exit_ready unfolding demo_exit_def by (auto split: sum.splits simp: prod_eq_iff)
  have pv: "pr_view demo_forge url w = (Some pr, w') \<Longrightarrow> pr = demo_pr" for url w pr w'
    by (simp add: pr_view_def demo_forge_def)
  from merge_ready_sound [OF x] pv show ?thesis by blast
qed

end
