(* ===== verification/Records.thy ===== *)
theory Records
  imports Review Py_Time
begin

text \<open>
  packages/coord-engine/coord_engine/records.py: the payload of a control-plane event, the sender of
  a record, the events of a window, the stream configuration with its authority block, and the
  version gates. A text that holds JSON is represented by what \<open>json.loads\<close> makes of it;
  a note that is no text is \<^const>\<open>NoText\<close>.
\<close>

section \<open>Payloads\<close>

definition PAYLOAD_VERSION :: int where "PAYLOAD_VERSION = 1"
definition PROTOCOL_VERSION :: int where "PROTOCOL_VERSION = 1"
definition CURSOR_SCHEMA_VERSION :: int where "CURSOR_SCHEMA_VERSION = 2"
definition READABLE_CURSOR_SCHEMAS :: "int list" where "READABLE_CURSOR_SCHEMAS = [1, 2]"
definition WRITABLE_CURSOR_SCHEMAS :: "int list" where "WRITABLE_CURSOR_SCHEMAS = [1, 2]"
definition CURSOR_SCHEMA_ENGINE_FLOORS :: "(int \<times> string) list" where
  "CURSOR_SCHEMA_ENGINE_FLOORS = [(2, ''1.9.0'')]"

definition EVENT_KINDS :: "string list" where
  "EVENT_KINDS = [''directive'', ''response'', ''verdict'', ''claim'', ''blocked'']"

definition BLOCKED_STATES :: "string list" where
  "BLOCKED_STATES = [''blocked'', ''cleared'']"

definition engine_stamp :: "string \<Rightarrow> (string \<times> json) list" where
  "engine_stamp version = [(''engine_version'', JStr version), (''protocol_version'', JNum PROTOCOL_VERSION),
     (''cursor_schema_version'', JNum CURSOR_SCHEMA_VERSION)]"

record outgoing =
  og_to :: string
  og_kind :: string
  og_priority :: string
  og_slug :: string
  og_ptr :: "string option"
  og_fyi :: bool
  og_for :: "string option"
  og_on :: "string option"
  og_state :: "string option"
  og_stamp :: "(string \<times> json) list option"

definition text_field :: "string \<Rightarrow> string option \<Rightarrow> (string \<times> json) list" where
  "text_field k x = (case x of Some (c # s) \<Rightarrow> [(k, JStr (c # s))] | _ \<Rightarrow> [])"

definition build_event :: "string \<Rightarrow> outgoing \<Rightarrow> string + json" where
  "build_event version g =
     (if og_kind g \<notin> set EVENT_KINDS then Inl ''ValueError''
      else if or_text (og_state g) [] \<noteq> [] \<and> or_text (og_state g) [] \<notin> set BLOCKED_STATES then Inl ''ValueError''
      else Inr (JObj
        ([(''v'', JNum PAYLOAD_VERSION), (''to'', JStr (og_to g)), (''kind'', JStr (og_kind g)),
          (''pri'', JStr (og_priority g)), (''slug'', JStr (og_slug g))]
         @ text_field ''ptr'' (og_ptr g) @ (if og_fyi g then [(''fyi'', JBool True)] else [])
         @ text_field ''on'' (og_on g) @ text_field ''state'' (og_state g) @ text_field ''for'' (og_for g)
         @ [(''writer'', JObj (case og_stamp g of Some (s # ss) \<Rightarrow> s # ss | _ \<Rightarrow> engine_stamp version))])))"

record payload_in =
  pl_to :: string
  pl_kind :: string
  pl_slug :: string
  pl_pri :: json
  pl_ptr :: json
  pl_fyi :: bool
  pl_for :: "string option"
  pl_on :: "string option"
  pl_state :: "string option"
  pl_writer :: "(string \<times> json) list option"

definition some_text :: "json \<Rightarrow> string option" where
  "some_text j = (case j of JStr (c # s) \<Rightarrow> Some (c # s) | _ \<Rightarrow> None)"

definition parse_payload :: "note_text \<Rightarrow> payload_in option" where
  "parse_payload n =
     (case n of
        Text (Some (JObj p)) \<Rightarrow>
          if \<not> is_num (jget p ''v'') PAYLOAD_VERSION then None
          else (case (jget p ''kind'', jget p ''to'', some_text (jget p ''slug'')) of
             (JStr k, JStr to, Some slug) \<Rightarrow>
               if k \<notin> set EVENT_KINDS then None
               else Some \<lparr>pl_to = to, pl_kind = k, pl_slug = slug, pl_pri = jget p ''pri'', pl_ptr = jget p ''ptr'',
                 pl_fyi = (jget p ''fyi'' = JBool True), pl_for = some_text (jget p ''for''),
                 pl_on = some_text (jget p ''on''),
                 pl_state = (case jget p ''state'' of JStr s \<Rightarrow> if s \<in> set BLOCKED_STATES then Some s else None | _ \<Rightarrow> None),
                 pl_writer = (case jget p ''writer'' of JObj d \<Rightarrow> Some d | _ \<Rightarrow> None)\<rparr>
           | _ \<Rightarrow> None)
      | _ \<Rightarrow> None)"

definition roundtrip_probe_payload :: "string \<Rightarrow> string \<Rightarrow> string \<Rightarrow> string + json" where
  "roundtrip_probe_payload version agent nonce =
     build_event version \<lparr>og_to = agent @ ''-probe'', og_kind = ''claim'', og_priority = ''P3'',
       og_slug = ''delivery-probe-'' @ nonce, og_ptr = None, og_fyi = False, og_for = None, og_on = None,
       og_state = None, og_stamp = None\<rparr>"

text \<open>The first source that is a name of an agent.\<close>

definition sender_of :: "srow \<Rightarrow> string option" where
  "sender_of r =
     List.find (\<lambda>s. s \<noteq> [] \<and> \<not> startswith s ''com.fulcradynamics.'') (List.map_filter as_str (sr_sources r))"

definition immutable_record_identity :: "srow \<Rightarrow> string option" where
  "immutable_record_identity r =
     (case sr_id r of JStr s \<Rightarrow> if strip s = [] \<or> strip (sr_at r) = [] then None else Some (strip s) | _ \<Rightarrow> None)"

section \<open>The events of a window\<close>

definition BROADCAST_TO :: string where "BROADCAST_TO = ''all''"

record bus_event =
  be_payload :: payload_in
  be_from :: "string option"
  be_at :: string
  be_id :: json

definition event_of :: "srow \<Rightarrow> payload_in \<Rightarrow> bus_event" where
  "event_of r p = \<lparr>be_payload = p, be_from = sender_of r, be_at = sr_at r, be_id = sr_id r\<rparr>"

text \<open>Repeated identities collapse to the first; a record without one always counts. An identity that is
  a list or an object raises.\<close>

fun collect_events :: "(payload_in \<Rightarrow> bool) \<Rightarrow> json list \<Rightarrow> srow list \<Rightarrow> string + bus_event list" where
  "collect_events keep seen [] = Inr []"
| "collect_events keep seen (r # rs) =
     (case parse_payload (sr_note r) of
        None \<Rightarrow> collect_events keep seen rs
      | Some p \<Rightarrow>
          if \<not> keep p then collect_events keep seen rs
          else if sr_id r = JNull then res_bind (collect_events keep seen rs) (\<lambda>es. Inr (event_of r p # es))
          else if \<not> (case sr_id r of JArr _ \<Rightarrow> False | JObj _ \<Rightarrow> False | _ \<Rightarrow> True) then Inl ''TypeError''
          else if sr_id r \<in> set seen then collect_events keep seen rs
          else res_bind (collect_events keep (sr_id r # seen) rs) (\<lambda>es. Inr (event_of r p # es)))"

definition addressed :: "string \<Rightarrow> payload_in \<Rightarrow> bool" where
  "addressed agent p \<longleftrightarrow> pl_to p = agent \<or> pl_to p = BROADCAST_TO"

definition events_for :: "srow list option \<Rightarrow> string \<Rightarrow> string + bus_event list option" where
  "events_for window agent =
     (case window of None \<Rightarrow> Inr None
      | Some rs \<Rightarrow> res_bind (collect_events (addressed agent) [] rs) (\<lambda>es. Inr (Some (sort_key be_at es))))"

definition fleet_events :: "srow list option \<Rightarrow> string + bus_event list option" where
  "fleet_events window =
     (case window of None \<Rightarrow> Inr None
      | Some rs \<Rightarrow> res_bind (collect_events (\<lambda>p. True) [] rs) (\<lambda>es. Inr (Some (sort_key be_at es))))"

datatype comparison = CmpUnknown | CmpMatch | CmpDivergent

definition compare_to_file_fold :: "bus_event list option \<Rightarrow> string list \<Rightarrow> comparison \<times> string list \<times> string list" where
  "compare_to_file_fold events file_slugs =
     (case events of None \<Rightarrow> (CmpUnknown, [], [])
      | Some es \<Rightarrow>
          (let slugs = map (\<lambda>e. pl_slug (be_payload e)) es;
               only_rec = sorted_set (filter (\<lambda>s. s \<notin> set file_slugs) slugs);
               only_file = sorted_set (filter (\<lambda>s. s \<notin> set slugs) file_slugs) in
           (if only_rec = [] \<and> only_file = [] then CmpMatch else CmpDivergent, only_rec, only_file)))"

section \<open>The writers of a window\<close>

definition stamp_of :: "payload_in \<Rightarrow> (json \<times> json \<times> json) option" where
  "stamp_of p =
     (case pl_writer p of None \<Rightarrow> None
      | Some d \<Rightarrow>
          (let t = (jget d ''engine_version'', jget d ''protocol_version'', jget d ''cursor_schema_version'') in
           if fst t = JNull \<or> fst (snd t) = JNull \<or> snd (snd t) = JNull then None else Some t))"

text \<open>The number of unstamped events and the set of stamps of a window.\<close>

definition observed_stamps :: "srow list \<Rightarrow> nat \<times> (json \<times> json \<times> json) list" where
  "observed_stamps rows =
     (let ps = List.map_filter (\<lambda>r. parse_payload (sr_note r)) rows in
      (length (filter (\<lambda>p. stamp_of p = None) ps), remdups (List.map_filter stamp_of ps)))"

definition mixed_writers :: "srow list option \<Rightarrow> bool" where
  "mixed_writers rows = (case rows of None \<Rightarrow> False | Some rs \<Rightarrow> 1 < length (snd (observed_stamps rs)))"

section \<open>Configuration and authority\<close>

definition CONFIG_NAME :: string where "CONFIG_NAME = ''_coord/bus-v3/records.json''"
definition DEFAULT_API_VERSION :: string where "DEFAULT_API_VERSION = ''v1alpha1''"
definition SCHEMA1_MINIMUM_ENGINE_VERSION :: string where "SCHEMA1_MINIMUM_ENGINE_VERSION = ''1.8.0''"
definition CURRENT_ENGINE_FIELD :: string where "CURRENT_ENGINE_FIELD = ''current_engine_version''"

definition records_config_path :: "string \<Rightarrow> string" where
  "records_config_path team = ''team/'' @ team @ ''/'' @ CONFIG_NAME"

text \<open>\<open>_SEMVER\<close> matched in full: three numbers and an optional tail on one line.\<close>

definition semver_tail :: "string \<Rightarrow> bool" where
  "semver_tail s = (case s of [] \<Rightarrow> True | c # r \<Rightarrow> (c = CHR ''-'' \<or> c = CHR ''+'') \<and> CHR 0x0A \<notin> set r)"

definition number_at :: "string \<Rightarrow> (int \<times> string) option" where
  "number_at s =
     map_option (\<lambda>n. (n, dropWhile is_digit s)) (py_int (takeWhile is_digit s))"

definition version_tuple :: "string \<Rightarrow> (int \<times> int \<times> int) option" where
  "version_tuple s =
     Option.bind (number_at s) (\<lambda>(a, r).
     Option.bind (skip_sep (CHR ''.'') True r) (\<lambda>r.
     Option.bind (number_at r) (\<lambda>(b, r).
     Option.bind (skip_sep (CHR ''.'') True r) (\<lambda>r.
     Option.bind (number_at r) (\<lambda>(c, r). if semver_tail r then Some (a, b, c) else None)))))"

record authority =
  au_protocol :: int
  au_schema :: int
  au_min_reader :: string
  au_min_writer :: string
  au_generation :: int
  au_activated :: "string option"

record config =
  cf_data_type :: string
  cf_api_version :: string
  cf_current :: "json option"
  cf_authority :: "authority option"

definition AUTHORITY_FIELDS :: "string list" where
  "AUTHORITY_FIELDS = [''protocol_version'', ''cursor_schema_version'', ''minimum_reader_version'',
     ''minimum_writer_version'', ''cursor_generation'', ''cursor_activated_at'']"

definition as_int :: "json \<Rightarrow> int option" where
  "as_int j = (case j of JNum n \<Rightarrow> Some n | _ \<Rightarrow> None)"

definition as_version :: "json \<Rightarrow> string option" where
  "as_version j = (case j of JStr s \<Rightarrow> if version_tuple s = None then None else Some s | _ \<Rightarrow> None)"

definition as_activation :: "json \<Rightarrow> string option option" where
  "as_activation j = (case j of JNull \<Rightarrow> Some None | JStr s \<Rightarrow> if strip s = [] then None else Some (Some s) | _ \<Rightarrow> None)"

definition parse_authority :: "(string \<times> json) list \<Rightarrow> authority option" where
  "parse_authority d =
     (case (as_int (jget d ''protocol_version''), as_int (jget d ''cursor_schema_version''), as_int (jget d ''cursor_generation''),
            as_version (jget d ''minimum_reader_version''), as_version (jget d ''minimum_writer_version''),
            as_activation (jget d ''cursor_activated_at'')) of
        (Some p, Some s, Some g, Some mr, Some mw, Some act) \<Rightarrow>
          if p < 1 \<or> s < 1 \<or> g < 0 then None
          else if s = 1 \<and> (g \<noteq> 0 \<or> act \<noteq> None) then None
          else if 2 \<le> s \<and> (g < 1 \<or> act = None) then None
          else Some \<lparr>au_protocol = p, au_schema = s, au_min_reader = mr, au_min_writer = mw, au_generation = g, au_activated = act\<rparr>
      | _ \<Rightarrow> None)"

definition parse_api_version :: "json \<Rightarrow> string option" where
  "parse_api_version j =
     (case j of JNull \<Rightarrow> Some DEFAULT_API_VERSION
      | JStr v \<Rightarrow> if strip v = [] then None else Some (strip v) | _ \<Rightarrow> None)"

definition parse_config :: "doc \<Rightarrow> config option" where
  "parse_config raw =
     (case raw of
        Some (JObj d) \<Rightarrow>
          (case (jget d ''data_type'', parse_api_version (jget d ''api_version'')) of
             (JStr ty, Some api) \<Rightarrow>
               if strip ty = [] then None
               else (let base = \<lparr>cf_data_type = strip ty, cf_api_version = api, cf_current = map_of d CURRENT_ENGINE_FIELD,
                                 cf_authority = None\<rparr> in
                     if list_all (\<lambda>k. map_of d k = None) AUTHORITY_FIELDS then Some base
                     else if list_ex (\<lambda>k. map_of d k = None) AUTHORITY_FIELDS then None
                     else map_option (\<lambda>a. base\<lparr>cf_authority := Some a\<rparr>) (parse_authority d))
           | _ \<Rightarrow> None)
      | _ \<Rightarrow> None)"

text \<open>The two environment overrides, stripped; the empty text is no override.\<close>

definition env_text :: "(string \<Rightarrow> string option) \<Rightarrow> string \<Rightarrow> string" where
  "env_text env k = strip (or_text (env k) [])"

definition overlay :: "(string \<Rightarrow> string option) \<Rightarrow> config \<Rightarrow> config" where
  "overlay env cfg =
     (let ty = env_text env ''COORD_RECORDS_TYPE''; api = env_text env ''COORD_RECORDS_API_VERSION'' in
      if ty = [] then cfg
      else cfg\<lparr>cf_data_type := ty, cf_api_version := (if api = [] then cf_api_version cfg else api)\<rparr>)"

definition env_config :: "(string \<Rightarrow> string option) \<Rightarrow> config option" where
  "env_config env =
     (let ty = env_text env ''COORD_RECORDS_TYPE''; api = env_text env ''COORD_RECORDS_API_VERSION'' in
      if ty = [] then None
      else Some \<lparr>cf_data_type = ty, cf_api_version = (if api = [] then DEFAULT_API_VERSION else api), cf_current = None,
                 cf_authority = None\<rparr>)"

definition load_config :: "(string \<Rightarrow> string option) \<Rightarrow> (string \<Rightarrow> 'w \<Rightarrow> doc option \<times> 'w) \<Rightarrow> string \<Rightarrow> 'w
    \<Rightarrow> config option \<times> 'w" where
  "load_config env read team w =
     (case read (records_config_path team) w of (raw, w') \<Rightarrow>
        (case raw of None \<Rightarrow> env_config env | Some d \<Rightarrow> map_option (overlay env) (parse_config d), w'))"

datatype load_state = LdOk | LdAbsent | LdInvalid | LdError

text \<open>A transport has a classified read, which the retry wraps, or only the plain one.\<close>

definition load_config_classified :: "(string \<Rightarrow> string option) \<Rightarrow> (string \<Rightarrow> 'w \<Rightarrow> doc option \<times> 'w)
    \<Rightarrow> (string \<Rightarrow> 'w \<Rightarrow> doc classified \<times> 'w) option \<Rightarrow> string \<Rightarrow> 'w
    \<Rightarrow> (string + (config option \<times> load_state)) \<times> 'w" where
  "load_config_classified env read retrying team w =
     (case retrying of
        None \<Rightarrow> (case load_config env read team w of (cfg, w') \<Rightarrow>
                   (Inr (cfg, if cfg = None then LdAbsent else LdOk), w'))
      | Some rd \<Rightarrow>
          (case rd (records_config_path team) w of (r, w') \<Rightarrow>
             (res_bind r (\<lambda>(raw, st). Inr (
                if st = StError then (None, LdError)
                else (case raw of
                   None \<Rightarrow> (case env_config env of None \<Rightarrow> (None, LdAbsent) | Some c \<Rightarrow> (Some c, LdOk))
                 | Some d \<Rightarrow> (case parse_config d of None \<Rightarrow> (None, LdInvalid) | Some c \<Rightarrow> (Some (overlay env c), LdOk))))), w')))"

text \<open>The stored authority alone, every step inside the deadline.\<close>

definition load_canonical_config_classified :: "'w clock \<Rightarrow> (deadline \<Rightarrow> string \<Rightarrow> 'w \<Rightarrow> doc classified \<times> 'w) option
    \<Rightarrow> string \<Rightarrow> deadline \<Rightarrow> 'w \<Rightarrow> (config option \<times> load_state) \<times> 'w" where
  "load_canonical_config_classified clock retrying team dl w =
     (case expired clock dl w of (late, w1) \<Rightarrow>
        if late then ((None, LdError), w1)
        else (case retrying of None \<Rightarrow> ((None, LdError), w1)
          | Some rd \<Rightarrow>
              (case rd dl (records_config_path team) w1 of
                 (Inl exc, w2) \<Rightarrow> ((None, LdError), w2)
               | (Inr (raw, st), w2) \<Rightarrow>
                   (case expired clock dl w2 of (late, w3) \<Rightarrow>
                      (if late \<or> st = StError then (None, LdError)
                       else (case raw of None \<Rightarrow> (None, LdAbsent)
                         | Some d \<Rightarrow> (case parse_config d of None \<Rightarrow> (None, LdInvalid) | Some c \<Rightarrow> (Some c, LdOk))), w3)))))"

section \<open>Migration of a legacy authority\<close>

datatype migration = MalformedBlocks | UnsupportedBlocks | Current "(string \<times> json) list" | ReadableLegacy "(string \<times> json) list"

definition schema1_fields :: "(string \<times> json) list" where
  "schema1_fields = [(''protocol_version'', JNum 1), (''cursor_schema_version'', JNum 1),
     (''minimum_reader_version'', JStr SCHEMA1_MINIMUM_ENGINE_VERSION), (''minimum_writer_version'', JStr SCHEMA1_MINIMUM_ENGINE_VERSION),
     (''cursor_generation'', JNum 0), (''cursor_activated_at'', JNull)]"

definition schema1_authority_migration_target :: "doc \<Rightarrow> migration" where
  "schema1_authority_migration_target raw =
     (case (raw, parse_config raw) of
        (Some (JObj d), Some cfg) \<Rightarrow>
          (case cf_authority cfg of
             Some a \<Rightarrow> if au_protocol a = 1 \<and> au_schema a = 1 then Current d else UnsupportedBlocks
           | None \<Rightarrow>
               (let target = fold (\<lambda>(k, v). dict_set k v) schema1_fields d in
                if parse_config (Some (JObj target)) = None then MalformedBlocks else ReadableLegacy target))
      | _ \<Rightarrow> MalformedBlocks)"

section \<open>Version gates\<close>

datatype gate = Allowed "string list" | Refused string

definition version_less :: "int \<times> int \<times> int \<Rightarrow> int \<times> int \<times> int \<Rightarrow> bool" where
  "version_less a b \<longleftrightarrow> fst a < fst b \<or> (fst a = fst b \<and> (fst (snd a) < fst (snd b)
     \<or> (fst (snd a) = fst (snd b) \<and> snd (snd a) < snd (snd b))))"

definition floor_name :: "bool \<Rightarrow> string" where
  "floor_name write_cursor = (if write_cursor then ''minimum_writer_version'' else ''minimum_reader_version'')"

definition reason_if_mixed :: "authority \<Rightarrow> string list" where
  "reason_if_mixed a =
     (if au_schema a \<noteq> CURSOR_SCHEMA_VERSION
      then [''mixed cursor semantics: authority v'' @ int_str (au_schema a) @ '', this engine stamps v'' @ int_str CURSOR_SCHEMA_VERSION]
      else [])"

definition compatibility :: "config \<Rightarrow> string \<Rightarrow> bool \<Rightarrow> gate" where
  "compatibility cfg engine_version write_cursor =
     (case cf_authority cfg of
        None \<Rightarrow> Allowed [''legacy bus-v3 authority has no fleet version fence; cursor v2 activation is forbidden'']
      | Some a \<Rightarrow>
          (let supported = (if write_cursor then WRITABLE_CURSOR_SCHEMAS else READABLE_CURSOR_SCHEMAS);
               floor_text = (if write_cursor then au_min_writer a else au_min_reader a) in
           if au_protocol a \<noteq> PROTOCOL_VERSION then
             Refused (''unsupported bus protocol v'' @ int_str (au_protocol a) @ '' (engine supports v'' @ int_str PROTOCOL_VERSION @ '')'')
           else if au_schema a \<notin> set supported then
             Refused (''cursor schema v'' @ int_str (au_schema a) @ '' is not safe to '' @ (if write_cursor then ''write'' else ''read'')
                @ '' (supported: '' @ join '','' (map int_str supported) @ '')'')
           else (case (version_tuple engine_version, version_tuple floor_text) of
              (Some own, Some flr) \<Rightarrow>
                if version_less own flr then
                  Refused (''coord-engine v'' @ engine_version @ '' is below '' @ floor_name write_cursor @ '' v'' @ floor_text)
                else (case map_of CURSOR_SCHEMA_ENGINE_FLOORS (au_schema a) of
                   Some t \<Rightarrow> (case version_tuple t of
                      Some sf \<Rightarrow> if version_less own sf then
                          Refused (''coord-engine v'' @ engine_version @ '' predates cursor schema v'' @ int_str (au_schema a)
                             @ '' support (requires v'' @ t @ '')'')
                        else Allowed (reason_if_mixed a)
                    | None \<Rightarrow> Allowed (reason_if_mixed a))
                 | None \<Rightarrow> Allowed (reason_if_mixed a))
            | _ \<Rightarrow> Refused (''unknown engine/floor version ('' @ repr_str engine_version @ '', '' @ repr_str floor_text @ '')''))))"

datatype currency = CurUnknown | CurStale | CurCurrent

definition authority_currency :: "config option \<Rightarrow> string \<Rightarrow> bool" where
  "authority_currency cfg engine_version =
     (case cfg of None \<Rightarrow> False
      | Some c \<Rightarrow> (case (version_tuple engine_version, cf_current c) of
          (Some own, Some (JStr t)) \<Rightarrow> (case version_tuple t of None \<Rightarrow> False | Some cur \<Rightarrow> version_less own cur)
        | _ \<Rightarrow> False))"

definition authority_currency_state :: "config option \<Rightarrow> string \<Rightarrow> currency" where
  "authority_currency_state cfg engine_version =
     (case cfg of None \<Rightarrow> CurUnknown
      | Some c \<Rightarrow> (case cf_current c of
          Some (JStr t) \<Rightarrow> if version_tuple t = None \<or> version_tuple engine_version = None then CurUnknown
                          else if authority_currency cfg engine_version then CurStale else CurCurrent
        | _ \<Rightarrow> CurUnknown))"

definition v2_active :: "config \<Rightarrow> bool" where
  "v2_active cfg =
     (case cf_authority cfg of None \<Rightarrow> False
      | Some a \<Rightarrow> au_schema a = 2 \<and> 0 < au_generation a \<and> (case au_activated a of None \<Rightarrow> False | Some s \<Rightarrow> strip s \<noteq> []))"

end
