(* ===== verification/Records_Props.thy ===== *)
theory Records_Props
  imports Records
begin

text \<open>
  The payload of an event reads back as it was built; the version gate never lets an engine below the
  declared floor through; and the migration of a legacy authority writes a complete one that keeps the
  stream and only fences engines below its floor.
\<close>

section \<open>Payloads\<close>

lemma text_field_get: "jget (text_field k x @ d) k' = (if k' = k \<and> or_text x [] \<noteq> [] then JStr (or_text x []) else jget d k')"
  by (auto simp: text_field_def or_text_def split: option.splits list.splits)

lemma text_field_keys: "k' \<noteq> k \<Longrightarrow> jget (text_field k x @ d) k' = jget d k'"
  by (simp add: text_field_get)

definition sent_text :: "string option \<Rightarrow> string option" where
  "sent_text x = (if or_text x [] = [] then None else x)"

lemma some_text_field: "some_text (if or_text x [] \<noteq> [] then JStr (or_text x []) else JNull) = sent_text x"
  by (auto simp: some_text_def sent_text_def or_text_def split: option.splits list.splits)

text \<open>What a reader makes of an event is what its writer said: every payload \<^const>\<open>build_event\<close> accepts
  for a named slug parses back to the same recipient, kind, slug, priority, notification flag, discharge,
  blocking subject and state, with an empty optional text read as absent, and with the stamp of its writer.\<close>

theorem event_round_trip:
  assumes "build_event version g = Inr j" "og_slug g \<noteq> []"
  shows "\<exists>p. parse_payload (Text (Some j)) = Some p \<and> pl_to p = og_to g \<and> pl_kind p = og_kind g \<and> pl_slug p = og_slug g
    \<and> pl_pri p = JStr (og_priority g) \<and> some_text (pl_ptr p) = sent_text (og_ptr g) \<and> pl_fyi p = og_fyi g
    \<and> pl_for p = sent_text (og_for g) \<and> pl_on p = sent_text (og_on g) \<and> pl_state p = sent_text (og_state g)
    \<and> (\<exists>d. pl_writer p = Some d \<and> (og_stamp g = None \<longrightarrow> d = engine_stamp version))"
proof -
  from assms obtain d where k: "og_kind g \<in> set EVENT_KINDS"
    and st: "or_text (og_state g) [] = [] \<or> or_text (og_state g) [] \<in> set BLOCKED_STATES" and j: "j = JObj d"
    and d: "d = [(''v'', JNum PAYLOAD_VERSION), (''to'', JStr (og_to g)), (''kind'', JStr (og_kind g)),
          (''pri'', JStr (og_priority g)), (''slug'', JStr (og_slug g))]
         @ text_field ''ptr'' (og_ptr g) @ (if og_fyi g then [(''fyi'', JBool True)] else [])
         @ text_field ''on'' (og_on g) @ text_field ''state'' (og_state g) @ text_field ''for'' (og_for g)
         @ [(''writer'', JObj (case og_stamp g of Some (s # ss) \<Rightarrow> s # ss | _ \<Rightarrow> engine_stamp version))]"
    by (auto simp: build_event_def split: if_splits)
  have get: "jget d ''v'' = JNum PAYLOAD_VERSION" "jget d ''to'' = JStr (og_to g)" "jget d ''kind'' = JStr (og_kind g)"
    "jget d ''pri'' = JStr (og_priority g)" "jget d ''slug'' = JStr (og_slug g)"
    "jget d ''ptr'' = (if or_text (og_ptr g) [] \<noteq> [] then JStr (or_text (og_ptr g) []) else JNull)"
    "(jget d ''fyi'' = JBool True) = og_fyi g"
    "jget d ''on'' = (if or_text (og_on g) [] \<noteq> [] then JStr (or_text (og_on g) []) else JNull)"
    "jget d ''state'' = (if or_text (og_state g) [] \<noteq> [] then JStr (or_text (og_state g) []) else JNull)"
    "jget d ''for'' = (if or_text (og_for g) [] \<noteq> [] then JStr (or_text (og_for g) []) else JNull)"
    "jget d ''writer'' = JObj (case og_stamp g of Some (s # ss) \<Rightarrow> s # ss | _ \<Rightarrow> engine_stamp version)"
    by (simp_all add: d text_field_get)
  have "some_text (JStr (og_slug g)) = Some (og_slug g)"
    using assms(2) by (cases "og_slug g") (simp_all add: some_text_def)
  moreover have "(case jget d ''state'' of JStr s \<Rightarrow> if s \<in> set BLOCKED_STATES then Some s else None | _ \<Rightarrow> None) = sent_text (og_state g)"
    using st by (auto simp: get(9) sent_text_def or_text_def split: option.splits)
  ultimately show ?thesis
    using k by (auto simp: parse_payload_def j get some_text_field split: option.splits list.splits)
qed

theorem event_round_trip_witness:
  "\<exists>p. Option.bind (case roundtrip_probe_payload ''2.0.0'' ''ann'' ''x1'' of Inr j \<Rightarrow> Some j | _ \<Rightarrow> None)
        (\<lambda>j. parse_payload (Text (Some j))) = Some p
     \<and> pl_to p = ''ann-probe'' \<and> pl_kind p = ''claim'' \<and> pl_writer p = Some (engine_stamp ''2.0.0'')"
proof -
  obtain j where j: "roundtrip_probe_payload ''2.0.0'' ''ann'' ''x1'' = Inr j"
    by (simp add: roundtrip_probe_payload_def build_event_def EVENT_KINDS_def or_text_def)
  then show ?thesis
    using event_round_trip[OF j[unfolded roundtrip_probe_payload_def]] by auto
qed

section \<open>Version gates\<close>

text \<open>The gate is strict: under a versioned authority an engine is let through only if the protocol is
  its own, the cursor schema is one it reads or writes, its version and the floor both parse, it is not
  below the declared floor and not below the floor of the schema itself.\<close>

theorem gate_never_below_floor:
  assumes "compatibility cfg engine_version write_cursor = Allowed warnings" "cf_authority cfg = Some a"
  shows "au_protocol a = PROTOCOL_VERSION
    \<and> au_schema a \<in> set (if write_cursor then WRITABLE_CURSOR_SCHEMAS else READABLE_CURSOR_SCHEMAS)
    \<and> (\<exists>own low. version_tuple engine_version = Some own
         \<and> version_tuple (if write_cursor then au_min_writer a else au_min_reader a) = Some low \<and> \<not> version_less own low
         \<and> (au_schema a = 2 \<longrightarrow> \<not> version_less own (1, 9, 0)))"
proof -
  have "version_tuple ''1.9.0'' = Some (1, 9, 0)" by code_simp
  with assms show ?thesis
    by (auto simp: compatibility_def Let_def CURSOR_SCHEMA_ENGINE_FLOORS_def split: if_splits option.splits)
qed


definition demo_authority :: authority where
  "demo_authority = \<lparr>au_protocol = 1, au_schema = 2, au_min_reader = ''1.8.0'', au_min_writer = ''1.10.2'', au_generation = 1,
     au_activated = Some ''2026-08-01T00:00:00Z''\<rparr>"

definition demo_config :: config where
  "demo_config = \<lparr>cf_data_type = ''bus'', cf_api_version = ''v1alpha1'', cf_current = None, cf_authority = Some demo_authority\<rparr>"

theorem gate_never_below_floor_witness:
  "compatibility demo_config ''1.11.0'' True = Allowed [] \<and> \<not> version_less (1, 11, 0) (1, 10, 2)"
proof -
  have "compatibility demo_config ''1.11.0'' True = Allowed []" by code_simp
  moreover have "cf_authority demo_config = Some demo_authority" by (simp add: demo_config_def)
  moreover have "version_tuple ''1.11.0'' = Some (1, 11, 0)" "version_tuple (au_min_writer demo_authority) = Some (1, 10, 2)" by code_simp+
  ultimately show ?thesis using gate_never_below_floor[of demo_config "''1.11.0''" True "[]" demo_authority] by auto
qed

section \<open>Migration\<close>

definition schema1_authority :: authority where
  "schema1_authority = \<lparr>au_protocol = 1, au_schema = 1, au_min_reader = SCHEMA1_MINIMUM_ENGINE_VERSION,
     au_min_writer = SCHEMA1_MINIMUM_ENGINE_VERSION, au_generation = 0, au_activated = None\<rparr>"

lemma schema1_version: "version_tuple SCHEMA1_MINIMUM_ENGINE_VERSION = Some (1, 8, 0)"
  by code_simp

lemma schema1_get:
  "map_of (fold (\<lambda>(k, v). dict_set k v) schema1_fields d) k
     = (case map_of schema1_fields k of Some v \<Rightarrow> Some v | None \<Rightarrow> map_of d k)"
  by (auto simp: schema1_fields_def)

lemma parse_config_legacy:
  assumes "parse_config (Some (JObj d)) = Some cfg" "cf_authority cfg = None"
  shows "parse_config (Some (JObj (fold (\<lambda>(k, v). dict_set k v) schema1_fields d))) = Some (cfg\<lparr>cf_authority := Some schema1_authority\<rparr>)"
proof -
  let ?t = "fold (\<lambda>(k, v). dict_set k v) schema1_fields d"
  have same: "jget ?t ''data_type'' = jget d ''data_type''" "jget ?t ''api_version'' = jget d ''api_version''"
    "map_of ?t CURRENT_ENGINE_FIELD = map_of d CURRENT_ENGINE_FIELD"
    by (simp_all add: jget_def schema1_get schema1_fields_def CURRENT_ENGINE_FIELD_def)
  have here: "\<not> list_all (\<lambda>k. map_of ?t k = None) AUTHORITY_FIELDS" "\<not> list_ex (\<lambda>k. map_of ?t k = None) AUTHORITY_FIELDS"
    by (simp_all add: AUTHORITY_FIELDS_def schema1_get schema1_fields_def)
  have auth: "parse_authority ?t = Some schema1_authority"
    by (simp add: parse_authority_def jget_def schema1_get schema1_fields_def as_int_def as_version_def as_activation_def
        schema1_version schema1_authority_def)
  from assms here show ?thesis
    by (auto simp: parse_config_def same auth Let_def split: json.splits option.splits if_splits)
qed

lemma schema1_allowed:
  assumes "cf_authority cfg = Some schema1_authority" "version_tuple v = Some own" "\<not> version_less own (1, 8, 0)"
  shows "\<exists>ws. compatibility cfg v w = Allowed ws"
  using assms by (auto simp: compatibility_def schema1_authority_def schema1_version PROTOCOL_VERSION_def READABLE_CURSOR_SCHEMAS_def
      WRITABLE_CURSOR_SCHEMAS_def CURSOR_SCHEMA_ENGINE_FLOORS_def)

text \<open>Migrating a well-formed legacy authority always succeeds: the target document parses, names the
  same stream, API version and current engine, declares the complete schema-1 authority, does not
  activate the transactional cursor, lets every engine from 1.8.0 read and write, and migrates to itself.\<close>

theorem legacy_migration_complete:
  assumes "parse_config (Some (JObj d)) = Some cfg" "cf_authority cfg = None"
  shows "\<exists>t cfg'. schema1_authority_migration_target (Some (JObj d)) = ReadableLegacy t
    \<and> parse_config (Some (JObj t)) = Some cfg' \<and> cf_data_type cfg' = cf_data_type cfg \<and> cf_api_version cfg' = cf_api_version cfg
    \<and> cf_current cfg' = cf_current cfg \<and> cf_authority cfg' = Some schema1_authority \<and> \<not> v2_active cfg'
    \<and> (\<forall>v own w. version_tuple v = Some own \<longrightarrow> \<not> version_less own (1, 8, 0) \<longrightarrow> (\<exists>ws. compatibility cfg' v w = Allowed ws))
    \<and> schema1_authority_migration_target (Some (JObj t)) = Current t"
proof -
  let ?t = "fold (\<lambda>(k, v). dict_set k v) schema1_fields d" and ?c = "cfg\<lparr>cf_authority := Some schema1_authority\<rparr>"
  have p: "parse_config (Some (JObj ?t)) = Some ?c" by (rule parse_config_legacy[OF assms])
  have "schema1_authority_migration_target (Some (JObj d)) = ReadableLegacy ?t"
    using assms p by (simp add: schema1_authority_migration_target_def)
  moreover have "schema1_authority_migration_target (Some (JObj ?t)) = Current ?t"
    using p by (simp add: schema1_authority_migration_target_def schema1_authority_def)
  moreover have "\<not> v2_active ?c" by (simp add: v2_active_def schema1_authority_def)
  ultimately show ?thesis using p schema1_allowed[of ?c] by fastforce
qed

theorem legacy_migration_complete_witness:
  "\<exists>t cfg'. schema1_authority_migration_target (Some (JObj [(''data_type'', JStr ''bus''), (''note'', JStr ''x'')])) = ReadableLegacy t
    \<and> parse_config (Some (JObj t)) = Some cfg' \<and> cf_data_type cfg' = ''bus'' \<and> cf_authority cfg' = Some schema1_authority"
proof -
  have "parse_config (Some (JObj [(''data_type'', JStr ''bus''), (''note'', JStr ''x'')]))
      = Some \<lparr>cf_data_type = ''bus'', cf_api_version = DEFAULT_API_VERSION, cf_current = None, cf_authority = None\<rparr>"
    by code_simp
  from legacy_migration_complete[OF this] show ?thesis by auto
qed

end
