(* ===== verification/Records_Cursor.thy ===== *)
theory Records_Cursor
  imports Records Obligations
begin

text \<open>
  The cursors of packages/coord-engine/coord_engine/records.py: the legacy cursor, the transactional
  cursor of an activated generation with its compare-and-swap, and the metrics folded from what was
  delivered. The transport's atomic compare-and-swap has no implementation in this repository: it is
  an optional operation of the transport, as the code has it. The digest of a delivery is a parameter,
  applied to the object whose text the code hashes.
\<close>

section \<open>Canonical texts\<close>

text \<open>\<open>json.dumps(doc, sort_keys=True)\<close>, as the value whose keys are in that order.\<close>

fun sort_keys :: "json \<Rightarrow> json" where
  "sort_keys (JArr xs) = JArr (map sort_keys xs)"
| "sort_keys (JObj d) = JObj (sort_key fst (map (\<lambda>(k, v). (k, sort_keys v)) d))"
| "sort_keys JNull = JNull"
| "sort_keys (JBool b) = JBool b"
| "sort_keys (JNum n) = JNum n"
| "sort_keys (JStr s) = JStr s"

definition sort_row :: "(string \<times> json) list \<Rightarrow> (string \<times> json) list" where
  "sort_row d = sort_key fst (map (\<lambda>(k, v). (k, sort_keys v)) d)"

section \<open>The legacy cursor\<close>

definition CURSOR_VERSION :: int where "CURSOR_VERSION = 1"
definition V2_CURSOR_VERSION :: int where "V2_CURSOR_VERSION = 2"
definition RECORDS_LOOKBACK_SECONDS :: int where "RECORDS_LOOKBACK_SECONDS = 7 * 24 * 3600"
definition CURSOR_SKEW_SECONDS :: int where "CURSOR_SKEW_SECONDS = 120"
definition SEEN_IDS_CAP :: nat where "SEEN_IDS_CAP = 500"
definition COMMITTED_TOKENS_CAP :: nat where "COMMITTED_TOKENS_CAP = 100"

definition DELIVERY_OUTCOMES :: "string list" where
  "DELIVERY_OUTCOMES = [''completed'', ''blocked'', ''superseded'', ''ignored'']"

definition cursor_path :: "string \<Rightarrow> string \<Rightarrow> string" where
  "cursor_path team agent = ''team/'' @ team @ ''/_coord/agents/'' @ agent @ ''/records-cursor.json''"

definition v2_cursor_path :: "string \<Rightarrow> string \<Rightarrow> int \<Rightarrow> string + string" where
  "v2_cursor_path team agent g =
     (if g < 1 then Inl ''ValueError''
      else Inr (''team/'' @ team @ ''/_coord/bus-v3/cursors/v2/generation-'' @ int_str g @ ''/'' @ agent @ ''.json''))"

record legacy_cursor =
  lc_last_read :: string
  lc_seen :: "string list"

definition parse_legacy_cursor :: "doc \<Rightarrow> legacy_cursor option" where
  "parse_legacy_cursor raw =
     (case raw of
        Some (JObj d) \<Rightarrow>
          if \<not> is_num (jget d ''v'') CURSOR_VERSION then None
          else (case (jget d ''last_read'', jget d ''seen_ids'') of
             (JStr stamp, JNull) \<Rightarrow> if strip stamp = [] then None else Some \<lparr>lc_last_read = strip stamp, lc_seen = []\<rparr>
           | (JStr stamp, JArr xs) \<Rightarrow>
               if strip stamp = [] then None
               else Some \<lparr>lc_last_read = strip stamp, lc_seen = List.map_filter as_str xs\<rparr>
           | _ \<Rightarrow> None)
      | _ \<Rightarrow> None)"

text \<open>The operations of a transport that the cursors use. A text that was read is its JSON value; a read
  that found nothing is \<^const>\<open>None\<close>.\<close>

record 'w cursor_trans =
  ct_plain :: "string \<Rightarrow> 'w \<Rightarrow> doc option \<times> 'w"
  ct_read :: "(string \<Rightarrow> 'w \<Rightarrow> doc classified \<times> 'w) option"
  ct_write :: "string \<Rightarrow> json \<Rightarrow> 'w \<Rightarrow> bool \<times> 'w"
  ct_cas :: "(string \<Rightarrow> doc option \<Rightarrow> doc \<Rightarrow> 'w \<Rightarrow> (string + bool) \<times> 'w) option"

definition load_cursor :: "'w cursor_trans \<Rightarrow> string \<Rightarrow> string \<Rightarrow> 'w \<Rightarrow> legacy_cursor option \<times> 'w" where
  "load_cursor T team agent w =
     (case ct_plain T (cursor_path team agent) w of (raw, w') \<Rightarrow> (Option.bind raw parse_legacy_cursor, w'))"

definition classify_cursor :: "doc option \<Rightarrow> legacy_cursor option \<times> load_state" where
  "classify_cursor raw =
     (case raw of None \<Rightarrow> (None, LdAbsent)
      | Some d \<Rightarrow> (case parse_legacy_cursor d of None \<Rightarrow> (None, LdInvalid) | Some c \<Rightarrow> (Some c, LdOk)))"

definition load_legacy_cursor_classified :: "'w cursor_trans \<Rightarrow> string \<Rightarrow> string \<Rightarrow> 'w
    \<Rightarrow> (string + (legacy_cursor option \<times> load_state)) \<times> 'w" where
  "load_legacy_cursor_classified T team agent w =
     (case ct_read T of None \<Rightarrow> (Inr (None, LdError), w)
      | Some rd \<Rightarrow>
          (case rd (cursor_path team agent) w of (r, w') \<Rightarrow>
             (res_bind r (\<lambda>(raw, st). Inr (if st = StError then (None, LdError) else classify_cursor raw)), w')))"

definition load_cursor_classified :: "'w cursor_trans \<Rightarrow> string \<Rightarrow> string \<Rightarrow> 'w
    \<Rightarrow> (string + (legacy_cursor option \<times> load_state)) \<times> 'w" where
  "load_cursor_classified T team agent w =
     (case ct_read T of
        None \<Rightarrow> (case ct_plain T (cursor_path team agent) w of (raw, w') \<Rightarrow> (Inr (classify_cursor raw), w'))
      | Some rd \<Rightarrow> load_legacy_cursor_classified T team agent w)"

definition CONSUME_AUDIT_PREFIX :: string where "CONSUME_AUDIT_PREFIX = ''_coord/audit/consume''"

definition consume_audit_path :: "string \<Rightarrow> string \<Rightarrow> string \<Rightarrow> string \<Rightarrow> string" where
  "consume_audit_path team stamp caller target =
     ''team/'' @ team @ ''/'' @ CONSUME_AUDIT_PREFIX @ ''/'' @ stamp @ ''-'' @ caller @ ''-takes-'' @ target @ ''.md''"

definition legacy_json :: "string \<Rightarrow> string list \<Rightarrow> json" where
  "legacy_json last_read seen =
     JObj [(''v'', JNum CURSOR_VERSION), (''last_read'', JStr last_read),
           (''seen_ids'', JArr (map JStr (keep_last SEEN_IDS_CAP seen)))]"

definition save_cursor :: "'w cursor_trans \<Rightarrow> string \<Rightarrow> string \<Rightarrow> string \<Rightarrow> string list \<Rightarrow> 'w \<Rightarrow> bool \<times> 'w" where
  "save_cursor T team agent last_read seen w =
     ct_write T (cursor_path team agent) (legacy_json last_read seen) w"

section \<open>The transactional cursor\<close>

text \<open>A staged delivery. What else the stored object holds is never written back: a cursor with a staged
  delivery is replaced only by one without.\<close>

record pending =
  pd_token :: string
  pd_base :: int
  pd_staged :: string
  pd_start :: string
  pd_end :: string
  pd_events :: "(string \<times> json) list list"

record vcursor =
  vc_generation :: int
  vc_revision :: int
  vc_last_read :: "string option"
  vc_seen :: "string list"
  vc_last_token :: "string option"
  vc_tokens :: "string list"
  vc_handled :: "(string \<times> json) list list"
  vc_pending :: "pending option"

definition as_obj :: "json \<Rightarrow> (string \<times> json) list option" where
  "as_obj j = (case j of JObj d \<Rightarrow> Some d | _ \<Rightarrow> None)"

definition as_list :: "(json \<Rightarrow> 'a option) \<Rightarrow> json \<Rightarrow> 'a list option" where
  "as_list f j = (case j of JArr xs \<Rightarrow> all_some f xs | _ \<Rightarrow> None)"

definition as_opt :: "(json \<Rightarrow> 'a option) \<Rightarrow> json \<Rightarrow> 'a option option" where
  "as_opt f j = (if j = JNull then Some None else map_option Some (f j))"

definition as_words :: "json \<Rightarrow> string option" where
  "as_words j = (case j of JStr s \<Rightarrow> if strip s = [] then None else Some s | _ \<Rightarrow> None)"

definition as_handled :: "json \<Rightarrow> (string \<times> json) list option" where
  "as_handled j =
     (case j of JObj d \<Rightarrow>
        (if is_str (jget d ''record_id'') \<and> jget d ''outcome'' \<in> set (map JStr DELIVERY_OUTCOMES) \<and> is_str (jget d ''token'')
         then Some d else None)
      | _ \<Rightarrow> None)"

definition parse_pending :: "int \<Rightarrow> json \<Rightarrow> pending option" where
  "parse_pending revision j =
     Option.bind (as_obj j) (\<lambda>d.
     Option.bind (as_words (jget d ''token'')) (\<lambda>tok.
     Option.bind (as_words (jget d ''staged_at'')) (\<lambda>staged.
     Option.bind (as_words (jget d ''window_start'')) (\<lambda>start.
     Option.bind (as_words (jget d ''window_end'')) (\<lambda>stop.
     if jget d ''base_revision'' \<noteq> JNum revision then None
     else map_option (\<lambda>es. \<lparr>pd_token = tok, pd_base = revision, pd_staged = staged, pd_start = start, pd_end = stop,
            pd_events = es\<rparr>) (as_list as_obj (jget d ''events'')))))))"

definition parse_v2_cursor :: "int \<Rightarrow> doc \<Rightarrow> vcursor option" where
  "parse_v2_cursor g raw =
     Option.bind (Option.bind raw as_obj) (\<lambda>d.
     if \<not> is_num (jget d ''v'') V2_CURSOR_VERSION \<or> \<not> is_num (jget d ''authority_generation'') g then None else
     Option.bind (as_int (jget d ''revision'')) (\<lambda>rev.
     if rev < 0 then None else
     Option.bind (as_obj (jget d ''committed'')) (\<lambda>cm.
     Option.bind (as_opt as_words (jget cm ''last_read'')) (\<lambda>lread.
     Option.bind (as_list as_str (jget cm ''seen_ids'')) (\<lambda>seen.
     Option.bind (as_opt (parse_pending rev) (jget d ''pending'')) (\<lambda>pend.
     Option.bind (as_opt as_str (jget cm ''last_token'')) (\<lambda>ltok.
     Option.bind (as_list as_str (jget cm ''committed_tokens'')) (\<lambda>toks.
     map_option (\<lambda>hs. \<lparr>vc_generation = g, vc_revision = rev, vc_last_read = map_option strip lread,
         vc_seen = keep_last SEEN_IDS_CAP seen, vc_last_token = ltok, vc_tokens = keep_last COMMITTED_TOKENS_CAP toks,
         vc_handled = keep_last SEEN_IDS_CAP hs, vc_pending = pend\<rparr>)
       (as_list as_handled (jget cm ''handled''))))))))))"

definition initial_v2_cursor :: "int \<Rightarrow> legacy_cursor option \<Rightarrow> vcursor" where
  "initial_v2_cursor g legacy =
     \<lparr>vc_generation = g, vc_revision = 0, vc_last_read = map_option lc_last_read legacy,
      vc_seen = (case legacy of None \<Rightarrow> [] | Some l \<Rightarrow> keep_last SEEN_IDS_CAP (lc_seen l)),
      vc_last_token = None, vc_tokens = [], vc_handled = [], vc_pending = None\<rparr>"

definition json_opt :: "string option \<Rightarrow> json" where
  "json_opt x = (case x of None \<Rightarrow> JNull | Some s \<Rightarrow> JStr s)"

definition pending_json :: "pending \<Rightarrow> json" where
  "pending_json p = JObj [(''token'', JStr (pd_token p)), (''base_revision'', JNum (pd_base p)),
     (''staged_at'', JStr (pd_staged p)), (''window_start'', JStr (pd_start p)), (''window_end'', JStr (pd_end p)),
     (''events'', JArr (map JObj (pd_events p)))]"

definition cursor_json :: "vcursor \<Rightarrow> json" where
  "cursor_json c = JObj [(''v'', JNum V2_CURSOR_VERSION), (''authority_generation'', JNum (vc_generation c)),
     (''revision'', JNum (vc_revision c)),
     (''committed'', JObj [(''last_read'', json_opt (vc_last_read c)), (''seen_ids'', JArr (map JStr (vc_seen c))),
        (''last_token'', json_opt (vc_last_token c)), (''committed_tokens'', JArr (map JStr (vc_tokens c))),
        (''handled'', JArr (map JObj (vc_handled c)))]),
     (''pending'', case vc_pending c of None \<Rightarrow> JNull | Some p \<Rightarrow> pending_json p)]"

definition render_v2_cursor :: "vcursor \<Rightarrow> doc" where
  "render_v2_cursor c = Some (sort_keys (cursor_json c))"

text \<open>The cursor, the exact text it was read from and the class of the read.\<close>

definition load_v2_cursor_classified :: "'w cursor_trans \<Rightarrow> string \<Rightarrow> string \<Rightarrow> int \<Rightarrow> 'w
    \<Rightarrow> (string + (vcursor option \<times> doc option \<times> load_state)) \<times> 'w" where
  "load_v2_cursor_classified T team agent g w =
     (case ct_read T of None \<Rightarrow> (Inr (None, None, LdError), w)
      | Some rd \<Rightarrow>
          (case v2_cursor_path team agent g of Inl e \<Rightarrow> (Inl e, w)
           | Inr path \<Rightarrow>
               (case rd path w of (r, w') \<Rightarrow>
                  (res_bind r (\<lambda>(raw, st). Inr (
                     if st = StError then (None, None, LdError)
                     else (case raw of None \<Rightarrow> (None, None, LdAbsent)
                       | Some d \<Rightarrow> (case parse_v2_cursor g d of None \<Rightarrow> (None, Some d, LdInvalid)
                                     | Some c \<Rightarrow> (Some c, Some d, LdOk))))), w'))))"

definition v2_transport_ready :: "'w cursor_trans \<Rightarrow> bool" where
  "v2_transport_ready T \<longleftrightarrow> ct_cas T \<noteq> None"

definition cas :: "'w cursor_trans \<Rightarrow> string \<Rightarrow> doc option \<Rightarrow> vcursor \<Rightarrow> 'w \<Rightarrow> (string + bool option) \<times> 'w" where
  "cas T path expected c w =
     (case ct_cas T of None \<Rightarrow> (Inr None, w)
      | Some op \<Rightarrow> (case op path expected (render_v2_cursor c) w of (r, w') \<Rightarrow> (res_bind r (\<lambda>b. Inr (Some b)), w')))"

section \<open>Staging and committing a delivery\<close>

definition token_material :: "string \<Rightarrow> int \<Rightarrow> int \<Rightarrow> string \<Rightarrow> string \<Rightarrow> string \<Rightarrow> (string \<times> json) list list \<Rightarrow> json" where
  "token_material agent g base staged start stop events =
     JObj [(''agent'', JStr agent), (''authority_generation'', JNum g), (''base_revision'', JNum base),
       (''staged_at'', JStr staged), (''window_start'', JStr start), (''window_end'', JStr stop),
       (''event_ids'', JArr (map (\<lambda>e. jget e ''record_id'') events))]"

definition delivery_token :: "(json \<Rightarrow> string) \<Rightarrow> string \<Rightarrow> int \<Rightarrow> int \<Rightarrow> string \<Rightarrow> string \<Rightarrow> string
    \<Rightarrow> (string \<times> json) list list \<Rightarrow> string" where
  "delivery_token digest agent g base staged start stop events =
     digest (sort_keys (token_material agent g base staged start stop events))"

definition staged_cursor :: "(json \<Rightarrow> string) \<Rightarrow> string \<Rightarrow> int \<Rightarrow> vcursor \<Rightarrow> string \<Rightarrow> string \<Rightarrow> string
    \<Rightarrow> (string \<times> json) list list \<Rightarrow> vcursor" where
  "staged_cursor digest agent g c staged start stop events =
     c\<lparr>vc_pending := Some \<lparr>pd_token = delivery_token digest agent g (vc_revision c) staged start stop events,
         pd_base = vc_revision c, pd_staged = staged, pd_start = start, pd_end = stop, pd_events = events\<rparr>\<rparr>"

datatype stage_result = Replay vcursor | StageUnsupported | Lost | Staged vcursor

definition stage_v2_delivery :: "(json \<Rightarrow> string) \<Rightarrow> 'w cursor_trans \<Rightarrow> string \<Rightarrow> string \<Rightarrow> int \<Rightarrow> vcursor \<Rightarrow> doc option
    \<Rightarrow> string \<Rightarrow> string \<Rightarrow> string \<Rightarrow> (string \<times> json) list list \<Rightarrow> 'w \<Rightarrow> (string + stage_result) \<times> 'w" where
  "stage_v2_delivery digest T team agent g c expected staged start stop events w =
     (if vc_pending c \<noteq> None then (Inr (Replay c), w)
      else (let next = staged_cursor digest agent g c staged start stop events in
        case v2_cursor_path team agent g of Inl e \<Rightarrow> (Inl e, w)
        | Inr path \<Rightarrow> (case cas T path expected next w of (r, w') \<Rightarrow>
            (res_bind r (\<lambda>b. Inr (case b of None \<Rightarrow> StageUnsupported | Some False \<Rightarrow> Lost | Some True \<Rightarrow> Staged next)), w'))))"

datatype commit_result =
    ReadStatus load_state
  | Idempotent vcursor
  | Stale "vcursor option"
  | InvalidEvents vcursor
  | Unclassified vcursor "string list" "string list"
  | CommitUnsupported
  | Committed vcursor

definition handled_row :: "(string \<times> string) list \<Rightarrow> string \<Rightarrow> string \<Rightarrow> (string \<times> json) list" where
  "handled_row classes token rid =
     [(''record_id'', JStr rid), (''outcome'', json_opt (map_of classes rid)), (''token'', JStr token)]"

definition event_ids :: "pending \<Rightarrow> string list option" where
  "event_ids p = all_some some_text (map (\<lambda>e. jget e ''record_id'') (pd_events p))"

definition committed_cursor :: "vcursor \<Rightarrow> pending \<Rightarrow> string list \<Rightarrow> string \<Rightarrow> (string \<times> string) list \<Rightarrow> vcursor" where
  "committed_cursor c p ids token classes =
     \<lparr>vc_generation = vc_generation c, vc_revision = vc_revision c + 1, vc_last_read = Some (pd_end p),
      vc_seen = keep_last SEEN_IDS_CAP (vc_seen c @ ids), vc_last_token = Some token,
      vc_tokens = keep_last COMMITTED_TOKENS_CAP (vc_tokens c @ [token]),
      vc_handled = keep_last SEEN_IDS_CAP (vc_handled c @ map (handled_row classes token) ids),
      vc_pending = None\<rparr>"

text \<open>What a commit decides about the cursor it read: an answer, or the cursor to swap in.\<close>

definition commit_next :: "string \<Rightarrow> (string \<times> string) list \<Rightarrow> vcursor \<Rightarrow> commit_result + vcursor" where
  "commit_next token classes c =
     (if token \<in> set (vc_tokens c) then Inl (Idempotent c)
      else (case vc_pending c of
         None \<Rightarrow> Inl (Stale (Some c))
       | Some p \<Rightarrow>
           if pd_token p \<noteq> token then Inl (Stale (Some c))
           else (case event_ids p of
              None \<Rightarrow> Inl (InvalidEvents c)
            | Some ids \<Rightarrow>
                if set (map fst classes) \<noteq> set ids \<or> \<not> set (map snd classes) \<subseteq> set DELIVERY_OUTCOMES then
                  Inl (Unclassified c (sorted_set (filter (\<lambda>i. i \<notin> set (map fst classes)) ids))
                        (sorted_set (filter (\<lambda>i. i \<notin> set ids) (map fst classes))))
                else Inr (committed_cursor c p ids token classes))))"

definition commit_v2_delivery :: "'w cursor_trans \<Rightarrow> string \<Rightarrow> string \<Rightarrow> int \<Rightarrow> string \<Rightarrow> (string \<times> string) list \<Rightarrow> 'w
    \<Rightarrow> (string + commit_result) \<times> 'w" where
  "commit_v2_delivery T team agent g token classes w =
     (case load_v2_cursor_classified T team agent g w of
        (Inl e, w1) \<Rightarrow> (Inl e, w1)
      | (Inr (Some c, raw, LdOk), w1) \<Rightarrow>
          (case commit_next token classes c of
             Inl r \<Rightarrow> (Inr r, w1)
           | Inr next \<Rightarrow>
               (case v2_cursor_path team agent g of Inl e \<Rightarrow> (Inl e, w1)
                | Inr path \<Rightarrow>
                    (case cas T path raw next w1 of
                       (Inl e, w2) \<Rightarrow> (Inl e, w2)
                     | (Inr None, w2) \<Rightarrow> (Inr CommitUnsupported, w2)
                     | (Inr (Some True), w2) \<Rightarrow> (Inr (Committed next), w2)
                     | (Inr (Some False), w2) \<Rightarrow>
                         (case load_v2_cursor_classified T team agent g w2 of (r, w3) \<Rightarrow>
                            (res_bind r (\<lambda>(seen, raw', st). Inr (
                               case seen of
                                 Some ob \<Rightarrow> if st = LdOk \<and> token \<in> set (vc_tokens ob) then Idempotent ob else Stale seen
                               | None \<Rightarrow> Stale None)), w3)))))
      | (Inr (c, raw, st), w1) \<Rightarrow> (Inr (ReadStatus st), w1))"

section \<open>Metrics\<close>

record adoption =
  ad_known :: bool
  ad_counted :: nat
  ad_superseded :: nat
  ad_unknown :: nat

definition adoption0 :: "bool \<Rightarrow> adoption" where
  "adoption0 known = \<lparr>ad_known = known, ad_counted = 0, ad_superseded = 0, ad_unknown = 0\<rparr>"

definition ad_ratio :: "adoption \<Rightarrow> rat option" where
  "ad_ratio a = (if ad_counted a = 0 then None else Some (of_nat (ad_superseded a) / of_nat (ad_counted a)))"

text \<open>A directive of the window: when it was recorded, to whom, about what, and its identity.\<close>

definition directive_row :: "bus_event \<Rightarrow> (string \<times> (string \<times> string) \<times> string) option" where
  "directive_row e =
     (if pl_kind (be_payload e) \<noteq> ''directive'' then None
      else (case be_id e of JStr rid \<Rightarrow> Some (be_at e, (pl_to (be_payload e), pl_slug (be_payload e)), rid) | _ \<Rightarrow> None))"

definition count_earlier :: "(string \<Rightarrow> string option) \<Rightarrow> string set \<Rightarrow> string \<Rightarrow> adoption \<Rightarrow> adoption" where
  "count_earlier outcomes explicit rid a =
     (if rid \<in> explicit \<or> outcomes rid = Some ''superseded''
      then a\<lparr>ad_counted := ad_counted a + 1, ad_superseded := ad_superseded a + 1\<rparr>
      else if outcomes rid \<in> {Some ''completed'', Some ''blocked''} then a
      else if outcomes rid = Some ''ignored'' then a\<lparr>ad_counted := ad_counted a + 1\<rparr>
      else a\<lparr>ad_unknown := ad_unknown a + 1\<rparr>)"

fun adoption_from :: "(string \<Rightarrow> string option) \<Rightarrow> string set \<Rightarrow> ((string \<times> string) \<Rightarrow> string option)
    \<Rightarrow> (string \<times> (string \<times> string) \<times> string) list \<Rightarrow> adoption \<Rightarrow> adoption" where
  "adoption_from outcomes explicit by_key [] a = a"
| "adoption_from outcomes explicit by_key ((stamp, key, rid) # ds) a =
     adoption_from outcomes explicit (by_key(key \<mapsto> rid)) ds
       (case by_key key of None \<Rightarrow> a | Some earlier \<Rightarrow> count_earlier outcomes explicit earlier a)"

definition supersession_adoption :: "bus_event list \<Rightarrow> (string \<times> string) list option \<Rightarrow> string list \<Rightarrow> adoption" where
  "supersession_adoption events outcomes explicit =
     (case outcomes of None \<Rightarrow> adoption0 False
      | Some oc \<Rightarrow> adoption_from (map_of oc) (set explicit) Map.empty
                    (sort_key fst (List.map_filter directive_row events)) (adoption0 True))"

definition explicit_supersessions :: "json list \<Rightarrow> string list" where
  "explicit_supersessions fms =
     sorted_set (List.map_filter (\<lambda>fm. case fm of JObj d \<Rightarrow> map_option strip (as_words (jget d ''superseded_record_id'')) | _ \<Rightarrow> None) fms)"

definition outcome_mix :: "vcursor option \<Rightarrow> (string \<times> nat) list option" where
  "outcome_mix c =
     (case c of None \<Rightarrow> None
      | Some c \<Rightarrow> (if vc_handled c = [] then None
          else Some (map (\<lambda>oc. (oc, length (filter (\<lambda>row. jget row ''outcome'' = JStr oc) (vc_handled c)))) DELIVERY_OUTCOMES)))"

end
