(* ===== verification/Cursor_Props.thy ===== *)
theory Cursor_Props
  imports Records_Cursor
begin

text \<open>
  The transactional cursor: every text the engine writes reads back as the cursor it was written from,
  and every cursor read or produced is well formed. \<open>canon\<close> is the cursor up to the order of keys and
  the space around a time.
\<close>

section \<open>Canonical texts\<close>

lemma map_of_filter_key: "map_of d k = map_option snd (find (\<lambda>p. fst p = k) d)"
  by (induction d) auto

lemma find_filter: "find P xs = (case filter P xs of [] \<Rightarrow> None | x # _ \<Rightarrow> Some x)"
  by (induction xs) auto

lemma map_of_sort_key [simp]: "map_of (sort_key fst d) k = map_of d k"
proof -
  have "filter (\<lambda>p. fst p = k) (sort_key fst d) = filter (\<lambda>p. fst p = k) d"
    by (rule sort_key_stable)
  then show ?thesis by (simp only: map_of_filter_key find_filter)
qed

lemma map_of_map_snd: "map_of (map (\<lambda>(k, v). (k, f v)) d) k = map_option f (map_of d k)"
  by (induction d) auto

lemma jget_sort_row [simp]: "jget (sort_row d) k = sort_keys (jget d k)"
  by (simp add: jget_def sort_row_def map_of_map_snd split: option.split)

lemma sort_keys_JObj [simp]: "sort_keys (JObj d) = JObj (sort_row d)"
  by (simp add: sort_row_def)

declare sort_keys.simps(2) [simp del]

lemma sort_keys_iff [simp]:
  "sort_keys j = JStr s \<longleftrightarrow> j = JStr s" "sort_keys j = JNull \<longleftrightarrow> j = JNull" "sort_keys j = JNum n \<longleftrightarrow> j = JNum n"
  "JStr s = sort_keys j \<longleftrightarrow> j = JStr s"
  by (cases j; auto)+

lemma is_str_sort_keys [simp]: "is_str (sort_keys j) = is_str j"
  by (cases j) (auto simp: is_str_def)

lemma some_text_sort_keys [simp]: "some_text (sort_keys j) = some_text j"
  by (cases j) (auto simp: some_text_def)

lemma as_str_sort_keys [simp]: "as_str (sort_keys j) = as_str j"
  by (cases j) auto

lemma as_words_sort_keys [simp]: "as_words (sort_keys j) = as_words j"
  by (cases j) (auto simp: as_words_def)

lemma as_int_sort_keys [simp]: "as_int (sort_keys j) = as_int j"
  by (cases j) (auto simp: as_int_def)

lemma is_num_sort_keys [simp]: "is_num (sort_keys j) n = is_num j n"
  by (cases j) auto

lemma as_obj_sort_keys [simp]: "as_obj (sort_keys j) = map_option sort_row (as_obj j)"
  by (cases j) (auto simp: as_obj_def)

lemma dropWhile_idem: "dropWhile P (dropWhile P s) = dropWhile P s"
  by (induction s) auto

lemma lstrip_rstrip_hd:
  assumes "s = [] \<or> \<not> P (hd s)" shows "dropWhile P (rstrip_if P s) = rstrip_if P s"
proof -
  have "rstrip_if P s = [] \<or> hd (rstrip_if P s) = hd s"
    by (metis (no_types, lifting) dropWhile_eq_Nil_conv hd_append2 rev_rev_ident rev_append rstrip_if_def takeWhile_dropWhile_id)
  moreover have "rstrip_if P s \<noteq> [] \<Longrightarrow> s \<noteq> []"
    by (auto simp: rstrip_if_def)
  ultimately show ?thesis using assms by (metis dropWhile_hd)
qed

lemma strip_strip [simp]: "strip (strip s) = strip s"
proof -
  let ?t = "dropWhile is_space s"
  have "?t = [] \<or> \<not> is_space (hd ?t)" by (metis hd_dropWhile)
  then have "dropWhile is_space (rstrip_if is_space ?t) = rstrip_if is_space ?t" by (rule lstrip_rstrip_hd)
  then show ?thesis by (simp add: strip_def lstrip_if_def rstrip_if_def dropWhile_idem)
qed

section \<open>Well-formed cursors\<close>

definition blank :: "string \<Rightarrow> bool" where
  "blank s \<longleftrightarrow> strip s = []"

definition pending_ok :: "int \<Rightarrow> pending \<Rightarrow> bool" where
  "pending_ok n p \<longleftrightarrow> pd_base p = n \<and> \<not> blank (pd_token p) \<and> \<not> blank (pd_staged p) \<and> \<not> blank (pd_start p) \<and> \<not> blank (pd_end p)"

definition handled_ok :: "(string \<times> json) list \<Rightarrow> bool" where
  "handled_ok d \<longleftrightarrow> as_handled (JObj d) = Some d"

definition cursor_ok :: "vcursor \<Rightarrow> bool" where
  "cursor_ok c \<longleftrightarrow> 0 \<le> vc_revision c \<and> pred_option (\<lambda>s. \<not> blank s) (vc_last_read c)
     \<and> length (vc_seen c) \<le> SEEN_IDS_CAP \<and> length (vc_tokens c) \<le> COMMITTED_TOKENS_CAP \<and> length (vc_handled c) \<le> SEEN_IDS_CAP
     \<and> list_all handled_ok (vc_handled c) \<and> pred_option (pending_ok (vc_revision c)) (vc_pending c)"

definition canon_pending :: "pending \<Rightarrow> pending" where
  "canon_pending p = p\<lparr>pd_events := map sort_row (pd_events p)\<rparr>"

definition canon :: "vcursor \<Rightarrow> vcursor" where
  "canon c = c\<lparr>vc_last_read := map_option strip (vc_last_read c), vc_handled := map sort_row (vc_handled c),
     vc_pending := map_option canon_pending (vc_pending c)\<rparr>"

lemma all_some_comp: "(\<And>x. x \<in> set xs \<Longrightarrow> f (g x) = Some (h x)) \<Longrightarrow> all_some f (map g xs) = Some (map h xs)"
  by (induction xs) auto

lemma all_some_set: "all_some f xs = Some ys \<Longrightarrow> y \<in> set ys \<Longrightarrow> \<exists>x \<in> set xs. f x = Some y"
  by (induction xs arbitrary: ys) (auto split: option.splits)

lemma as_list_texts: "as_list as_str (JArr (map (sort_keys \<circ> JStr) xs)) = Some xs"
  using all_some_map[of xs as_str "sort_keys \<circ> JStr"] by (simp add: as_list_def)

lemma as_list_objs: "as_list as_obj (JArr (map (sort_keys \<circ> JObj) ds)) = Some (map sort_row ds)"
  using all_some_comp[of ds as_obj "sort_keys \<circ> JObj" sort_row] by (simp add: as_list_def as_obj_def)

lemma as_handled_sort_row:
  assumes "handled_ok d" shows "as_handled (JObj (sort_row d)) = Some (sort_row d)"
proof -
  from assms have "sort_keys (jget d ''outcome'') = jget d ''outcome''"
    by (auto simp: handled_ok_def as_handled_def split: if_splits)
  with assms show ?thesis
    by (auto simp: handled_ok_def as_handled_def split: if_splits)
qed


lemma as_list_handled:
  "list_all handled_ok ds \<Longrightarrow> as_list as_handled (JArr (map (sort_keys \<circ> JObj) ds)) = Some (map sort_row ds)"
  using all_some_comp[of ds as_handled "sort_keys \<circ> JObj" sort_row] by (simp add: as_list_def as_handled_sort_row list_all_iff)

lemma as_opt_text: "as_opt as_str (sort_keys (json_opt x)) = Some x"
  by (cases x) (auto simp: as_opt_def json_opt_def)

lemma as_opt_words: "pred_option (\<lambda>s. \<not> blank s) x \<Longrightarrow> as_opt as_words (sort_keys (json_opt x)) = Some x"
  by (cases x) (auto simp: as_opt_def json_opt_def as_words_def blank_def)

lemma parse_pending_json:
  "pending_ok n p \<Longrightarrow> parse_pending n (sort_keys (pending_json p)) = Some (canon_pending p)"
  using as_list_objs[of "pd_events p"]
  by (cases p) (auto simp: parse_pending_def pending_json_def pending_ok_def blank_def as_words_def as_obj_def canon_pending_def)

lemma parse_pending_opt:
  "pred_option (pending_ok n) x \<Longrightarrow>
     as_opt (parse_pending n) (sort_keys (case x of None \<Rightarrow> JNull | Some p \<Rightarrow> pending_json p)) = Some (map_option canon_pending x)"
  using parse_pending_json by (cases x) (auto simp: as_opt_def pending_json_def)

lemma parse_render:
  assumes "cursor_ok c"
  shows "parse_v2_cursor (vc_generation c) (render_v2_cursor c) = Some (canon c)"
  using assms as_list_texts as_list_handled[of "vc_handled c"] as_opt_text as_opt_words parse_pending_opt
  by (simp add: cursor_ok_def parse_v2_cursor_def render_v2_cursor_def cursor_json_def canon_def as_obj_def as_int_def)


lemma as_words_words: "as_words j = Some s \<Longrightarrow> \<not> blank s"
  by (auto simp: as_words_def blank_def split: json.splits if_splits)

lemma as_opt_words_words: "as_opt as_words j = Some x \<Longrightarrow> pred_option (\<lambda>s. \<not> blank (strip s)) x"
  by (auto simp: as_opt_def blank_def dest: as_words_words split: if_splits)

lemma parse_pending_ok: "parse_pending n j = Some p \<Longrightarrow> pending_ok n p"
  by (auto simp: parse_pending_def pending_ok_def bind_eq_Some_conv dest: as_words_words split: if_splits)

lemma as_opt_pending_ok: "as_opt (parse_pending n) j = Some x \<Longrightarrow> pred_option (pending_ok n) x"
  by (auto simp: as_opt_def dest: parse_pending_ok split: if_splits)

lemma as_handled_same: "as_handled j = Some d \<Longrightarrow> handled_ok d"
  by (auto simp: handled_ok_def as_handled_def split: json.splits if_splits)

lemma as_list_handled_ok: "as_list as_handled j = Some ds \<Longrightarrow> list_all handled_ok ds"
  by (auto simp: as_list_def list_all_iff dest!: all_some_set as_handled_same split: json.splits)

lemma list_all_keep_last: "list_all P xs \<Longrightarrow> list_all P (keep_last n xs)"
  using set_keep_last[of n xs] by (auto simp: list_all_iff)

lemma parse_cursor_ok: "parse_v2_cursor g raw = Some c \<Longrightarrow> cursor_ok c \<and> vc_generation c = g"
  apply (clarsimp simp: parse_v2_cursor_def bind_eq_Some_conv split: if_splits)
  apply (frule as_opt_words_words, frule as_opt_pending_ok, frule as_list_handled_ok)
  apply (simp add: cursor_ok_def list_all_keep_last option.pred_map comp_def)
  done

lemma initial_cursor_ok: "pred_option (\<lambda>l. \<not> blank (lc_last_read l)) legacy \<Longrightarrow> cursor_ok (initial_v2_cursor g legacy)"
  by (cases legacy) (auto simp: initial_v2_cursor_def cursor_ok_def)

text \<open>Times and a token that are not blank.\<close>

definition staging_ok :: "string \<Rightarrow> string \<Rightarrow> string \<Rightarrow> string \<Rightarrow> bool" where
  "staging_ok token staged start stop \<longleftrightarrow> \<not> blank token \<and> \<not> blank staged \<and> \<not> blank start \<and> \<not> blank stop"

lemma staged_cursor_ok:
  assumes "cursor_ok c" "staging_ok (delivery_token digest agent g (vc_revision c) staged start stop events) staged start stop"
  shows "cursor_ok (staged_cursor digest agent g c staged start stop events)"
  using assms by (auto simp: cursor_ok_def staged_cursor_def staging_ok_def pending_ok_def)

lemma handled_row_ok:
  "rid \<in> fst ` set classes \<Longrightarrow> snd ` set classes \<subseteq> set DELIVERY_OUTCOMES \<Longrightarrow> handled_ok (handled_row classes token rid)"
proof -
  assume "rid \<in> fst ` set classes" "snd ` set classes \<subseteq> set DELIVERY_OUTCOMES"
  then obtain oc where "map_of classes rid = Some oc" "oc \<in> set DELIVERY_OUTCOMES"
    by (metis (no_types, lifting) image_subset_iff map_of_SomeD snd_conv weak_map_of_SomeI imageE prod.collapse)
  then show ?thesis by (auto simp: handled_ok_def as_handled_def handled_row_def json_opt_def)
qed

lemma commit_next_cases:
  assumes "commit_next token classes c = Inr c'"
  obtains p ids where "vc_pending c = Some p" "pd_token p = token" "event_ids p = Some ids"
    "fst ` set classes = set ids" "snd ` set classes \<subseteq> set DELIVERY_OUTCOMES"
    "token \<notin> set (vc_tokens c)" "c' = committed_cursor c p ids token classes"
  using assms by (auto simp: commit_next_def split: if_splits option.splits)

lemma commit_next_ok:
  assumes "cursor_ok c" "commit_next token classes c = Inr c'"
  shows "cursor_ok c' \<and> vc_generation c' = vc_generation c"
proof -
  obtain p ids where p: "vc_pending c = Some p" "fst ` set classes = set ids" "snd ` set classes \<subseteq> set DELIVERY_OUTCOMES"
    and c': "c' = committed_cursor c p ids token classes"
    using commit_next_cases[OF assms(2)] by metis
  have "list_all handled_ok (vc_handled c @ map (handled_row classes token) ids)"
    using assms(1) p by (auto simp: cursor_ok_def list_all_iff intro!: handled_row_ok)
  then have "list_all handled_ok (vc_handled c')"
    unfolding c' committed_cursor_def by (simp add: list_all_keep_last)
  with assms(1) p(1) show ?thesis
    by (auto simp: c' committed_cursor_def cursor_ok_def pending_ok_def)
qed

text \<open>C12. Every cursor document the engine reads or writes is well formed: a text that parses gives a
  cursor with a non-negative revision, bounded lists, handled rows with a known outcome and a staged
  delivery based on this very revision; staging and committing keep it so; and the text written for it
  is read back as the same cursor, up to the order of keys and the space around the time of the last
  read. So no engine ever writes a document that its own next read calls invalid.\<close>

theorem cursor_documents_well_formed:
  "(\<forall>raw c. parse_v2_cursor g raw = Some c \<longrightarrow> cursor_ok c \<and> vc_generation c = g)
   \<and> (\<forall>c token classes c'. cursor_ok c \<longrightarrow> commit_next token classes c = Inr c' \<longrightarrow>
        cursor_ok c' \<and> parse_v2_cursor (vc_generation c) (render_v2_cursor c') = Some (canon c'))
   \<and> (\<forall>c staged start stop events. cursor_ok c \<longrightarrow>
        staging_ok (delivery_token digest agent g (vc_revision c) staged start stop events) staged start stop \<longrightarrow>
        parse_v2_cursor (vc_generation c) (render_v2_cursor (staged_cursor digest agent g c staged start stop events))
          = Some (canon (staged_cursor digest agent g c staged start stop events)))"
proof (intro conjI allI impI)
  fix raw c assume "parse_v2_cursor g raw = Some c"
  then show "cursor_ok c" "vc_generation c = g" using parse_cursor_ok by auto
next
  fix c token classes c' assume "cursor_ok c" "commit_next token classes c = Inr c'"
  then have ok: "cursor_ok c'" "vc_generation c' = vc_generation c" using commit_next_ok by auto
  then show "cursor_ok c'" "parse_v2_cursor (vc_generation c) (render_v2_cursor c') = Some (canon c')"
    using parse_render[of c'] by auto
next
  fix c staged start stop events
  let ?c = "staged_cursor digest agent g c staged start stop events"
  assume "cursor_ok c" "staging_ok (delivery_token digest agent g (vc_revision c) staged start stop events) staged start stop"
  then have "cursor_ok ?c" by (rule staged_cursor_ok)
  moreover have "vc_generation ?c = vc_generation c" by (simp add: staged_cursor_def)
  ultimately show "parse_v2_cursor (vc_generation c) (render_v2_cursor ?c) = Some (canon ?c)"
    using parse_render[of ?c] by simp
qed


definition demo_cursor :: vcursor where
  "demo_cursor = initial_v2_cursor 1 None"

definition demo_staged :: vcursor where
  "demo_staged = staged_cursor (\<lambda>j. ''t'') ''ann'' 1 demo_cursor ''c'' ''a'' ''b'' [[(''record_id'', JStr ''r1'')]]"

theorem cursor_documents_well_formed_witness:
  "cursor_ok demo_cursor \<and> cursor_ok demo_staged
   \<and> parse_v2_cursor 1 (render_v2_cursor demo_staged) = Some demo_staged
   \<and> (\<exists>c. commit_next ''t'' [(''r1'', ''completed'')] demo_staged = Inr c \<and> cursor_ok c)"
proof (intro conjI)
  note wf = cursor_documents_well_formed[where g = 1 and digest = "\<lambda>j. ''t''" and agent = "''ann''"]
  show c: "cursor_ok demo_cursor"
    by (simp add: demo_cursor_def initial_v2_cursor_def cursor_ok_def)
  have "staging_ok (delivery_token (\<lambda>j. ''t'') ''ann'' 1 (vc_revision demo_cursor) ''c'' ''a'' ''b'' [[(''record_id'', JStr ''r1'')]]) ''c'' ''a'' ''b''"
    by (simp add: staging_ok_def delivery_token_def blank_def) code_simp
  then have "parse_v2_cursor (vc_generation demo_cursor) (render_v2_cursor demo_staged) = Some (canon demo_staged)"
    using wf c by (metis demo_staged_def)
  moreover have "canon demo_staged = demo_staged"
    by (simp add: demo_staged_def demo_cursor_def staged_cursor_def initial_v2_cursor_def canon_def canon_pending_def sort_row_def)
  moreover have "vc_generation demo_cursor = 1" by (simp add: demo_cursor_def initial_v2_cursor_def)
  ultimately show p: "parse_v2_cursor 1 (render_v2_cursor demo_staged) = Some demo_staged" by simp
  with wf show s: "cursor_ok demo_staged" by blast
  have "commit_next ''t'' [(''r1'', ''completed'')] demo_staged
      = Inr (committed_cursor demo_staged (the (vc_pending demo_staged)) [''r1''] ''t'' [(''r1'', ''completed'')])"
    by code_simp
  with wf s show "\<exists>c. commit_next ''t'' [(''r1'', ''completed'')] demo_staged = Inr c \<and> cursor_ok c" by blast
qed

end
