(* ===== verification/Cursor_Ledger.thy ===== *)
theory Cursor_Ledger
  imports Cursor_Props
begin

text \<open>
  Many processes share one cursor document. A step of the document is one successful swap: the staging
  of a delivery or the commit of the staged one. The ledger of a run is the list of deliveries it
  committed, oldest first. The document is the image of the ledger, no delivery is counted twice, and
  the answers of \<^const>\<open>commit_v2_delivery\<close> say what the ledger holds, whatever other processes do in
  between and even when the answer of the swap is lost.
\<close>

section \<open>Steps and ledgers\<close>

record delivery =
  dl_token :: string
  dl_end :: string
  dl_ids :: "string list"
  dl_classes :: "(string \<times> string) list"

definition current_cursor :: "int \<Rightarrow> legacy_cursor option \<Rightarrow> doc option \<Rightarrow> vcursor option" where
  "current_cursor g legacy s =
     (case s of None \<Rightarrow> Some (initial_v2_cursor g legacy) | Some d \<Rightarrow> parse_v2_cursor g d)"

inductive cursor_step :: "(json \<Rightarrow> string) \<Rightarrow> string \<Rightarrow> int \<Rightarrow> legacy_cursor option \<Rightarrow> doc option \<Rightarrow> delivery list
    \<Rightarrow> doc option \<Rightarrow> bool" for digest agent g legacy where
  stage: "current_cursor g legacy s = Some c \<Longrightarrow> vc_pending c = None \<Longrightarrow>
     staging_ok (delivery_token digest agent g (vc_revision c) staged start stop events) staged start stop \<Longrightarrow>
     cursor_step digest agent g legacy s [] (Some (render_v2_cursor (staged_cursor digest agent g c staged start stop events)))"
| commit: "s = Some d \<Longrightarrow> parse_v2_cursor g d = Some c \<Longrightarrow> vc_pending c = Some p \<Longrightarrow> event_ids p = Some ids \<Longrightarrow>
     commit_next (pd_token p) classes c = Inr c' \<Longrightarrow>
     cursor_step digest agent g legacy s [\<lparr>dl_token = pd_token p, dl_end = pd_end p, dl_ids = ids, dl_classes = classes\<rparr>]
       (Some (render_v2_cursor c'))"

inductive ledger :: "(json \<Rightarrow> string) \<Rightarrow> string \<Rightarrow> int \<Rightarrow> legacy_cursor option \<Rightarrow> doc option \<Rightarrow> delivery list
    \<Rightarrow> doc option \<Rightarrow> bool" for digest agent g legacy where
  start: "ledger digest agent g legacy s [] s"
| more: "ledger digest agent g legacy s ds s' \<Longrightarrow> cursor_step digest agent g legacy s' es s'' \<Longrightarrow>
     ledger digest agent g legacy s (ds @ es) s''"

inductive_cases cursor_stepE: "cursor_step digest agent g legacy s ds s'"

lemma ledger_trans:
  "ledger digest agent g legacy s' es s'' \<Longrightarrow> ledger digest agent g legacy s ds s' \<Longrightarrow> ledger digest agent g legacy s (ds @ es) s''"
  by (induction rule: ledger.induct) (auto simp flip: append_assoc intro: ledger.more)

definition rows_of :: "delivery \<Rightarrow> (string \<times> json) list list" where
  "rows_of d = map (\<lambda>rid. sort_row (handled_row (dl_classes d) (dl_token d) rid)) (dl_ids d)"

definition legacy_seen :: "legacy_cursor option \<Rightarrow> string list" where
  "legacy_seen legacy = (case legacy of None \<Rightarrow> [] | Some l \<Rightarrow> lc_seen l)"

text \<open>What the document must hold for a ledger.\<close>

definition image_of :: "legacy_cursor option \<Rightarrow> delivery list \<Rightarrow> vcursor \<Rightarrow> bool" where
  "image_of legacy ds c \<longleftrightarrow>
     vc_revision c = int (length ds)
     \<and> vc_last_read c = map_option strip (if ds = [] then map_option lc_last_read legacy else Some (dl_end (last ds)))
     \<and> vc_seen c = keep_last SEEN_IDS_CAP (legacy_seen legacy @ concat (map dl_ids ds))
     \<and> vc_last_token c = (if ds = [] then None else Some (dl_token (last ds)))
     \<and> vc_tokens c = keep_last COMMITTED_TOKENS_CAP (map dl_token ds)
     \<and> vc_handled c = keep_last SEEN_IDS_CAP (concat (map rows_of ds))"


definition legacy_ok :: "legacy_cursor option \<Rightarrow> bool" where
  "legacy_ok legacy \<longleftrightarrow> pred_option (\<lambda>l. \<not> blank (lc_last_read l) \<and> strip (lc_last_read l) = lc_last_read l) legacy"

definition token_for :: "(json \<Rightarrow> string) \<Rightarrow> string \<Rightarrow> int \<Rightarrow> int \<Rightarrow> string \<Rightarrow> bool" where
  "token_for digest agent g n token \<longleftrightarrow> (\<exists>staged start stop events. token = delivery_token digest agent g n staged start stop events)"

definition ledger_inv :: "(json \<Rightarrow> string) \<Rightarrow> string \<Rightarrow> int \<Rightarrow> legacy_cursor option \<Rightarrow> delivery list \<Rightarrow> doc option \<Rightarrow> bool" where
  "ledger_inv digest agent g legacy ds s \<longleftrightarrow>
     (\<exists>c. current_cursor g legacy s = Some c \<and> cursor_ok c \<and> vc_generation c = g \<and> image_of legacy ds c
        \<and> pred_option (\<lambda>p. token_for digest agent g (vc_revision c) (pd_token p)) (vc_pending c)
        \<and> (\<forall>i < length ds. token_for digest agent g (int i) (dl_token (ds ! i))))"

lemma keep_last_map: "keep_last n (map f xs) = map f (keep_last n xs)"
  by (simp add: keep_last_def drop_map)

lemma sort_row_handled [simp]:
  "sort_row (handled_row classes token rid)
     = [(''outcome'', json_opt (map_of classes rid)), (''record_id'', JStr rid), (''token'', JStr token)]"
  by (auto simp: sort_row_def handled_row_def json_opt_def split: option.split)

lemma sort_row_sorted [simp]:
  "sort_row [(''outcome'', json_opt x), (''record_id'', JStr rid), (''token'', JStr token)]
     = [(''outcome'', json_opt x), (''record_id'', JStr rid), (''token'', JStr token)]"
  by (cases x) (simp_all add: sort_row_def json_opt_def)

lemma sort_rows_of: "map sort_row (rows_of d) = rows_of d"
  by (simp add: rows_of_def)

lemma sort_rows_concat: "map sort_row (concat (map rows_of ds)) = concat (map rows_of ds)"
  by (induction ds) (simp_all add: sort_rows_of)

lemma canon_staged_image:
  assumes "image_of legacy ds c" shows "image_of legacy ds (canon (staged_cursor digest agent g c staged start stop events))"
  using assms by (auto simp: image_of_def canon_def staged_cursor_def option.map_comp comp_def sort_rows_concat simp flip: keep_last_map)

lemma canon_commit_image:
  assumes "image_of legacy ds c"
  shows "image_of legacy (ds @ [\<lparr>dl_token = pd_token p, dl_end = pd_end p, dl_ids = ids, dl_classes = classes\<rparr>])
           (canon (committed_cursor c p ids (pd_token p) classes))"
proof -
  have "map sort_row (map (handled_row classes (pd_token p)) ids)
      = rows_of \<lparr>dl_token = pd_token p, dl_end = pd_end p, dl_ids = ids, dl_classes = classes\<rparr>"
    by (simp add: rows_of_def)
  with assms show ?thesis
    by (auto simp: image_of_def canon_def committed_cursor_def sort_rows_concat simp flip: keep_last_map append_assoc)
qed

lemma inv_start: "legacy_ok legacy \<Longrightarrow> ledger_inv digest agent g legacy [] None"
  by (cases legacy) (auto simp: ledger_inv_def current_cursor_def legacy_ok_def initial_v2_cursor_def cursor_ok_def
      image_of_def legacy_seen_def)

lemma inv_step:
  assumes "cursor_step digest agent g legacy s es s'" "ledger_inv digest agent g legacy ds s"
  shows "ledger_inv digest agent g legacy (ds @ es) s'"
  using assms(1)
proof cases
  case (stage c staged start stop events)
  let ?n = "staged_cursor digest agent g c staged start stop events"
  from assms(2) stage have c: "cursor_ok c" "vc_generation c = g" "image_of legacy ds c"
    and t: "\<forall>i < length ds. token_for digest agent g (int i) (dl_token (ds ! i))"
    by (auto simp: ledger_inv_def)
  have ok: "cursor_ok ?n" using c(1) stage by (blast intro: staged_cursor_ok)
  have "vc_generation ?n = g" using c(2) by (simp add: staged_cursor_def)
  with ok have "parse_v2_cursor g (render_v2_cursor ?n) = Some (canon ?n)" using parse_render[of ?n] by simp
  then have "current_cursor g legacy s' = Some (canon ?n)" using stage by (simp add: current_cursor_def)
  moreover have "cursor_ok (canon ?n)" "vc_generation (canon ?n) = g"
    using parse_cursor_ok[OF \<open>parse_v2_cursor g (render_v2_cursor ?n) = Some (canon ?n)\<close>] by auto
  moreover have "pred_option (\<lambda>p. token_for digest agent g (vc_revision (canon ?n)) (pd_token p)) (vc_pending (canon ?n))"
    by (auto simp: canon_def staged_cursor_def canon_pending_def token_for_def)
  ultimately show ?thesis
    using canon_staged_image[OF c(3)] t stage by (auto simp: ledger_inv_def)
next
  case (commit d c p ids classes c')
  from assms(2) commit have c: "cursor_ok c" "vc_generation c = g" "image_of legacy ds c"
      "token_for digest agent g (vc_revision c) (pd_token p)"
    and t: "\<forall>i < length ds. token_for digest agent g (int i) (dl_token (ds ! i))"
    by (auto simp: ledger_inv_def current_cursor_def)
  have c': "c' = committed_cursor c p ids (pd_token p) classes"
  proof -
    obtain q js where "vc_pending c = Some q" "event_ids q = Some js" "c' = committed_cursor c q js (pd_token p) classes"
      using commit_next_cases[OF \<open>commit_next (pd_token p) classes c = Inr c'\<close>] by metis
    with \<open>vc_pending c = Some p\<close> \<open>event_ids p = Some ids\<close> show ?thesis by simp
  qed
  have ok: "cursor_ok c'" "vc_generation c' = g" using commit_next_ok[OF c(1)] commit c(2) by auto
  have r: "parse_v2_cursor g (render_v2_cursor c') = Some (canon c')" using parse_render[OF ok(1)] ok(2) by simp
  moreover have "current_cursor g legacy s' = Some (canon c')" using commit r by (simp add: current_cursor_def)
  moreover have "cursor_ok (canon c')" "vc_generation (canon c') = g" using parse_cursor_ok[OF r] by auto
  moreover have "vc_pending (canon c') = None" by (simp add: canon_def c' committed_cursor_def)
  moreover have "image_of legacy (ds @ es) (canon c')"
    unfolding c' commit(1) by (rule canon_commit_image[OF c(3)])
  moreover have "\<forall>i < length (ds @ es). token_for digest agent g (int i) (dl_token ((ds @ es) ! i))"
  proof (intro allI impI)
    fix i assume "i < length (ds @ es)"
    then consider "i < length ds" | "i = length ds" using commit by (auto simp: less_Suc_eq)
    then show "token_for digest agent g (int i) (dl_token ((ds @ es) ! i))"
    proof cases
      case 2
      with c(3) have "vc_revision c = int i" by (simp add: image_of_def)
      with 2 c(4) commit show ?thesis by simp
    qed (use t in \<open>simp add: nth_append\<close>)
  qed
  ultimately show ?thesis unfolding ledger_inv_def by (intro exI[of _ "canon c'"]) simp
qed

lemma inv_ledger:
  "ledger digest agent g legacy s ds s' \<Longrightarrow> ledger_inv digest agent g legacy past s \<Longrightarrow> ledger_inv digest agent g legacy (past @ ds) s'"
  by (induction rule: ledger.induct) (auto simp flip: append_assoc intro: inv_step)


section \<open>The document is the image of the ledger\<close>

text \<open>The digest tells deliveries of different revisions apart, as SHA-256 does.\<close>

definition tokens_differ :: "(json \<Rightarrow> string) \<Rightarrow> string \<Rightarrow> int \<Rightarrow> bool" where
  "tokens_differ digest agent g \<longleftrightarrow>
     (\<forall>m n t. token_for digest agent g (int m) t \<longrightarrow> token_for digest agent g (int n) t \<longrightarrow> m = n)"

lemma ledger_image_of:
  assumes "legacy_ok legacy" "ledger digest agent g legacy None ds s"
  shows "\<exists>c. current_cursor g legacy s = Some c \<and> image_of legacy ds c"
  using inv_ledger[OF assms(2) inv_start[OF assms(1)]] by (auto simp: ledger_inv_def)

lemma ledger_distinct:
  assumes "legacy_ok legacy" "tokens_differ digest agent g" "ledger digest agent g legacy None ds s"
  shows "distinct (map dl_token ds)"
proof -
  have "\<forall>i < length ds. token_for digest agent g (int i) (dl_token (ds ! i))"
    using inv_ledger[OF assms(3) inv_start[OF assms(1)]] by (auto simp: ledger_inv_def)
  with assms(2) show ?thesis
    unfolding distinct_conv_nth tokens_differ_def by (metis length_map nth_map)
qed

definition delivery_ok :: "delivery \<Rightarrow> bool" where
  "delivery_ok d \<longleftrightarrow> fst ` set (dl_classes d) = set (dl_ids d) \<and> snd ` set (dl_classes d) \<subseteq> set DELIVERY_OUTCOMES"

lemma step_delivery_ok: "cursor_step digest agent g legacy s es s' \<Longrightarrow> list_all delivery_ok es"
proof (induction rule: cursor_step.induct)
  case (commit s d c p ids classes c')
  obtain q js where "vc_pending c = Some q" "event_ids q = Some js" "fst ` set classes = set js"
      "snd ` set classes \<subseteq> set DELIVERY_OUTCOMES"
    using commit_next_cases[OF commit(5)] by metis
  with commit(3,4) show ?case by (simp add: delivery_ok_def)
qed simp

lemma ledger_delivery_ok: "ledger digest agent g legacy s ds s' \<Longrightarrow> list_all delivery_ok ds"
  by (induction rule: ledger.induct) (auto dest: step_delivery_ok)

section \<open>The answers of a commit\<close>

text \<open>
  What the code relies on of the cell it swaps: between two moments the document only makes steps of
  the protocol; a read answers what the cell held at one of them; a swap that answers true took place at
  a moment when the cell held the expected text; one that answers false, or raises, took place then or
  not at all.
\<close>

definition evolves :: "(json \<Rightarrow> string) \<Rightarrow> string \<Rightarrow> int \<Rightarrow> legacy_cursor option \<Rightarrow> doc option \<Rightarrow> doc option \<Rightarrow> bool" where
  "evolves digest agent g legacy s s' \<longleftrightarrow> (\<exists>ds. ledger digest agent g legacy s ds s')"

definition read_law :: "(doc option \<Rightarrow> doc option \<Rightarrow> bool) \<Rightarrow> ('w \<Rightarrow> doc option) \<Rightarrow> string
    \<Rightarrow> (string \<Rightarrow> 'w \<Rightarrow> doc classified \<times> 'w) \<Rightarrow> bool" where
  "read_law R cell path rd \<longleftrightarrow>
     (\<forall>w. case rd path w of (r, w') \<Rightarrow>
        R (cell w) (cell w') \<and> (\<forall>raw st. r = Inr (raw, st) \<longrightarrow> st \<noteq> StError \<longrightarrow> R (cell w) raw \<and> R raw (cell w')))"

definition cas_law :: "(doc option \<Rightarrow> doc option \<Rightarrow> bool) \<Rightarrow> ('w \<Rightarrow> doc option) \<Rightarrow> string
    \<Rightarrow> (string \<Rightarrow> doc option \<Rightarrow> doc \<Rightarrow> 'w \<Rightarrow> (string + bool) \<times> 'w) \<Rightarrow> bool" where
  "cas_law R cell path op \<longleftrightarrow>
     (\<forall>w e n. case op path e n w of (r, w') \<Rightarrow>
        (r \<noteq> Inr True \<and> R (cell w) (cell w')) \<or> (R (cell w) e \<and> R (Some n) (cell w')))"

definition atomic_cell :: "(doc option \<Rightarrow> doc option \<Rightarrow> bool) \<Rightarrow> 'w cursor_trans \<Rightarrow> string \<Rightarrow> ('w \<Rightarrow> doc option) \<Rightarrow> bool" where
  "atomic_cell R T path cell \<longleftrightarrow> pred_option (read_law R cell path) (ct_read T) \<and> pred_option (cas_law R cell path) (ct_cas T)"

lemma load_v2_cases:
  assumes "atomic_cell R T path cell" "\<And>s. R s s" "v2_cursor_path team agent g = Inr path"
    "load_v2_cursor_classified T team agent g w = (r, w')"
  shows "R (cell w) (cell w')"
    "r = Inr (Some c, raw, st) \<Longrightarrow> st = LdOk \<and> (\<exists>d. raw = Some d \<and> parse_v2_cursor g d = Some c \<and> R (cell w) raw \<and> R raw (cell w'))"
proof -
  have law: "ct_read T = Some rd \<Longrightarrow> read_law R cell path rd" for rd using assms(1) by (simp add: atomic_cell_def)
  show "R (cell w) (cell w')"
    using assms(2,3,4) law by (auto simp: load_v2_cursor_classified_def read_law_def split: option.splits prod.splits)
  show "st = LdOk \<and> (\<exists>d. raw = Some d \<and> parse_v2_cursor g d = Some c \<and> R (cell w) raw \<and> R raw (cell w'))"
    if "r = Inr (Some c, raw, st)"
    using that assms(3,4) law
    by (auto simp: load_v2_cursor_classified_def read_law_def res_bind_Inr_iff split: option.splits prod.splits if_splits) (metis prod.inject)+
qed


lemma commit_step_of:
  assumes "parse_v2_cursor g d = Some c" "commit_next token classes c = Inr c'"
  obtains x where "cursor_step digest agent g legacy (Some d) [x] (Some (render_v2_cursor c'))" "dl_token x = token" "dl_classes x = classes"
proof -
  obtain p ids where p: "vc_pending c = Some p" "pd_token p = token" "event_ids p = Some ids"
    using commit_next_cases[OF assms(2)] by metis
  show thesis
    by (rule that[OF cursor_step.commit[where d = d and c = c and p = p and ids = ids and classes = classes]]) (use p assms in auto)
qed

lemma evolves_refl: "evolves digest agent g legacy s s"
  unfolding evolves_def by (blast intro: ledger.start)

lemma evolves_trans: "evolves digest agent g legacy s s' \<Longrightarrow> evolves digest agent g legacy s' s'' \<Longrightarrow> evolves digest agent g legacy s s''"
  unfolding evolves_def by (blast intro: ledger_trans)

lemma evolves_ledger: "ledger digest agent g legacy s past s' \<Longrightarrow> evolves digest agent g legacy s' s'' \<Longrightarrow> \<exists>ds. ledger digest agent g legacy s (past @ ds) s''"
  unfolding evolves_def by (blast intro: ledger_trans)

lemma known_token:
  assumes "legacy_ok legacy" "ledger digest agent g legacy None ds (Some d)" "parse_v2_cursor g d = Some c" "token \<in> set (vc_tokens c)"
  shows "token \<in> dl_token ` set ds"
  using ledger_image_of[OF assms(1,2)] assms(3,4) set_keep_last[of COMMITTED_TOKENS_CAP "map dl_token ds"]
  by (auto simp: current_cursor_def image_of_def)

lemma landed_commit:
  assumes "ledger digest agent g legacy None past (Some d)" "parse_v2_cursor g d = Some c" "commit_next token classes c = Inr c'"
    "evolves digest agent g legacy (Some (render_v2_cursor c')) s"
  shows "\<exists>ds. ledger digest agent g legacy None (past @ ds) s \<and> (\<exists>x \<in> set ds. dl_token x = token \<and> dl_classes x = classes)"
proof -
  obtain x where x: "cursor_step digest agent g legacy (Some d) [x] (Some (render_v2_cursor c'))" "dl_token x = token" "dl_classes x = classes"
    using commit_step_of[OF assms(2,3)] by metis
  obtain ds where "ledger digest agent g legacy None ((past @ [x]) @ ds) s"
    using evolves_ledger[OF ledger.more[OF assms(1) x(1)] assms(4)] by blast
  with x show ?thesis by (intro exI[of _ "x # ds"]) auto
qed

lemma cas_cases:
  assumes "atomic_cell R T path cell" "cas T path e c w = (b, w')"
  obtains "b = Inr None" "w' = w" | "b \<noteq> Inr None" "b \<noteq> Inr (Some True)" "R (cell w) (cell w')"
    | "b \<noteq> Inr None" "R (cell w) e" "R (Some (render_v2_cursor c)) (cell w')"
proof -
  have law: "ct_cas T = Some op \<Longrightarrow> cas_law R cell path op" for op using assms(1) by (simp add: atomic_cell_def)
  show thesis
  proof (cases "ct_cas T")
    case None
    with assms(2) that(1) show thesis by (simp add: cas_def)
  next
    case (Some op)
    obtain r w2 where o: "op path e (render_v2_cursor c) w = (r, w2)" by fastforce
    with Some assms(2) have b: "b = res_bind r (\<lambda>x. Inr (Some x))" "w' = w2" by (auto simp: cas_def)
    from law[OF Some] o have "(r \<noteq> Inr True \<and> R (cell w) (cell w2)) \<or> (R (cell w) e \<and> R (Some (render_v2_cursor c)) (cell w2))"
      by (auto simp: cas_law_def split: prod.splits)
    then show thesis using b that(2,3) by (cases r) auto
  qed
qed

lemma swap_ledger:
  assumes "atomic_cell (evolves digest agent g legacy) T path cell" "cas T path (Some d) c' w = (b, w')"
    "parse_v2_cursor g d = Some c" "commit_next token classes c = Inr c'"
    "ledger digest agent g legacy None past (Some d)" "evolves digest agent g legacy (Some d) (cell w)"
  shows "\<exists>ds. ledger digest agent g legacy None (past @ ds) (cell w')
    \<and> (b = Inr (Some True) \<longrightarrow> (\<exists>x \<in> set ds. dl_token x = token \<and> dl_classes x = classes))"
  using assms(1,2)
proof (cases rule: cas_cases)
  case 1
  then show ?thesis using evolves_ledger[OF assms(5,6)] by auto
next
  case 2
  then show ?thesis using evolves_ledger[OF assms(5) evolves_trans[OF assms(6) 2(3)]] by auto
next
  case 3
  obtain ds1 where ds1: "ledger digest agent g legacy None (past @ ds1) (Some d)"
    using evolves_ledger[OF assms(5) evolves_trans[OF assms(6) 3(2)]] by blast
  obtain ds2 where "ledger digest agent g legacy None ((past @ ds1) @ ds2) (cell w')" "\<exists>x \<in> set ds2. dl_token x = token \<and> dl_classes x = classes"
    using landed_commit[OF ds1 assms(3,4) 3(3)] by blast
  then show ?thesis by (intro exI[of _ "ds1 @ ds2"]) auto
qed

lemma known_token_later:
  assumes "atomic_cell (evolves digest agent g legacy) T path cell" "v2_cursor_path team agent g = Inr path" "legacy_ok legacy"
    "ledger digest agent g legacy None past (cell w)" "load_v2_cursor_classified T team agent g w = (r, w')"
  shows "\<exists>ds. ledger digest agent g legacy None (past @ ds) (cell w')
    \<and> (\<forall>c raw st token. r = Inr (Some c, raw, st) \<longrightarrow> token \<in> set (vc_tokens c) \<longrightarrow> token \<in> dl_token ` set (past @ ds))"
proof (cases "\<exists>c raw st. r = Inr (Some c, raw, st)")
  case False
  then show ?thesis using evolves_ledger[OF assms(4) load_v2_cases(1)[OF assms(1) evolves_refl assms(2,5)]] by blast
next
  case True
  then obtain c raw st where r: "r = Inr (Some c, raw, st)" by blast
  from load_v2_cases(2)[OF assms(1) evolves_refl assms(2,5) r] obtain d where d: "parse_v2_cursor g d = Some c"
      "evolves digest agent g legacy (cell w) (Some d)" "evolves digest agent g legacy (Some d) (cell w')" by blast
  obtain ds1 where ds1: "ledger digest agent g legacy None (past @ ds1) (Some d)" using evolves_ledger[OF assms(4) d(2)] by blast
  obtain ds2 where "ledger digest agent g legacy None ((past @ ds1) @ ds2) (cell w')" using evolves_ledger[OF ds1 d(3)] by blast
  moreover have "t \<in> dl_token ` set ((past @ ds1) @ ds2)" if "t \<in> set (vc_tokens c)" for t
    using known_token[OF assms(3) ds1 d(1) that] by auto
  ultimately show ?thesis using r by (intro exI[of _ "ds1 @ ds2"]) auto
qed

lemma commit_answers:
  assumes law: "atomic_cell (evolves digest agent g legacy) T path cell" "v2_cursor_path team agent g = Inr path" "legacy_ok legacy"
    and past: "ledger digest agent g legacy None past (cell w)"
    and run: "commit_v2_delivery T team agent g token classes w = (Inr r, w')"
  shows "\<exists>ds. ledger digest agent g legacy None (past @ ds) (cell w')
     \<and> (\<forall>c. r = Committed c \<longrightarrow> (\<exists>x \<in> set ds. dl_token x = token \<and> dl_classes x = classes))
     \<and> (\<forall>c. r = Idempotent c \<longrightarrow> token \<in> dl_token ` set (past @ ds))"
proof -
  obtain r1 w1 where l1: "load_v2_cursor_classified T team agent g w = (r1, w1)" by fastforce
  note first = known_token_later[OF law past l1]
  show ?thesis
  proof (cases "\<exists>c raw st. r1 = Inr (Some c, raw, st)")
    case False
    with l1 run have "w' = w1 \<and> (\<forall>c. r \<noteq> Committed c) \<and> (\<forall>c. r \<noteq> Idempotent c)"
      by (auto simp: commit_v2_delivery_def split: sum.splits option.splits load_state.splits)
    with first show ?thesis by blast
  next
    case True
    then obtain c raw st where r1: "r1 = Inr (Some c, raw, st)" by blast
    from load_v2_cases(2)[OF law(1) evolves_refl law(2) l1 r1] obtain d where d: "st = LdOk" "raw = Some d"
        "parse_v2_cursor g d = Some c" "evolves digest agent g legacy (cell w) (Some d)" "evolves digest agent g legacy (Some d) (cell w1)"
      by blast
    show ?thesis
    proof (cases "commit_next token classes c")
      case (Inl q)
      with run l1 r1 d have r: "r = q" "w' = w1" by (auto simp: commit_v2_delivery_def)
      have no: "q \<noteq> Committed c2" and yes: "q = Idempotent c2 \<Longrightarrow> token \<in> set (vc_tokens c)" for c2
        using Inl by (auto simp: commit_next_def split: if_splits option.splits)
      obtain ds where ds: "ledger digest agent g legacy None (past @ ds) (cell w1)"
          "token \<in> set (vc_tokens c) \<longrightarrow> token \<in> dl_token ` set (past @ ds)"
        using first r1 by auto
      show ?thesis unfolding r by (rule exI[of _ ds]) (use ds no yes in metis)
    next
      case (Inr c')
      obtain ds1 where ds1: "ledger digest agent g legacy None (past @ ds1) (Some d)" using evolves_ledger[OF past d(4)] by blast
      obtain b w2 where b: "cas T path (Some d) c' w1 = (b, w2)" by fastforce
      obtain ds2 where ds2: "ledger digest agent g legacy None ((past @ ds1) @ ds2) (cell w2)"
          "b = Inr (Some True) \<longrightarrow> (\<exists>x \<in> set ds2. dl_token x = token \<and> dl_classes x = classes)"
        using swap_ledger[OF law(1) b d(3) Inr ds1 d(5)] by blast
      show ?thesis
      proof (cases "b = Inr (Some False)")
        case False
        with run l1 r1 d Inr law(2) b have "w' = w2 \<and> (\<forall>c2. r \<noteq> Idempotent c2) \<and> (\<forall>c2. r = Committed c2 \<longrightarrow> b = Inr (Some True))"
          by (auto simp: commit_v2_delivery_def split: sum.splits option.splits bool.splits)
        with ds2 show ?thesis by (intro exI[of _ "ds1 @ ds2"]) auto
      next
        case True
        obtain r3 w3 where l3: "load_v2_cursor_classified T team agent g w2 = (r3, w3)" by fastforce
        from run l1 r1 d Inr law(2) b True l3 have w': "w' = w3" and no: "\<forall>c2. r \<noteq> Committed c2"
          and yes: "\<forall>c2. r = Idempotent c2 \<longrightarrow> (\<exists>c raw st. r3 = Inr (Some c, raw, st) \<and> token \<in> set (vc_tokens c))"
          by (auto simp: commit_v2_delivery_def res_bind_Inr_iff split: option.splits if_splits)
        from known_token_later[OF law ds2(1) l3] obtain ds3 where
          "ledger digest agent g legacy None (((past @ ds1) @ ds2) @ ds3) (cell w3)"
          "\<forall>c raw st t. r3 = Inr (Some c, raw, st) \<longrightarrow> t \<in> set (vc_tokens c) \<longrightarrow> t \<in> dl_token ` set (((past @ ds1) @ ds2) @ ds3)"
          by blast
        with w' no yes show ?thesis by (intro exI[of _ "ds1 @ ds2 @ ds3"]) auto
      qed
    qed
  qed
qed

section \<open>A run with a lost answer\<close>

definition demo_digest :: "json \<Rightarrow> string" where
  "demo_digest j = (case j of JObj d \<Rightarrow> (case jget d ''base_revision'' of JNum n \<Rightarrow> replicate (nat n + 1) (CHR ''t'') | _ \<Rightarrow> []) | _ \<Rightarrow> [])"

text \<open>A cell, and for each swap that takes place whether its answer is lost.\<close>

definition demo_trans :: "(doc option \<times> bool list) cursor_trans" where
  "demo_trans = \<lparr>ct_plain = (\<lambda>p w. (fst w, w)),
     ct_read = Some (\<lambda>p w. (Inr (fst w, if fst w = None then StAbsent else StOk), w)),
     ct_write = (\<lambda>p j w. (True, (Some (Some j), snd w))),
     ct_cas = Some (\<lambda>p e n w. if fst w = e then (Inr (snd w = [] \<or> \<not> hd (snd w)), (Some n, tl (snd w))) else (Inr False, w))\<rparr>"

lemma demo_atomic: "(\<And>s. R s s) \<Longrightarrow> atomic_cell R demo_trans path fst"
  by (auto simp: atomic_cell_def demo_trans_def read_law_def cas_law_def)

lemma demo_token: "delivery_token demo_digest agent g n staged start stop events = replicate (nat n + 1) (CHR ''t'')"
  by (simp add: delivery_token_def demo_digest_def token_material_def)

lemma demo_tokens_differ: "tokens_differ demo_digest agent g"
proof -
  have "m = n" if "replicate (m + 1) (CHR ''t'') = replicate (n + 1) (CHR ''t'')" for m n :: nat
    using arg_cong[OF that, of length] by simp
  then show ?thesis by (simp add: tokens_differ_def token_for_def demo_token)
qed

lemma demo_stage: "ledger demo_digest ''ann'' 1 None None [] (Some (render_v2_cursor demo_staged))"
proof -
  have e: "staged_cursor demo_digest ''ann'' 1 demo_cursor ''c'' ''a'' ''b'' [[(''record_id'', JStr ''r1'')]] = demo_staged"
    by (simp add: demo_staged_def staged_cursor_def demo_token demo_cursor_def initial_v2_cursor_def delivery_token_def[of "\<lambda>j. ''t''"])
  have "cursor_step demo_digest ''ann'' 1 None None [] (Some (render_v2_cursor (staged_cursor demo_digest ''ann'' 1 demo_cursor ''c'' ''a'' ''b'' [[(''record_id'', JStr ''r1'')]])))"
  proof (rule cursor_step.stage)
    show "current_cursor 1 None None = Some demo_cursor" by (simp add: current_cursor_def demo_cursor_def)
    show "vc_pending demo_cursor = None" by (simp add: demo_cursor_def initial_v2_cursor_def)
    show "staging_ok (delivery_token demo_digest ''ann'' 1 (vc_revision demo_cursor) ''c'' ''a'' ''b'' [[(''record_id'', JStr ''r1'')]]) ''c'' ''a'' ''b''"
      by code_simp
  qed
  from ledger.more[OF ledger.start this] show ?thesis by (simp add: e)
qed

lemma demo_commit:
  "case fst (commit_v2_delivery demo_trans ''team'' ''ann'' 1 ''t'' [(''r1'', ''completed'')] (Some (render_v2_cursor demo_staged), []))
     of Inr (Committed c) \<Rightarrow> True | _ \<Rightarrow> False"
  by code_simp

lemma demo_retry:
  "case fst (commit_v2_delivery demo_trans ''team'' ''ann'' 1 ''t'' [(''r1'', ''completed'')] (Some (render_v2_cursor demo_staged), [True]))
     of Inr (Idempotent c) \<Rightarrow> True | _ \<Rightarrow> False"
  by code_simp

section \<open>The properties\<close>

text \<open>C1. Whatever processes stage and commit against a cursor that starts absent, in whatever order, no
  delivery is committed twice, also after its token has left the bounded list of committed tokens; and
  each committed delivery was classified event by event, with outcomes the engine knows.\<close>

theorem delivered_once:
  assumes "legacy_ok legacy" "tokens_differ digest agent g" "ledger digest agent g legacy None ds s"
  shows "distinct (map dl_token ds) \<and> (\<forall>d \<in> set ds. fst ` set (dl_classes d) = set (dl_ids d)
    \<and> snd ` set (dl_classes d) \<subseteq> set DELIVERY_OUTCOMES)"
  using ledger_distinct[OF assms] ledger_delivery_ok[OF assms(3)] by (auto simp: delivery_ok_def list_all_iff)

text \<open>C11. The stored cursor implements the ledger of committed deliveries: its revision counts them, its
  coverage ends where the last one ended (or where the legacy cursor stood), and its identities, tokens
  and handled rows are the newest of the ledger up to the caps.\<close>

theorem cursor_refines_ledger:
  assumes "legacy_ok legacy" "ledger digest agent g legacy None ds (Some d)"
  shows "\<exists>c. parse_v2_cursor g d = Some c \<and> vc_revision c = int (length ds)
    \<and> vc_last_read c = map_option strip (if ds = [] then map_option lc_last_read legacy else Some (dl_end (last ds)))
    \<and> vc_tokens c = keep_last COMMITTED_TOKENS_CAP (map dl_token ds)
    \<and> vc_seen c = keep_last SEEN_IDS_CAP (legacy_seen legacy @ concat (map dl_ids ds))
    \<and> vc_handled c = keep_last SEEN_IDS_CAP (concat (map rows_of ds))"
  using ledger_image_of[OF assms] by (auto simp: current_cursor_def image_of_def)

text \<open>C2. A commit answers truthfully under interference: whatever other processes do between its reads
  and its swap, and when the answer of a swap that took place is lost, the document only makes steps of
  the protocol; the answer committed means that during the call this token was committed with these
  classifications; the answer idempotent means that the token is in the ledger.\<close>

theorem commit_answers_are_true:
  assumes "atomic_cell (evolves digest agent g legacy) T path cell" "v2_cursor_path team agent g = Inr path" "legacy_ok legacy"
    and "ledger digest agent g legacy None past (cell w)"
    and "commit_v2_delivery T team agent g token classes w = (Inr r, w')"
  shows "\<exists>ds. ledger digest agent g legacy None (past @ ds) (cell w')
     \<and> (\<forall>c. r = Committed c \<longrightarrow> (\<exists>x \<in> set ds. dl_token x = token \<and> dl_classes x = classes))
     \<and> (\<forall>c. r = Idempotent c \<longrightarrow> token \<in> dl_token ` set (past @ ds))"
  by (rule commit_answers[OF assms])


lemma demo_path: "v2_cursor_path ''team'' ''ann'' 1 = Inr ''team/team/_coord/bus-v3/cursors/v2/generation-1/ann.json''"
  by code_simp

theorem commit_answers_are_true_witness:
  "\<exists>c x ds. commit_v2_delivery demo_trans ''team'' ''ann'' 1 ''t'' [(''r1'', ''completed'')] (Some (render_v2_cursor demo_staged), [True])
       = (Inr (Idempotent c), x)
     \<and> ledger demo_digest ''ann'' 1 None None ds (fst x) \<and> ''t'' \<in> dl_token ` set ds"
proof -
  obtain c x where run: "commit_v2_delivery demo_trans ''team'' ''ann'' 1 ''t'' [(''r1'', ''completed'')]
      (Some (render_v2_cursor demo_staged), [True]) = (Inr (Idempotent c), x)"
    using demo_retry by (auto split: sum.splits commit_result.splits prod.splits simp: fst_def)
  have "legacy_ok None" by (simp add: legacy_ok_def)
  from commit_answers_are_true[OF demo_atomic demo_path this _ run, OF evolves_refl, of demo_digest "[]"] demo_stage run
  show ?thesis by auto
qed

lemma demo_committed:
  "\<exists>d s. ledger demo_digest ''ann'' 1 None None [d] (Some s) \<and> dl_token d = ''t''"
proof -
  have p: "parse_v2_cursor 1 (render_v2_cursor demo_staged) = Some demo_staged" by code_simp
  have "commit_next ''t'' [(''r1'', ''completed'')] demo_staged
      = Inr (committed_cursor demo_staged (the (vc_pending demo_staged)) [''r1''] ''t'' [(''r1'', ''completed'')])"
    by code_simp
  from commit_step_of[OF p this] obtain d where
    "cursor_step demo_digest ''ann'' 1 None (Some (render_v2_cursor demo_staged)) [d]
       (Some (render_v2_cursor (committed_cursor demo_staged (the (vc_pending demo_staged)) [''r1''] ''t'' [(''r1'', ''completed'')])))"
    "dl_token d = ''t''" by metis
  with ledger.more[OF demo_stage] show ?thesis by fastforce
qed

theorem delivered_once_witness:
  "\<exists>d s. ledger demo_digest ''ann'' 1 None None [d] s \<and> dl_token d = ''t'' \<and> fst ` set (dl_classes d) = set (dl_ids d)"
proof -
  obtain d s where d: "ledger demo_digest ''ann'' 1 None None [d] (Some s)" "dl_token d = ''t''" using demo_committed by blast
  have "legacy_ok None" by (simp add: legacy_ok_def)
  from delivered_once[OF this demo_tokens_differ d(1)] d show ?thesis by auto
qed

theorem cursor_refines_ledger_witness:
  "\<exists>d s c. ledger demo_digest ''ann'' 1 None None [d] (Some s) \<and> parse_v2_cursor 1 s = Some c \<and> vc_revision c = 1 \<and> vc_tokens c = [''t'']"
proof -
  obtain d s where d: "ledger demo_digest ''ann'' 1 None None [d] (Some s)" "dl_token d = ''t''" using demo_committed by blast
  have "legacy_ok None" by (simp add: legacy_ok_def)
  from cursor_refines_ledger[OF this d(1)] d show ?thesis by (auto simp: COMMITTED_TOKENS_CAP_def)
qed

end
