(* ===== verification/Stream_Fold.thy ===== *)
theory Stream_Fold
  imports Records Obligations
begin

text \<open>
  packages/coord-engine/coord_engine/stream_fold.py: what an agent owes, folded from the record stream
  forward from a durable cursor. The state document is typed once it is read: its seen identities are
  texts, and an entry that is no text raises where the code raises when it sorts it among texts.
\<close>

section \<open>State\<close>

definition STATE_VERSION :: int where "STATE_VERSION = 1"
definition OVERLAP_SECONDS :: int where "OVERLAP_SECONDS = 600"
definition STREAM_LOOKBACK_SECONDS :: int where "STREAM_LOOKBACK_SECONDS = 7 * 24 * 3600"
definition SEEN_CAP :: nat where "SEEN_CAP = 4000"

definition state_path :: "string \<Rightarrow> string \<Rightarrow> string" where
  "state_path team agent = ''team/'' @ team @ ''/_coord/agents/'' @ agent @ ''/stream-fold.json''"

record sstate =
  sf_cursor :: json
  sf_seen :: "json list"
  sf_open :: "(string, json) dict"
  sf_rest :: "(string \<times> json) list"

definition empty_state :: "pydt \<Rightarrow> sstate" where
  "empty_state now = \<lparr>sf_cursor = JStr (strf_z (shift_us (- STREAM_LOOKBACK_SECONDS * second_us) now)), sf_seen = [], sf_open = [],
     sf_rest = [(''v'', JNum STATE_VERSION)]\<rparr>"

datatype source = Seeded | Fresh | Corrupt

definition load_state :: "(string \<Rightarrow> 'w \<Rightarrow> doc option \<times> 'w) \<Rightarrow> string \<Rightarrow> string \<Rightarrow> pydt \<Rightarrow> 'w \<Rightarrow> (sstate \<times> source) \<times> 'w" where
  "load_state read team agent now w =
     (case read (state_path team agent) w of (raw, w') \<Rightarrow>
        (case raw of None \<Rightarrow> (empty_state now, Fresh)
         | Some (Some (JObj d)) \<Rightarrow>
             (case (jget d ''open'', jget d ''seen'') of
                (JObj opn, JArr seen) \<Rightarrow>
                  if is_num (jget d ''v'') STATE_VERSION \<and> parse_z (str_or [] (Some (jget d ''cursor''))) \<noteq> None
                  then (\<lparr>sf_cursor = jget d ''cursor'', sf_seen = seen, sf_open = opn,
                          sf_rest = filter (\<lambda>p. fst p \<notin> {''cursor'', ''seen'', ''open''}) d\<rparr>, Seeded)
                  else (empty_state now, Corrupt)
              | _ \<Rightarrow> (empty_state now, Corrupt))
         | Some _ \<Rightarrow> (empty_state now, Corrupt), w'))"

definition state_json :: "sstate \<Rightarrow> json" where
  "state_json s = JObj (sort_key fst
     ([(''cursor'', sf_cursor s), (''open'', JObj (sf_open s)), (''seen'', JArr (sf_seen s))] @ sf_rest s))"

section \<open>Applying events\<close>

definition open_meta :: "srow \<Rightarrow> payload_in \<Rightarrow> json" where
  "open_meta r p = JObj [(''pri'', if truthy (pl_pri p) then pl_pri p else JStr ''P3''), (''at'', JStr (take 19 (sr_at r))), (''ptr'', pl_ptr p)]"

definition closes :: "string \<Rightarrow> srow \<Rightarrow> payload_in \<Rightarrow> bool" where
  "closes agent r p \<longleftrightarrow>
     (case (case pl_for p of Some t \<Rightarrow> Some t | None \<Rightarrow> sender_of r) of None \<Rightarrow> False | Some t \<Rightarrow> t = agent \<or> t = BROADCAST_TO)"

definition apply_one :: "string \<Rightarrow> srow \<Rightarrow> (string, json) dict \<Rightarrow> (string, json) dict" where
  "apply_one agent r opn =
     (case parse_payload (sr_note r) of None \<Rightarrow> opn
      | Some p \<Rightarrow>
          if pl_kind p = ''directive'' \<and> addressed agent p then
            (if pl_fyi p then opn else dict_set (pl_slug p) (open_meta r p) opn)
          else if pl_kind p = ''response'' \<and> closes agent r p then dict_pop (pl_slug p) opn
          else opn)"

fun apply_rows :: "string \<Rightarrow> srow list \<Rightarrow> string list \<times> nat \<times> (string, json) dict \<Rightarrow> string list \<times> nat \<times> (string, json) dict" where
  "apply_rows agent [] st = st"
| "apply_rows agent (r # rs) (seen, n, opn) =
     (case sr_id r of
        JStr (c # i) \<Rightarrow> if (c # i) \<in> set seen then apply_rows agent rs (seen, n, opn)
                     else apply_rows agent rs ((c # i) # seen, n + 1, apply_one agent r opn)
      | _ \<Rightarrow> apply_rows agent rs (seen, n, opn))"

text \<open>The state keeps the greatest identities as texts, not the newest.\<close>

definition apply_events :: "string \<Rightarrow> srow list \<Rightarrow> sstate \<Rightarrow> string + (nat \<times> sstate)" where
  "apply_events agent rows s =
     (case all_some as_str (sf_seen s) of None \<Rightarrow> Inl ''TypeError''
      | Some ids \<Rightarrow>
          (case apply_rows agent (sort_key sr_at rows) (ids, 0, sf_open s) of (seen, n, opn) \<Rightarrow>
             Inr (n, s\<lparr>sf_seen := map JStr (keep_last SEEN_CAP (sorted_set seen)), sf_open := opn\<rparr>)))"

section \<open>One pass\<close>

text \<open>The sort key of a row. Two rows of which one has a key that is no text raise here, as they do when the
  key is compared with a text.\<close>

definition key_json :: "json \<Rightarrow> json \<Rightarrow> json" where
  "key_json j d = (if truthy j then j else d)"

definition row_key :: "string \<times> json \<Rightarrow> string + (string \<times> string) option" where
  "row_key p =
     (case snd p of
        JObj m \<Rightarrow> Inr (case (key_json (jget m ''pri'') (JStr ''P3''), key_json (jget m ''at'') (JStr [])) of
                    (JStr pri, JStr stamp) \<Rightarrow> Some (pri, stamp) | _ \<Rightarrow> None)
      | _ \<Rightarrow> Inl ''AttributeError'')"

definition meta_of :: "json \<Rightarrow> (string \<times> json) list" where
  "meta_of j = (case j of JObj m \<Rightarrow> m | _ \<Rightarrow> [])"

definition out_rows :: "(string, json) dict \<Rightarrow> string + json list" where
  "out_rows opn =
     (if list_ex (\<lambda>p. row_key p = Inl ''AttributeError'') opn then Inl ''AttributeError''
      else if 1 < length opn \<and> list_ex (\<lambda>p. row_key p = Inr None) opn then Inl ''TypeError''
      else Inr (map (\<lambda>(slug, m). JObj (fold (\<lambda>(k, v). dict_set k v) (meta_of m) [(''slug'', JStr slug)]))
             (sort_key (\<lambda>p. case row_key p of Inr (Some k) \<Rightarrow> k | _ \<Rightarrow> ([], [])) opn)))"

record 'w stream_env =
  se_env :: "string \<Rightarrow> string option"
  se_read :: "string \<Rightarrow> 'w \<Rightarrow> doc option \<times> 'w"
  se_classified :: "(string \<Rightarrow> 'w \<Rightarrow> doc classified \<times> 'w) option"
  se_records :: "string \<Rightarrow> string \<Rightarrow> string \<Rightarrow> 'w \<Rightarrow> srow list option \<times> 'w"
  se_write :: "string \<Rightarrow> json \<Rightarrow> 'w \<Rightarrow> bool \<times> 'w"

definition stream_unknown :: "string \<Rightarrow> json list \<Rightarrow> json outcome" where
  "stream_unknown reason rows =
     from_surfaces rows [\<lparr>cv_surface = ''stream'', cv_state = CovUnknown, cv_required = True, cv_reason = Some reason\<rparr>]"

definition load_text :: "load_state \<Rightarrow> string" where
  "load_text s = (case s of LdOk \<Rightarrow> ''ok'' | LdAbsent \<Rightarrow> ''absent'' | LdInvalid \<Rightarrow> ''invalid'' | LdError \<Rightarrow> ''error'')"

definition source_text :: "source \<Rightarrow> string" where
  "source_text s = (case s of Seeded \<Rightarrow> ''seeded'' | Fresh \<Rightarrow> ''fresh'' | Corrupt \<Rightarrow> ''invalid'')"

definition CORRUPT_REASON :: string where
  "CORRUPT_REASON = ''persisted fold state is corrupt or incompatible '' @ em_dash @ '' left untouched for forensics; repair or reseed it explicitly (resetting silently would discard old obligations)''"

definition stream_report :: "bool \<Rightarrow> json list \<Rightarrow> string \<Rightarrow> nat \<Rightarrow> source \<Rightarrow> json outcome" where
  "stream_report persisted rows asof n src =
     (if \<not> persisted then
        stream_unknown (''as-of '' @ asof @ ''; +'' @ int_str (int n) @ '' events; STATE WRITE FAILED '' @ em_dash
          @ '' cursor not advanced durably, this pass is not a checkpoint'') rows
      else from_surfaces rows [\<lparr>cv_surface = ''stream'', cv_state = (if rows \<noteq> [] then CovData else CovClear), cv_required = True,
             cv_reason = Some (''as-of '' @ asof @ ''; +'' @ int_str (int n) @ '' events; state '' @ source_text src)\<rparr>])"

definition after_rows :: "'w stream_env \<Rightarrow> string \<Rightarrow> string \<Rightarrow> pydt \<Rightarrow> sstate \<Rightarrow> source \<Rightarrow> srow list \<Rightarrow> 'w \<Rightarrow> (string + json outcome) \<times> 'w" where
  "after_rows E team agent now st src rows w =
     (case apply_events agent rows st of Inl e \<Rightarrow> (Inl e, w)
      | Inr (n, st') \<Rightarrow>
          (let st2 = st'\<lparr>sf_cursor := JStr (strf_z now)\<rparr> in
           case se_write E (state_path team agent) (state_json st2) w of (ok, w') \<Rightarrow>
             (res_bind (out_rows (sf_open st2)) (\<lambda>out. Inr (stream_report ok out (strf_z now) n src)), w')))"

definition stream_fold :: "'w stream_env \<Rightarrow> string \<Rightarrow> string \<Rightarrow> pydt \<Rightarrow> 'w \<Rightarrow> (string + json outcome) \<times> 'w" where
  "stream_fold E team agent now w =
     (case load_config_classified (se_env E) (se_read E) (se_classified E) team w of
        (Inl e, w1) \<Rightarrow> (Inl e, w1)
      | (Inr (None, st), w1) \<Rightarrow> (Inr (stream_unknown (''records config '' @ load_text st) []), w1)
      | (Inr (Some cfg, _), w1) \<Rightarrow>
          (case load_state (se_read E) team agent now w1 of
             ((st, Corrupt), w2) \<Rightarrow> (Inr (stream_unknown CORRUPT_REASON []), w2)
           | ((st, src), w2) \<Rightarrow>
               (case sf_cursor st of
                  JStr c \<Rightarrow>
                    (case parse_z c of None \<Rightarrow> (Inl ''TypeError'', w2)
                     | Some cur \<Rightarrow>
                         (case se_records E (cf_data_type cfg) (strf_z (shift_us (- OVERLAP_SECONDS * second_us) cur)) (strf_z now) w2 of
                            (None, w3) \<Rightarrow> (Inr (stream_unknown (''stream read failed; last good fold as of '' @ c @ '' not served as fresh'') []), w3)
                          | (Some rows, w3) \<Rightarrow> after_rows E team agent now st src rows w3))
                | _ \<Rightarrow> (Inl ''AttributeError'', w2))))"

end
