(* ===== verification/Stream_Props.thy ===== *)
theory Stream_Props
  imports Stream_Fold
begin

text \<open>
  What the stream fold guarantees: an answer that is no doubt rests on a window that was read and a state
  that was written; reading an overlap again changes nothing as long as no identity was ever dropped. And
  what it does not: the identities it drops are the smallest texts, not the oldest, and a dropped
  directive opens again while its answer is still suppressed.
\<close>

section \<open>Replay\<close>

definition row_known :: "string list \<Rightarrow> srow \<Rightarrow> bool" where
  "row_known seen r \<longleftrightarrow> (case sr_id r of JStr (c # i) \<Rightarrow> (c # i) \<in> set seen | _ \<Rightarrow> True)"

lemma apply_rows_known:
  "list_all (row_known seen) rows \<Longrightarrow> apply_rows agent rows (seen, n, opn) = (seen, n, opn)"
  by (induction rows) (auto simp: row_known_def split: json.splits list.splits)

lemma apply_rows_seen:
  "apply_rows agent rows (seen, n, opn) = (seen', n', opn') \<Longrightarrow> set seen \<subseteq> set seen' \<and> list_all (row_known seen') rows"
proof (induction rows arbitrary: seen n opn)
  case (Cons r rows)
  have mono: "row_known s r \<Longrightarrow> set s \<subseteq> set s' \<Longrightarrow> row_known s' r" for s s'
    by (auto simp: row_known_def split: json.splits list.splits)
  show ?case
  proof (cases "row_known seen r")
    case True
    then have "apply_rows agent rows (seen, n, opn) = (seen', n', opn')"
      using Cons.prems by (auto simp: row_known_def split: json.splits list.splits)
    from Cons.IH[OF this] mono[OF True] show ?thesis by auto
  next
    case False
    then obtain c i where r: "sr_id r = JStr (c # i)" "c # i \<notin> set seen"
      by (auto simp: row_known_def split: json.splits list.splits)
    with Cons.prems have "apply_rows agent rows ((c # i) # seen, n + 1, apply_one agent r opn) = (seen', n', opn')" by simp
    from Cons.IH[OF this] r show ?thesis by (auto simp: row_known_def)
  qed
qed simp

lemma all_some_JStr [simp]: "all_some as_str (map JStr xs) = Some xs"
  using all_some_map[of xs as_str JStr] by simp

lemma sorted_set_idem: "sorted_set (sorted_set xs) = sorted_set xs"
  by (simp add: sorted_set_def distinct_remdups_id sorted_sort_id)

lemma list_all_sort_key [simp]: "list_all P (sort_key f xs) = list_all P xs"
  by (simp add: list_all_iff)

text \<open>Re-reading the overlap is free while nothing was dropped: if a pass leaves fewer than
  \<^const>\<open>SEEN_CAP\<close> identities, then any later window of rows it has seen, in any order and with
  repetitions, counts no new event and leaves the state as it is.\<close>

theorem overlap_replay_changes_nothing:
  assumes "apply_events agent rows s = Inr (n, s')" "length (sf_seen s') < SEEN_CAP" "set again \<subseteq> set rows"
  shows "apply_events agent again s' = Inr (0, s')"
proof -
  from assms(1) obtain ids seen opn where r: "apply_rows agent (sort_key sr_at rows) (ids, 0, sf_open s) = (seen, n, opn)"
    and s': "s' = s\<lparr>sf_seen := map JStr (keep_last SEEN_CAP (sorted_set seen)), sf_open := opn\<rparr>"
    by (auto simp: apply_events_def split: option.splits prod.splits)
  have "keep_last SEEN_CAP (sorted_set seen) = sorted_set seen" using assms(2) by (simp add: s')
  with s' have seen': "sf_seen s' = map JStr (sorted_set seen)" by simp
  have "list_all (row_known (sorted_set seen)) rows"
    using apply_rows_seen[OF r] by (auto simp: list_all_iff row_known_def split: json.splits list.splits)
  with assms(3) have "list_all (row_known (sorted_set seen)) (sort_key sr_at again)" by (auto simp: list_all_iff)
  from apply_rows_known[OF this] show ?thesis
    using assms(2) by (simp add: apply_events_def seen' sorted_set_idem)
qed

section \<open>The dropped identities\<close>

lemma sorted_set_two:
  assumes "sorted S" "distinct S" "S \<noteq> []" "\<forall>x \<in> set S. a < x" "hd S < b" "b \<notin> set S"
  shows "sorted_set (b # a # S) = a # hd S # insort b (tl S)"
proof -
  obtain x xs where S: "S = x # xs" using assms(3) by (cases S) auto
  have "a \<notin> set S" using assms(4) by auto
  moreover have "a < b" using assms(4,5) S by auto
  ultimately have "remdups (b # a # S) = b # a # S" using assms(2,6) by (simp add: distinct_remdups_id)
  moreover have "sort S = S" using assms(1) by (simp add: sorted_sort_id)
  moreover have "insort a S = a # S" using assms(4) by (intro insort_is_Cons) auto
  moreover have "\<not> b \<le> a" "\<not> b \<le> x" using \<open>a < b\<close> assms(5) S by auto
  ultimately show ?thesis using S by (simp add: sorted_set_def)
qed

text \<open>The bounded memory forgets by the alphabet, not by age: with the memory full, a directive whose
  identity sorts below it is answered by a response whose identity does not; reading the same two rows
  again, as every pass does within the overlap, opens the obligation again, because the directive was
  forgotten and its answer was not.\<close>

theorem answered_directive_reopens:
  assumes "sf_seen s = map JStr S" "sorted S" "distinct S" "length S = SEEN_CAP"
    and "sr_id d = JStr i" "i \<noteq> []" "\<forall>x \<in> set S. i < x" "sr_id e = JStr j" "hd S < j" "j \<notin> set S" "sr_at d \<le> sr_at e"
    and "parse_payload (sr_note d) = Some p" "pl_kind p = ''directive''" "addressed agent p" "\<not> pl_fyi p"
    and "parse_payload (sr_note e) = Some q" "pl_kind q = ''response''" "closes agent e q" "pl_slug q = pl_slug p"
  shows "\<exists>s' s''. apply_events agent [d, e] s = Inr (2, s') \<and> map_of (sf_open s') (pl_slug p) = None
    \<and> apply_events agent [d, e] s' = Inr (1, s'') \<and> map_of (sf_open s'') (pl_slug p) = Some (open_meta d p)"
proof -
  have ne: "S \<noteq> []" using assms(4) by (auto simp: SEEN_CAP_def)
  have ij: "i < j" using assms(7,9) ne by (metis hd_in_set order_less_trans)
  then have jn: "j \<noteq> []" by (cases j) auto
  have "i \<noteq> j" using ij by (rule less_imp_neq)
  obtain ci i' where i: "i = ci # i'" using assms(6) by (cases i) auto
  obtain cj j' where j: "j = cj # j'" using jn by (cases j) auto
  have ord: "sort_key sr_at [d, e] = [d, e]" using assms(11) by simp
  have "i \<notin> set S" using assms(7) by auto
  then have run: "apply_rows agent [d, e] (S, 0, sf_open s) = (j # i # S, 2, apply_one agent e (apply_one agent d (sf_open s)))"
    using assms(5,8,10) \<open>i \<noteq> j\<close> by (auto simp: i j)
  have "keep_last SEEN_CAP (sorted_set (j # i # S)) = insort j (tl S)"
    using sorted_set_two[OF assms(2,3) ne assms(7,9,10)] assms(4) ne
    by (simp add: keep_last_def SEEN_CAP_def)
  then obtain s' where s': "apply_events agent [d, e] s = Inr (2, s')" "sf_seen s' = map JStr (insort j (tl S))"
      "sf_open s' = apply_one agent e (apply_one agent d (sf_open s))"
    using run ord by (auto simp: apply_events_def assms(1))
  have closed: "map_of (sf_open s') (pl_slug p) = None"
    using assms(12-19) by (simp add: s'(3) apply_one_def)
  have "i \<notin> set (insort j (tl S))" "j \<in> set (insort j (tl S))"
    using \<open>i \<notin> set S\<close> ij by (auto simp: set_insort_key dest: list.set_sel(2)[OF ne])
  then have run': "apply_rows agent [d, e] (insort j (tl S), 0, sf_open s') = (i # insort j (tl S), 1, apply_one agent d (sf_open s'))"
    using assms(5,8) by (simp add: i j)
  then have "\<exists>s''. apply_events agent [d, e] s' = Inr (1, s'') \<and> sf_open s'' = apply_one agent d (sf_open s')"
    using ord s'(2) by (auto simp: apply_events_def)
  moreover have "map_of (apply_one agent d (sf_open s')) (pl_slug p) = Some (open_meta d p)"
    using assms(12-15) by (simp add: apply_one_def)
  ultimately show ?thesis using s'(1) closed by auto
qed


section \<open>A full memory\<close>

definition full_memory :: "string list" where
  "full_memory = map (\<lambda>n. replicate (n + 1) (CHR ''b'')) [0..<SEEN_CAP]"

definition demo_row :: "string \<Rightarrow> string \<Rightarrow> string \<Rightarrow> srow" where
  "demo_row rid kind stamp = \<lparr>sr_id = JStr rid, sr_at = stamp, sr_sources = [JStr ''ann''],
     sr_note = Text (Some (JObj [(''v'', JNum 1), (''to'', JStr ''ann''), (''kind'', JStr kind), (''slug'', JStr ''ask'')]))\<rparr>"

definition demo_state :: "string list \<Rightarrow> sstate" where
  "demo_state ids = \<lparr>sf_cursor = JStr ''2026-08-01T00:00:00Z'', sf_seen = map JStr ids, sf_open = [], sf_rest = [(''v'', JNum 1)]\<rparr>"

lemma replicate_mono: "m \<le> n \<Longrightarrow> replicate m c \<le> replicate n (c :: char)"
proof (induction m arbitrary: n)
  case (Suc m)
  then show ?case by (cases n) auto
qed simp

lemma full_memory_facts:
  "sorted full_memory" "distinct full_memory" "length full_memory = SEEN_CAP" "\<forall>x \<in> set full_memory. ''a'' < x"
  "hd full_memory = ''b''" "''c'' \<notin> set full_memory"
proof -
  show "sorted full_memory"
    unfolding full_memory_def sorted_wrt_map
    by (rule sorted_wrt_mono_rel[OF _ sorted_upt[of 0 SEEN_CAP]]) (rule replicate_mono, simp)
  show "distinct full_memory" by (auto simp: full_memory_def distinct_map inj_on_def)
  show "length full_memory = SEEN_CAP" by (simp add: full_memory_def)
  show "\<forall>x \<in> set full_memory. ''a'' < x" by (auto simp: full_memory_def less_char_def)
  show "hd full_memory = ''b''" by (simp add: full_memory_def SEEN_CAP_def hd_map)
  show "''c'' \<notin> set full_memory" by (auto simp: full_memory_def)
qed

lemma demo_payload:
  "parse_payload (sr_note (demo_row rid ''directive'' t)) = Some \<lparr>pl_to = ''ann'', pl_kind = ''directive'', pl_slug = ''ask'', pl_pri = JNull,
     pl_ptr = JNull, pl_fyi = False, pl_for = None, pl_on = None, pl_state = None, pl_writer = None\<rparr>"
  "parse_payload (sr_note (demo_row rid ''response'' t)) = Some \<lparr>pl_to = ''ann'', pl_kind = ''response'', pl_slug = ''ask'', pl_pri = JNull,
     pl_ptr = JNull, pl_fyi = False, pl_for = None, pl_on = None, pl_state = None, pl_writer = None\<rparr>"
  by (simp_all add: demo_row_def parse_payload_def PAYLOAD_VERSION_def EVENT_KINDS_def some_text_def)

theorem answered_directive_reopens_witness:
  "\<exists>s' s''. apply_events ''ann'' [demo_row ''a'' ''directive'' ''t1'', demo_row ''c'' ''response'' ''t2''] (demo_state full_memory) = Inr (2, s')
    \<and> map_of (sf_open s') ''ask'' = None
    \<and> apply_events ''ann'' [demo_row ''a'' ''directive'' ''t1'', demo_row ''c'' ''response'' ''t2''] s' = Inr (1, s'')
    \<and> map_of (sf_open s'') ''ask'' \<noteq> None"
proof -
  have c: "closes ''ann'' (demo_row ''c'' ''response'' ''t2'') q" if "pl_for q = None" for q
    using that by (simp add: closes_def sender_of_def demo_row_def startswith_def)
  from answered_directive_reopens[where s = "demo_state full_memory" and S = full_memory and i = "''a''" and j = "''c''"
      and d = "demo_row ''a'' ''directive'' ''t1''" and e = "demo_row ''c'' ''response'' ''t2''" and agent = "''ann''",
      OF _ full_memory_facts(1,2,3) _ _ full_memory_facts(4) _ _ full_memory_facts(6) _ demo_payload(1) _ _ _ demo_payload(2)]
  show ?thesis
    using c by (fastforce simp: demo_state_def demo_row_def full_memory_facts(5) addressed_def)
qed

theorem overlap_replay_changes_nothing_witness:
  "\<exists>s'. apply_events ''ann'' [demo_row ''a'' ''directive'' ''t1''] (demo_state []) = Inr (1, s')
     \<and> apply_events ''ann'' [demo_row ''a'' ''directive'' ''t1'', demo_row ''a'' ''directive'' ''t1''] s' = Inr (0, s')"
proof -
  obtain s' where s': "apply_events ''ann'' [demo_row ''a'' ''directive'' ''t1''] (demo_state []) = Inr (1, s')" "length (sf_seen s') < SEEN_CAP"
    by (simp add: apply_events_def demo_state_def demo_row_def SEEN_CAP_def sorted_set_def)
  from overlap_replay_changes_nothing[OF this, of "[demo_row ''a'' ''directive'' ''t1'', demo_row ''a'' ''directive'' ''t1'']"] s'
  show ?thesis by simp
qed

section \<open>Answers\<close>

lemma loaded_state:
  assumes "load_state read team agent now w = ((st, src), w')" "src \<noteq> Corrupt"
  obtains raw where "read (state_path team agent) w = (raw, w')"
    "(raw = None \<and> st = empty_state now) \<or> (\<exists>d. raw = Some (Some (JObj d)) \<and> is_num (jget d ''v'') 1
       \<and> jget d ''cursor'' = sf_cursor st \<and> jget d ''seen'' = JArr (sf_seen st) \<and> jget d ''open'' = JObj (sf_open st))"
  using assms by (auto simp: load_state_def STATE_VERSION_def split: prod.splits option.splits json.splits if_splits)

text \<open>C36. A served answer is a checkpoint: CLEAR or DATA means that the configuration was resolved; that the
  read of the stored state gave a sound version-1 document, whose cursor, identities and obligations are
  the state folded from, or gave nothing, and then the state is the empty one with its cursor seven days
  before now; that the whole window from ten minutes before that cursor to now was read; and that the
  state with its events applied and the cursor at now was acknowledged by the store. The rows are that
  state's open obligations, and CLEAR says there is none. What the code does not tell apart is a state
  that is absent and one that could not be read: both give nothing.\<close>

theorem served_fold_is_a_checkpoint:
  assumes "stream_fold E team agent now w = (Inr answer, w')" "oc_state answer \<in> {CovClear, CovData}"
  shows "\<exists>cfg ld w1 raw st w2 c cur rows w3 n st'.
    load_config_classified (se_env E) (se_read E) (se_classified E) team w = (Inr (Some cfg, ld), w1)
    \<and> se_read E (state_path team agent) w1 = (raw, w2)
    \<and> ((raw = None \<and> st = \<lparr>sf_cursor = JStr (strf_z (shift_us (- 7 * 24 * 3600 * second_us) now)), sf_seen = [], sf_open = [],
            sf_rest = [(''v'', JNum 1)]\<rparr>)
       \<or> (\<exists>d. raw = Some (Some (JObj d)) \<and> is_num (jget d ''v'') 1 \<and> jget d ''cursor'' = sf_cursor st
            \<and> jget d ''seen'' = JArr (sf_seen st) \<and> jget d ''open'' = JObj (sf_open st)))
    \<and> sf_cursor st = JStr c \<and> parse_z c = Some cur
    \<and> se_records E (cf_data_type cfg) (strf_z (shift_us (- 600 * second_us) cur)) (strf_z now) w2 = (Some rows, w3)
    \<and> apply_events agent rows st = Inr (n, st')
    \<and> se_write E (state_path team agent) (state_json (st'\<lparr>sf_cursor := JStr (strf_z now)\<rparr>)) w3 = (True, w')
    \<and> out_rows (sf_open st') = Inr (oc_rows answer)
    \<and> (oc_state answer = CovClear \<longleftrightarrow> oc_rows answer = [])"
proof -
  have unk: "oc_state (stream_unknown t r) = CovUnknown" for t r
    by (simp add: stream_unknown_def from_surfaces_def Let_def)
  have rep: "oc_state (stream_report ok out t n src) = CovClear \<longleftrightarrow> ok \<and> out = []"
    "oc_state (stream_report ok out t n src) = CovData \<longleftrightarrow> ok \<and> out \<noteq> []" for ok out t n src
    by (cases ok; simp add: stream_report_def unk from_surfaces_def Let_def)+
  have rows: "oc_rows (stream_report True out t n src) = out" for out t n src
    by (simp add: stream_report_def from_surfaces_def Let_def)
  from assms have "\<exists>cfg ld w1 st src w2 c cur rows w3 n st'.
      load_config_classified (se_env E) (se_read E) (se_classified E) team w = (Inr (Some cfg, ld), w1)
    \<and> load_state (se_read E) team agent now w1 = ((st, src), w2) \<and> src \<noteq> Corrupt
    \<and> sf_cursor st = JStr c \<and> parse_z c = Some cur
    \<and> se_records E (cf_data_type cfg) (strf_z (shift_us (- OVERLAP_SECONDS * second_us) cur)) (strf_z now) w2 = (Some rows, w3)
    \<and> apply_events agent rows st = Inr (n, st')
    \<and> se_write E (state_path team agent) (state_json (st'\<lparr>sf_cursor := JStr (strf_z now)\<rparr>)) w3 = (True, w')
    \<and> out_rows (sf_open st') = Inr (oc_rows answer)
    \<and> (oc_state answer = CovClear \<longleftrightarrow> oc_rows answer = [])"
    by (auto simp: stream_fold_def after_rows_def unk rep rows res_bind_Inr_iff Let_def
        split: sum.splits prod.splits option.splits json.splits source.splits)
  then obtain cfg ld w1 st src w2 c cur rows w3 n st' where
    r: "load_config_classified (se_env E) (se_read E) (se_classified E) team w = (Inr (Some cfg, ld), w1)"
      "sf_cursor st = JStr c" "parse_z c = Some cur"
      "se_records E (cf_data_type cfg) (strf_z (shift_us (- OVERLAP_SECONDS * second_us) cur)) (strf_z now) w2 = (Some rows, w3)"
      "apply_events agent rows st = Inr (n, st')"
      "se_write E (state_path team agent) (state_json (st'\<lparr>sf_cursor := JStr (strf_z now)\<rparr>)) w3 = (True, w')"
      "out_rows (sf_open st') = Inr (oc_rows answer)" "oc_state answer = CovClear \<longleftrightarrow> oc_rows answer = []"
    and ld: "load_state (se_read E) team agent now w1 = ((st, src), w2)" "src \<noteq> Corrupt"
    by blast
  obtain raw where "se_read E (state_path team agent) w1 = (raw, w2)"
    "(raw = None \<and> st = empty_state now) \<or> (\<exists>d. raw = Some (Some (JObj d)) \<and> is_num (jget d ''v'') 1
       \<and> jget d ''cursor'' = sf_cursor st \<and> jget d ''seen'' = JArr (sf_seen st) \<and> jget d ''open'' = JObj (sf_open st))"
    using ld by (rule loaded_state)
  moreover have "empty_state now = \<lparr>sf_cursor = JStr (strf_z (shift_us (- 7 * 24 * 3600 * second_us) now)), sf_seen = [], sf_open = [],
            sf_rest = [(''v'', JNum 1)]\<rparr>"
    by (simp add: empty_state_def STREAM_LOOKBACK_SECONDS_def STATE_VERSION_def)
  ultimately have raw: "se_read E (state_path team agent) w1 = (raw, w2)"
    "(raw = None \<and> st = \<lparr>sf_cursor = JStr (strf_z (shift_us (- 7 * 24 * 3600 * second_us) now)), sf_seen = [], sf_open = [],
            sf_rest = [(''v'', JNum 1)]\<rparr>)
       \<or> (\<exists>d. raw = Some (Some (JObj d)) \<and> is_num (jget d ''v'') 1 \<and> jget d ''cursor'' = sf_cursor st
            \<and> jget d ''seen'' = JArr (sf_seen st) \<and> jget d ''open'' = JObj (sf_open st))"
    by simp_all
  note r = r[unfolded OVERLAP_SECONDS_def]
  show ?thesis by (intro exI conjI) (rule r(1) raw r(2-))+
qed

text \<open>What follows from it: a state that could not be read is taken for a state that is not there. The pass
  starts seven days back, can answer CLEAR whatever obligations the stored state held, and overwrites it.\<close>

lemma unreadable_state_starts_over:
  assumes "load_config_classified (se_env E) (se_read E) (se_classified E) team w = (Inr (Some cfg, ld), w1)"
    and "se_read E (state_path team agent) w1 = (None, w2)"
    and "parse_z (strf_z (shift_us (- STREAM_LOOKBACK_SECONDS * second_us) now)) = Some cur"
    and "se_records E (cf_data_type cfg) (strf_z (shift_us (- OVERLAP_SECONDS * second_us) cur)) (strf_z now) w2 = (Some [], w3)"
    and "se_write E (state_path team agent) (state_json ((empty_state now)\<lparr>sf_cursor := JStr (strf_z now)\<rparr>)) w3 = (True, w')"
  shows "\<exists>answer. stream_fold E team agent now w = (Inr answer, w') \<and> oc_state answer = CovClear"
proof -
  have ld: "load_state (se_read E) team agent now w1 = ((empty_state now, Fresh), w2)" using assms(2) by (simp add: load_state_def)
  have ap: "apply_events agent [] (empty_state now) = Inr (0, empty_state now)"
    by (simp add: apply_events_def empty_state_def sorted_set_def keep_last_def)
  have c: "sf_cursor (empty_state now) = JStr (strf_z (shift_us (- STREAM_LOOKBACK_SECONDS * second_us) now))" "sf_open (empty_state now) = []"
    by (simp_all add: empty_state_def)
  show ?thesis
    unfolding stream_fold_def assms(1)
    using assms(3-5) by (simp add: ld c ap after_rows_def Let_def out_rows_def stream_report_def from_surfaces_def)
qed

definition demo_stream :: "unit stream_env" where
  "demo_stream = \<lparr>se_env = (\<lambda>k. None),
     se_read = (\<lambda>p w. (Some (Some (if p = records_config_path ''hq'' then JObj [(''data_type'', JStr ''bus'')]
                          else state_json (demo_state []))), w)),
     se_classified = None,
     se_records = (\<lambda>ty since until w. (Some [demo_row ''a'' ''directive'' ''t1''], w)),
     se_write = (\<lambda>p j w. (True, w))\<rparr>"

lemma demo_stream_run:
  "\<exists>answer. stream_fold demo_stream ''hq'' ''ann'' \<lparr>wall = 0, off = Some 0\<rparr> () = (Inr answer, ()) \<and> oc_state answer = CovData"
proof -
  have cfg: "load_config_classified (se_env demo_stream) (se_read demo_stream) (se_classified demo_stream) ''hq'' ()
      = (Inr (Some \<lparr>cf_data_type = ''bus'', cf_api_version = DEFAULT_API_VERSION, cf_current = None, cf_authority = None\<rparr>, LdOk), ())"
    by code_simp
  have cur: "\<exists>t. parse_z ''2026-08-01T00:00:00Z'' = Some t" by (simp add: time_eval)
  then obtain t where t: "parse_z ''2026-08-01T00:00:00Z'' = Some t" by blast
  have path: "state_path ''hq'' ''ann'' \<noteq> records_config_path ''hq''" by code_simp
  have st: "load_state (se_read demo_stream) ''hq'' ''ann'' now () = ((demo_state [], Seeded), ())" for now
    using path t by (simp add: load_state_def demo_stream_def state_json_def demo_state_def STATE_VERSION_def jget_def)
  have ap: "apply_events ''ann'' [demo_row ''a'' ''directive'' ''t1''] (demo_state [])
      = Inr (1, (demo_state [''a''])\<lparr>sf_open := [(''ask'', JObj [(''pri'', JStr ''P3''), (''at'', JStr ''t1''), (''ptr'', JNull)])]\<rparr>)"
    by code_simp
  have cursor: "sf_cursor (demo_state []) = JStr ''2026-08-01T00:00:00Z''" by (simp add: demo_state_def)
  have env: "se_records demo_stream a b c v = (Some [demo_row ''a'' ''directive'' ''t1''], v)"
    "se_write demo_stream p j v = (True, v)" for a b c p j v
    by (simp_all add: demo_stream_def)
  have out: "out_rows [(''ask'', JObj [(''pri'', JStr ''P3''), (''at'', JStr ''t1''), (''ptr'', JNull)])]
      = Inr [JObj [(''slug'', JStr ''ask''), (''pri'', JStr ''P3''), (''at'', JStr ''t1''), (''ptr'', JNull)]]"
    by code_simp
  show ?thesis
    unfolding stream_fold_def cfg
    by (simp add: st cursor t env after_rows_def ap Let_def out stream_report_def from_surfaces_def)
qed

theorem served_fold_is_a_checkpoint_witness:
  "\<exists>answer st n st'. stream_fold demo_stream ''hq'' ''ann'' \<lparr>wall = 0, off = Some 0\<rparr> () = (Inr answer, ()) \<and> oc_state answer = CovData
     \<and> apply_events ''ann'' [demo_row ''a'' ''directive'' ''t1''] st = Inr (n, st') \<and> out_rows (sf_open st') = Inr (oc_rows answer)"
proof -
  obtain answer where a: "stream_fold demo_stream ''hq'' ''ann'' \<lparr>wall = 0, off = Some 0\<rparr> () = (Inr answer, ())" "oc_state answer = CovData"
    using demo_stream_run by blast
  then have "oc_state answer \<in> {CovClear, CovData}" by simp
  from served_fold_is_a_checkpoint[OF a(1) this] a show ?thesis by (auto simp: demo_stream_def)
qed

end
