(* ===== verification/Py_IO.thy ===== *)
theory Py_IO
  imports Records_Cursor
begin

text \<open>
  Statements that act on the world and may raise, their sequence, the handlers and the context manager
  of Python; the observer that writes down the effects of a run; and the compact JSON text, measured in
  bytes, with its digest.
\<close>

section \<open>Sequences and exceptions\<close>

type_synonym ('w, 'a) io = "'w \<Rightarrow> (string + 'a) \<times> 'w"

named_theorems io_simps "running a sequence of statements"

definition io_return :: "'a \<Rightarrow> ('w, 'a) io" where
  "io_return a w = (Inr a, w)"

definition io_raise :: "string \<Rightarrow> ('w, 'a) io" where
  "io_raise e w = (Inl e, w)"

definition io_bind :: "('w, 'a) io \<Rightarrow> ('a \<Rightarrow> ('w, 'b) io) \<Rightarrow> ('w, 'b) io" where
  "io_bind m f w = (case m w of (Inl e, w') \<Rightarrow> (Inl e, w') | (Inr a, w') \<Rightarrow> f a w')"

definition io_of :: "string + 'a \<Rightarrow> ('w, 'a) io" where
  "io_of r w = (r, w)"

text \<open>\<open>if bad: raise e\<close>.\<close>

definition io_unless :: "bool \<Rightarrow> string \<Rightarrow> ('w, unit) io" where
  "io_unless good e = (if good then io_return () else io_raise e)"

definition io_catch :: "('w, 'a) io \<Rightarrow> (string \<Rightarrow> ('w, 'a) io) \<Rightarrow> ('w, 'a) io" where
  "io_catch m h w = (case m w of (Inl e, w') \<Rightarrow> h e w' | (Inr a, w') \<Rightarrow> (Inr a, w'))"

text \<open>\<open>with scope(): m\<close>: the exit runs however the block ends.\<close>

definition io_within :: "('w, unit) io \<Rightarrow> ('w \<Rightarrow> 'w) \<Rightarrow> ('w, 'a) io \<Rightarrow> ('w, 'a) io" where
  "io_within enter leave m = io_bind enter (\<lambda>_ w. case m w of (r, w') \<Rightarrow> (r, leave w'))"

fun io_map :: "('a \<Rightarrow> ('w, 'b) io) \<Rightarrow> 'a list \<Rightarrow> ('w, 'b list) io" where
  "io_map f [] = io_return []"
| "io_map f (x # xs) = io_bind (f x) (\<lambda>y. io_bind (io_map f xs) (\<lambda>ys. io_return (y # ys)))"

lemma io_run [simp, io_simps]:
  "io_return a w = (Inr a, w)"
  "io_raise e w = (Inl e, w)"
  "io_of r w = (r, w)"
  "io_unless True e w = (Inr (), w)"
  "io_unless False e w = (Inl e, w)"
  by (simp_all add: io_return_def io_raise_def io_of_def io_unless_def)

lemma io_bind_Inr:
  "io_bind m f w = (Inr b, w') \<longleftrightarrow> (\<exists>a w1. m w = (Inr a, w1) \<and> f a w1 = (Inr b, w'))"
  by (auto simp: io_bind_def split: prod.splits sum.splits)

lemma io_bind_step [io_simps]: "m w = (Inr a, w1) \<Longrightarrow> io_bind m f w = f a w1" "m w = (Inl e, w1) \<Longrightarrow> io_bind m f w = (Inl e, w1)"
  by (simp_all add: io_bind_def)

lemma io_bind_simps [simp]:
  "io_bind (io_return a) f = f a" "io_bind (io_raise e) f = io_raise e" "io_bind (io_of (Inr a)) f = f a"
  by (auto simp: io_bind_def)

lemma io_unless_Inr: "io_unless good e w = (Inr u, w') \<longleftrightarrow> good \<and> w' = w"
  by (auto simp: io_unless_def)

text \<open>For the evaluation of concrete runs: nothing is rewritten in statements that are not reached.\<close>

lemma io_bind_weak: "m = m' \<Longrightarrow> io_bind m f = io_bind m' f"
  by simp

section \<open>Properties of every run\<close>

text \<open>\<open>always P m\<close>: the world before and after \<open>m\<close> are related by \<open>P\<close>, however \<open>m\<close> ends.\<close>

definition always :: "('w \<Rightarrow> 'w \<Rightarrow> bool) \<Rightarrow> ('w, 'a) io \<Rightarrow> bool" where
  "always P m \<longleftrightarrow> (\<forall>w. P w (snd (m w)))"

definition preorder_rel :: "('w \<Rightarrow> 'w \<Rightarrow> bool) \<Rightarrow> bool" where
  "preorder_rel P \<longleftrightarrow> (\<forall>w. P w w) \<and> (\<forall>u v w. P u v \<longrightarrow> P v w \<longrightarrow> P u w)"

named_theorems always_intro "rules for a property of every run"

lemma always_return [always_intro]: "preorder_rel P \<Longrightarrow> always P (io_return a)"
  by (simp add: always_def preorder_rel_def)

lemma always_raise [always_intro]: "preorder_rel P \<Longrightarrow> always P (io_raise a)"
  by (simp add: always_def preorder_rel_def)

lemma always_of [always_intro]: "preorder_rel P \<Longrightarrow> always P (io_of a)"
  by (simp add: always_def preorder_rel_def)

lemma always_unless [always_intro]: "preorder_rel P \<Longrightarrow> always P (io_unless b e)"
  by (cases b) (simp_all add: always_def preorder_rel_def)

lemma always_bind [always_intro]:
  assumes "preorder_rel P" "always P m" "\<And>a. always P (f a)"
  shows "always P (io_bind m f)"
proof -
  have "P w (snd (io_bind m f w))" for w
  proof (cases "m w")
    case (Pair r w1)
    then have 1: "P w w1" using assms(2) by (metis always_def snd_conv)
    show ?thesis
    proof (cases r)
      case (Inr a)
      have "P w1 (snd (f a w1))" using assms(3) by (simp add: always_def)
      with 1 Pair Inr assms(1) show ?thesis by (auto simp: io_bind_def preorder_rel_def)
    qed (use 1 Pair in \<open>simp add: io_bind_def\<close>)
  qed
  then show ?thesis by (simp add: always_def)
qed

lemma always_when: "preorder_rel P \<Longrightarrow> (good \<Longrightarrow> always P (f ())) \<Longrightarrow> always P (io_bind (io_unless good e) f)"
  by (cases good) (simp_all add: always_def preorder_rel_def io_bind_def)

lemma always_catch [always_intro]:
  assumes "preorder_rel P" "always P m" "\<And>e. always P (h e)"
  shows "always P (io_catch m h)"
proof -
  have "P w (snd (io_catch m h w))" for w
  proof (cases "m w")
    case (Pair r w1)
    then have 1: "P w w1" using assms(2) by (metis always_def snd_conv)
    show ?thesis
    proof (cases r)
      case (Inl e)
      have "P w1 (snd (h e w1))" using assms(3) by (simp add: always_def)
      with 1 Pair Inl assms(1) show ?thesis by (auto simp: io_catch_def preorder_rel_def)
    qed (use 1 Pair in \<open>simp add: io_catch_def\<close>)
  qed
  then show ?thesis by (simp add: always_def)
qed

lemma always_within [always_intro]:
  assumes "preorder_rel P" "always P enter" "always P m" "\<And>w. P w (leave w)"
  shows "always P (io_within enter leave m)"
proof -
  have "always P (\<lambda>w. case m w of (r, w') \<Rightarrow> (r, leave w'))"
    using assms(1,3,4) by (auto simp: always_def preorder_rel_def split: prod.split) (metis snd_conv)
  then show ?thesis unfolding io_within_def by (intro always_bind assms)
qed

lemma always_map [always_intro]: "preorder_rel P \<Longrightarrow> (\<And>x. always P (f x)) \<Longrightarrow> always P (io_map f xs)"
  by (induction xs) (auto intro!: always_intro)

lemma always_if [always_intro]: "(b \<Longrightarrow> always P x) \<Longrightarrow> (\<not> b \<Longrightarrow> always P y) \<Longrightarrow> always P (if b then x else y)"
  by simp

lemma always_option [always_intro]:
  "(x = None \<Longrightarrow> always P a) \<Longrightarrow> (\<And>y. x = Some y \<Longrightarrow> always P (f y)) \<Longrightarrow> always P (case x of None \<Rightarrow> a | Some y \<Rightarrow> f y)"
  by (cases x) simp_all

lemma always_prod [always_intro]: "(\<And>a b. x = (a, b) \<Longrightarrow> always P (f a b)) \<Longrightarrow> always P (case x of (a, b) \<Rightarrow> f a b)"
  by (cases x) simp

lemma always_list [always_intro]:
  "(x = [] \<Longrightarrow> always P a) \<Longrightarrow> (\<And>y ys. x = y # ys \<Longrightarrow> always P (f y ys)) \<Longrightarrow> always P (case x of [] \<Rightarrow> a | y # ys \<Rightarrow> f y ys)"
  by (cases x) simp_all

lemma always_bool [always_intro]: "(x \<Longrightarrow> always P a) \<Longrightarrow> (\<not> x \<Longrightarrow> always P b) \<Longrightarrow> always P (case x of True \<Rightarrow> a | False \<Rightarrow> b)"
  by (cases x) simp_all

lemma always_json [always_intro]:
  "always P a \<Longrightarrow> (\<And>y. always P (b y)) \<Longrightarrow> (\<And>y. always P (c y)) \<Longrightarrow> (\<And>y. always P (d y)) \<Longrightarrow> (\<And>y. always P (e y))
     \<Longrightarrow> (\<And>y. always P (f y)) \<Longrightarrow>
     always P (case x of JNull \<Rightarrow> a | JBool y \<Rightarrow> b y | JNum y \<Rightarrow> c y | JStr y \<Rightarrow> d y | JArr y \<Rightarrow> e y | JObj y \<Rightarrow> f y)"
  by (cases x) simp_all

lemma always_let [always_intro]: "always P (f x) \<Longrightarrow> always P (let y = x in f y)"
  by simp

section \<open>The compact text of a value\<close>

definition utf8_len :: "string \<Rightarrow> nat" where
  "utf8_len s = sum_list (map (\<lambda>c. if (of_char c :: nat) < 128 then 1 else 2) s)"

definition escaped_len :: "char \<Rightarrow> nat" where
  "escaped_len c = (let n = of_char c :: nat in
     if n = 34 \<or> n = 92 then 2 else if n \<in> {8, 9, 10, 12, 13} then 2 else if n < 32 then 6 else if n < 128 then 1 else 2)"

definition text_len :: "string \<Rightarrow> nat" where
  "text_len s = 2 + sum_list (map escaped_len s)"

fun json_len :: "json \<Rightarrow> nat" where
  "json_len JNull = 4"
| "json_len (JBool b) = (if b then 4 else 5)"
| "json_len (JNum n) = length (int_str n)"
| "json_len (JStr s) = text_len s"
| "json_len (JArr xs) = 2 + sum_list (map json_len xs) + (length xs - 1)"
| "json_len (JObj d) = 2 + sum_list (map (\<lambda>(k, v). text_len k + 1 + json_len v) d) + (length d - 1)"

text \<open>SHA-256 of the compact text with sorted keys, as a function of the value.\<close>

definition digest_with :: "(json \<Rightarrow> string) \<Rightarrow> json \<Rightarrow> string" where
  "digest_with sha v = sha (sort_keys v)"

end
