(* ===== verification/Sync_State.thy ===== *)
theory Sync_State
  imports Py_IO
begin

text \<open>
  packages/task-sync: the bounded checkpoint records of state.py, in a key-value store that the caller
  provides. A value that the store does not hold is \<^const>\<open>JNull\<close>. The state of a run is explicit: the
  outer world, the account's active record and the result that is being counted; a statement that raises
  leaves in it whatever it had changed before.
\<close>

section \<open>Tasks and what a run talks to (models.py)\<close>

record task =
  t_id :: string
  t_collection :: string
  t_title :: string
  t_notes :: string
  t_completed :: bool
  t_due :: "string option"
  t_completed_at :: "string option"
  t_recurring :: bool
  t_revision :: string

record collection =
  c_id :: string
  c_name :: string
  c_writable :: bool

text \<open>What the YAML library composes of a text: scalars already resolved, sequences, and mappings as the
  pairs of their nodes. A scalar with no JSON form, such as a date, is some value that is no text.\<close>

datatype ynode = YScalar json | YSeq "ynode list" | YMap "(ynode \<times> ynode) list"

text \<open>The provider, the vault, the key-value store, the clock, the lease, fresh identities, the two hashes
  and the YAML library.\<close>

record 'w tenv =
  pv_name :: string
  pv_namespace :: "string option"
  pv_collections :: "('w, collection list) io"
  pv_tasks :: "string list \<Rightarrow> ('w, task list) io"
  pv_get_task :: "string \<Rightarrow> ('w, task option) io"
  pv_complete :: "string \<Rightarrow> string \<Rightarrow> string \<Rightarrow> ('w, task) io"
  vt_namespace :: "('w, string) io"
  vt_set_deadline :: "rat \<Rightarrow> 'w \<Rightarrow> 'w"
  vt_versions :: "string \<Rightarrow> ('w, string list) io"
  vt_read :: "string \<Rightarrow> ('w, string) io"
  vt_write :: "string \<Rightarrow> string \<Rightarrow> ('w, string) io"
  kv_load :: "string \<Rightarrow> ('w, json) io"
  kv_save :: "string \<Rightarrow> json \<Rightarrow> ('w, bool) io"
  te_clock :: "'w \<Rightarrow> rat \<times> 'w"
  te_selected :: "('w, string list) io option"
  te_uuid :: "'w \<Rightarrow> string \<times> 'w"
  te_enter :: "('w, unit) io"
  te_leave :: "'w \<Rightarrow> 'w"
  te_sha :: "json \<Rightarrow> string"
  te_sha_text :: "string \<Rightarrow> string"
  yaml_aliases :: "string \<Rightarrow> string + bool"
  yaml_node :: "string \<Rightarrow> string + ynode"
  yaml_dump :: "(string \<times> json) list \<Rightarrow> string"

record counts =
  n_imported :: nat
  n_updated :: nat
  n_completed :: nat
  n_unchanged :: nat
  n_missing :: nat
  n_skipped :: nat
  n_blocked :: nat
  n_planned :: nat

record 'w run =
  rn_world :: 'w
  rn_active :: "(string \<times> json) list"
  rn_changed :: bool
  rn_counts :: counts
  rn_errors :: "string list"
  rn_remaining :: nat
  rn_partial :: bool

text \<open>A statement of the outer world inside a run.\<close>

definition out :: "('w, 'a) io \<Rightarrow> ('w run, 'a) io" where
  "out m r = (case m (rn_world r) of (x, w) \<Rightarrow> (x, r\<lparr>rn_world := w\<rparr>))"

definition out_val :: "('w \<Rightarrow> 'a \<times> 'w) \<Rightarrow> ('w run, 'a) io" where
  "out_val m r = (case m (rn_world r) of (x, w) \<Rightarrow> (Inr x, r\<lparr>rn_world := w\<rparr>))"

definition digest :: "'w tenv \<Rightarrow> json \<Rightarrow> string" where
  "digest E v = digest_with (te_sha E) v"

section \<open>Bounds\<close>

definition KEY_BYTES :: nat where "KEY_BYTES = 256"
definition VALUE_BYTES :: nat where "VALUE_BYTES = 65536"
definition CHUNK_BYTES :: nat where "CHUNK_BYTES = 24000"
definition MAX_IDS :: nat where "MAX_IDS = 10000"
definition MAX_ID_BYTES :: nat where "MAX_ID_BYTES = 1024"
definition MAX_HISTORY :: nat where "MAX_HISTORY = 500"
definition MAX_VERSION_BYTES :: nat where "MAX_VERSION_BYTES = 512"

definition validate_record :: "string \<Rightarrow> json \<Rightarrow> string + unit" where
  "validate_record key v =
     (if \<not> (0 < utf8_len key \<and> utf8_len key \<le> KEY_BYTES) then Inl ''StateError''
      else if VALUE_BYTES < json_len v then Inl ''StateError'' else Inr ())"

definition strings_ok :: "string list \<Rightarrow> nat \<Rightarrow> nat \<Rightarrow> bool" where
  "strings_ok vs count sz \<longleftrightarrow> length vs \<le> count \<and> list_all (\<lambda>v. v \<noteq> [] \<and> utf8_len v \<le> sz) vs \<and> distinct vs"

definition bounded_strings :: "json \<Rightarrow> nat \<Rightarrow> nat \<Rightarrow> string + string list" where
  "bounded_strings j count sz =
     (case as_list as_str j of None \<Rightarrow> Inl ''StateError''
      | Some vs \<Rightarrow> if strings_ok vs count sz then Inr vs else Inl ''StateError'')"

definition text_list :: "string list \<Rightarrow> json" where
  "text_list vs = JArr (map JStr vs)"

section \<open>Records\<close>

text \<open>What a store of this run needs: the environment, whether nothing may be written, the check before
  every write, and the prefix of its keys.\<close>

record 'w store =
  st_env :: "'w tenv"
  st_dry :: bool
  st_guard :: "('w run, unit) io"
  st_prefix :: string

definition read_record :: "'w store \<Rightarrow> string \<Rightarrow> ('w run, json) io" where
  "read_record S key =
     io_bind (out (kv_load (st_env S) key)) (\<lambda>v.
     if v = JNull then io_return JNull else io_bind (io_of (validate_record key v)) (\<lambda>_. io_return v))"

definition write_record :: "'w store \<Rightarrow> string \<Rightarrow> json \<Rightarrow> ('w run, unit) io" where
  "write_record S key v =
     io_bind (io_of (validate_record key v)) (\<lambda>_.
     if st_dry S then io_return ()
     else io_bind (st_guard S) (\<lambda>_. io_bind (out (kv_save (st_env S) key v)) (\<lambda>ok. io_unless ok ''StateError'')))"

definition chunk_key :: "'w store \<Rightarrow> string \<Rightarrow> string" where
  "chunk_key S r = st_prefix S @ '':chunk:'' @ r"

definition read_chunk :: "'w store \<Rightarrow> string \<Rightarrow> ('w run, json list) io" where
  "read_chunk S r =
     io_bind (read_record S (chunk_key S r)) (\<lambda>c.
     case c of JArr xs \<Rightarrow> io_bind (io_unless (digest (st_env S) c = r) ''StateError'') (\<lambda>_. io_return xs)
     | _ \<Rightarrow> io_raise ''StateError'')"

definition read_list :: "'w store \<Rightarrow> json \<Rightarrow> nat \<Rightarrow> nat \<Rightarrow> ('w run, string list) io" where
  "read_list S refs count sz =
     io_bind (io_of (bounded_strings refs 600 64)) (\<lambda>rs.
     io_bind (io_map (read_chunk S) rs) (\<lambda>chunks. io_of (bounded_strings (JArr (concat chunks)) count sz)))"

text \<open>The pieces a list is cut into, each of about \<^const>\<open>CHUNK_BYTES\<close> of compact text.\<close>

fun chunks_of :: "string list \<Rightarrow> nat \<Rightarrow> string list \<Rightarrow> string list list" where
  "chunks_of chunk used [] = (if chunk = [] then [] else [chunk])"
| "chunks_of chunk used (v # vs) =
     (let cost = text_len v + 1 in
      if CHUNK_BYTES < used + cost \<and> chunk \<noteq> [] then chunk # chunks_of [v] (2 + cost) vs
      else chunks_of (chunk @ [v]) (used + cost) vs)"

definition put_chunk :: "'w store \<Rightarrow> string list \<Rightarrow> ('w run, string) io" where
  "put_chunk S chunk =
     (let r = digest (st_env S) (text_list chunk) in
      io_bind (read_record S (chunk_key S r)) (\<lambda>existing.
      if existing = JNull then io_bind (write_record S (chunk_key S r) (text_list chunk)) (\<lambda>_. io_return r)
      else io_bind (io_unless (existing = text_list chunk) ''StateError'') (\<lambda>_. io_return r)))"

definition write_list :: "'w store \<Rightarrow> string list \<Rightarrow> nat \<Rightarrow> nat \<Rightarrow> ('w run, string list) io" where
  "write_list S vs count sz =
     io_bind (io_unless (strings_ok vs count sz) ''StateError'') (\<lambda>_. io_map (put_chunk S) (chunks_of [] 2 vs))"

section \<open>The account's active record\<close>

text \<open>\<open>d[k]\<close>.\<close>

definition item :: "(string \<times> json) list \<Rightarrow> string \<Rightarrow> string + json" where
  "item d k = (case map_of d k of None \<Rightarrow> Inl ''KeyError'' | Some v \<Rightarrow> Inr v)"

definition get_active :: "('w run, (string \<times> json) list) io" where
  "get_active r = (Inr (rn_active r), r)"

definition set_active :: "string \<Rightarrow> json \<Rightarrow> ('w run, unit) io" where
  "set_active k v r = (Inr (), r\<lparr>rn_active := dict_set k v (rn_active r)\<rparr>)"

definition active_key :: "'w store \<Rightarrow> string" where
  "active_key S = st_prefix S @ '':active''"

definition store_prefix :: "'w tenv \<Rightarrow> string list \<Rightarrow> string" where
  "store_prefix E account = ''task-sync:v2:'' @ digest E (text_list account)"

text \<open>The constructor: the stored record if it is of this selection, a new epoch otherwise; and the
  identities it tracks.\<close>

definition open_store :: "'w store \<Rightarrow> json \<Rightarrow> ('w run, string list) io" where
  "open_store S selection =
     io_bind (read_record S (active_key S)) (\<lambda>current.
     io_bind (case current of JNull \<Rightarrow> io_return None
        | JObj d \<Rightarrow> io_bind (io_unless (is_num (jget d ''schema'') 2) ''StateError'') (\<lambda>_. io_return (Some d))
        | _ \<Rightarrow> io_raise ''StateError'') (\<lambda>d.
     let sel = JStr (digest (st_env S) selection) in
     case d of
       Some d \<Rightarrow> if jget d ''selection'' = sel
         then (\<lambda>r. (io_bind (io_of (item d ''index'')) (\<lambda>refs. read_list S refs MAX_IDS MAX_ID_BYTES)) (r\<lparr>rn_active := d, rn_changed := False\<rparr>))
         else io_bind (out_val (te_uuid (st_env S))) (\<lambda>epoch r.
            (Inr [], r\<lparr>rn_changed := True, rn_active := [(''schema'', JNum 2), (''selection'', sel), (''epoch'', JStr epoch),
               (''index'', JArr []), (''next_id'', JNull)]\<rparr>))
     | None \<Rightarrow> io_bind (out_val (te_uuid (st_env S))) (\<lambda>epoch r.
            (Inr [], r\<lparr>rn_changed := True, rn_active := [(''schema'', JNum 2), (''selection'', sel), (''epoch'', JStr epoch),
               (''index'', JArr []), (''next_id'', JNull)]\<rparr>))))"

definition write_active :: "'w store \<Rightarrow> ('w run, unit) io" where
  "write_active S = io_bind get_active (\<lambda>d. write_record S (active_key S) (JObj d))"

definition activate :: "'w store \<Rightarrow> string list \<Rightarrow> ('w run, unit) io" where
  "activate S ids =
     io_bind (write_list S (sort ids) MAX_IDS MAX_ID_BYTES) (\<lambda>refs r.
       (if rn_changed r \<or> item (rn_active r) ''index'' \<noteq> Inr (text_list refs)
        then (if \<not> rn_changed r \<and> map_of (rn_active r) ''index'' = None then (Inl ''KeyError'', r)
              else io_bind (set_active ''index'' (text_list refs)) (\<lambda>_.
                   io_bind (write_active S) (\<lambda>_ r. (Inr (), r\<lparr>rn_changed := False\<rparr>))) r)
        else (Inr (), r)))"

definition advance_to :: "'w store \<Rightarrow> string \<Rightarrow> ('w run, unit) io" where
  "advance_to S next_id = io_bind (set_active ''next_id'' (JStr next_id)) (\<lambda>_. write_active S)"

section \<open>The record of a task\<close>

record previous =
  pr_dict :: "(string \<times> json) list"
  pr_seen :: "string list"
  pr_baselines :: "string list"

definition task_key :: "'w store \<Rightarrow> string \<Rightarrow> string" where
  "task_key S i = st_prefix S @ '':task:'' @ digest (st_env S) (JStr i)"

definition load_task :: "'w store \<Rightarrow> string \<Rightarrow> ('w run, previous option) io" where
  "load_task S i =
     io_bind (read_record S (task_key S i)) (\<lambda>v.
     case v of JNull \<Rightarrow> io_return None
     | JObj d \<Rightarrow>
         io_bind (io_unless (is_num (jget d ''schema'') 2) ''StateError'') (\<lambda>_.
         io_bind get_active (\<lambda>act.
         io_bind (io_of (item act ''epoch'')) (\<lambda>epoch.
         if jget d ''epoch'' \<noteq> epoch then io_return None
         else io_bind (io_of (item d ''seen'')) (\<lambda>rs.
           io_bind (read_list S rs MAX_HISTORY MAX_VERSION_BYTES) (\<lambda>seen.
           io_bind (io_of (item d ''baselines'')) (\<lambda>rb.
           io_bind (read_list S rb MAX_HISTORY 64) (\<lambda>bs.
           io_return (Some \<lparr>pr_dict = d, pr_seen = seen, pr_baselines = bs\<rparr>))))))))
     | _ \<Rightarrow> io_raise ''StateError'')"

record trecord =
  tr_baseline :: json
  tr_generation :: json
  tr_seen :: "string list"
  tr_baselines :: "string list"
  tr_journal :: json

definition save_task :: "'w store \<Rightarrow> string \<Rightarrow> trecord \<Rightarrow> ('w run, unit) io" where
  "save_task S i v =
     io_bind (io_unless (strings_ok (tr_seen v) MAX_HISTORY MAX_VERSION_BYTES) ''StateError'') (\<lambda>_.
     io_bind (io_unless (strings_ok (tr_baselines v) MAX_HISTORY 64) ''StateError'') (\<lambda>_.
     io_bind (write_list S (tr_seen v) MAX_HISTORY MAX_VERSION_BYTES) (\<lambda>rs.
     io_bind (write_list S (tr_baselines v) MAX_HISTORY 64) (\<lambda>rb.
     io_bind get_active (\<lambda>act.
     io_bind (io_of (item act ''epoch'')) (\<lambda>epoch.
     write_record S (task_key S i) (JObj [(''baseline'', tr_baseline v), (''generation'', tr_generation v),
       (''seen'', text_list rs), (''baselines'', text_list rb), (''journal'', tr_journal v),
       (''schema'', JNum 2), (''epoch'', epoch)])))))))"

end
