(* ===== verification/Sync_Documents.thy ===== *)
theory Sync_Documents
  imports Sync_State
begin

text \<open>
  packages/task-sync: the task documents of documents.py. The YAML library is a parameter that composes
  nodes and dumps mappings; the strict construction of mappings is the code's own.
\<close>

definition BEGIN_FENCE :: string where "BEGIN_FENCE = ''<!-- collect-task:source:begin -->''"
definition END_FENCE :: string where "END_FENCE = ''<!-- collect-task:source:end -->''"
definition MAX_BYTES :: nat where "MAX_BYTES = 1000000"

section \<open>Strict mappings\<close>

function (sequential) construct :: "ynode \<Rightarrow> string + json" and construct_seq :: "ynode list \<Rightarrow> string + json list"
  and construct_map :: "(ynode \<times> ynode) list \<Rightarrow> (string \<times> json) list \<Rightarrow> string + (string \<times> json) list" where
  "construct (YScalar j) = Inr j"
| "construct (YSeq ns) = res_bind (construct_seq ns) (\<lambda>xs. Inr (JArr xs))"
| "construct (YMap ps) = res_bind (construct_map ps []) (\<lambda>d. Inr (JObj d))"
| "construct_seq [] = Inr []"
| "construct_seq (n # ns) = res_bind (construct n) (\<lambda>x. res_bind (construct_seq ns) (\<lambda>xs. Inr (x # xs)))"
| "construct_map [] d = Inr d"
| "construct_map ((k, v) # ps) d =
     res_bind (construct k) (\<lambda>key. case key of
       JStr s \<Rightarrow> if map_of d s \<noteq> None then Inl ''DocumentError''
                else res_bind (construct v) (\<lambda>x. construct_map ps (d @ [(s, x)]))
     | _ \<Rightarrow> Inl ''DocumentError'')"
  by pat_completeness auto

termination
  by (relation "measure (case_sum size (case_sum (size_list size) (\<lambda>p. size_list (size_prod size size) (fst p))))") auto

section \<open>Documents\<close>

record document =
  dc_metadata :: "(string \<times> json) list"
  dc_before :: string
  dc_after :: string

definition provider_name_ok :: "string \<Rightarrow> bool" where
  "provider_name_ok s =
     (case s of [] \<Rightarrow> False
      | c # r \<Rightarrow> (CHR ''a'' \<le> c \<and> c \<le> CHR ''z'') \<and> length r \<le> 63
          \<and> list_all (\<lambda>x. (CHR ''a'' \<le> x \<and> x \<le> CHR ''z'') \<or> is_digit x \<or> x = CHR ''-'') r)"

definition task_path :: "'w tenv \<Rightarrow> string \<Rightarrow> string \<Rightarrow> string + string" where
  "task_path E provider task_id =
     (if \<not> provider_name_ok provider then Inl ''DocumentError''
      else Inr (''vault/tasks/'' @ provider @ ''/'' @ te_sha_text E task_id @ ''.md''))"

text \<open>A text that occurs exactly once: what stands before and after it.\<close>

definition split_once :: "string \<Rightarrow> string \<Rightarrow> (string \<times> string) option" where
  "split_once p s =
     (case find_text s p of None \<Rightarrow> None
      | Some i \<Rightarrow> (let r = drop (i + length p) s in if find_text r p = None then Some (take i s, r) else None))"

definition metadata_ok :: "string \<Rightarrow> string \<Rightarrow> (string \<times> json) list \<Rightarrow> bool" where
  "metadata_ok provider task_id d \<longleftrightarrow>
     jget d ''type'' = JStr ''Task'' \<and> jget d ''sync_schema'' = JStr ''collect-task/v1'' \<and> jget d ''source'' = JStr provider
     \<and> jget d ''source_id'' = JStr task_id
     \<and> list_all (\<lambda>k. case jget d k of JStr s \<Rightarrow> k = ''source_revision'' \<or> s \<noteq> [] | _ \<Rightarrow> False)
          [''source_id'', ''list_id'', ''generation'', ''source_revision'']
     \<and> jget d ''status'' \<in> {JStr ''open'', JStr ''resolved''}
     \<and> (case jget d ''source_completed'' of JBool b \<Rightarrow> True | _ \<Rightarrow> False) \<and> map_of d ''source_due'' \<noteq> None
     \<and> (jget d ''source_due'' = JNull \<or> is_str (jget d ''source_due''))"

definition separator :: string where "separator = [CHR 0x0A] @ ''---'' @ [CHR 0x0A]"

definition parse_document :: "'w tenv \<Rightarrow> string \<Rightarrow> string \<Rightarrow> string \<Rightarrow> string + document" where
  "parse_document E text provider task_id =
     (if MAX_BYTES < utf8_len text then Inl ''DocumentError''
      else if \<not> startswith text (''---'' @ [CHR 0x0A]) then Inl ''DocumentError''
      else (case find_text (drop 4 text) separator of None \<Rightarrow> Inl ''DocumentError''
        | Some i \<Rightarrow>
            (let header = take i (drop 4 text); body = drop (i + 5) (drop 4 text) in
             case (yaml_aliases E header, yaml_node E header) of
               (Inr False, Inr node) \<Rightarrow>
                 (case construct node of
                    Inr (JObj d) \<Rightarrow>
                      if \<not> metadata_ok provider task_id d then Inl ''DocumentError''
                      else (case (split_once BEGIN_FENCE body, split_once END_FENCE body) of
                         (Some (before, rest), Some _) \<Rightarrow>
                           (case split_once END_FENCE rest of None \<Rightarrow> Inl ''DocumentError''
                            | Some (_, after) \<Rightarrow> Inr \<lparr>dc_metadata = d, dc_before = before, dc_after = after\<rparr>)
                       | _ \<Rightarrow> Inl ''DocumentError'')
                  | _ \<Rightarrow> Inl ''DocumentError'')
             | _ \<Rightarrow> Inl ''DocumentError'')))"

text \<open>\<open>html.escape\<close>.\<close>

definition escape_char :: "char \<Rightarrow> string" where
  "escape_char c =
     (if c = CHR ''&'' then ''&amp;'' else if c = CHR ''<'' then ''&lt;'' else if c = CHR ''>'' then ''&gt;''
      else if c = CHR 0x22 then ''&quot;'' else if c = CHR 0x27 then ''&#x27;'' else [c])"

definition html_escape :: "string \<Rightarrow> string" where
  "html_escape s = concat (map escape_char s)"

definition source_fields :: "string \<Rightarrow> task \<Rightarrow> json \<Rightarrow> (string \<times> json) list" where
  "source_fields provider t generation =
     [(''type'', JStr ''Task''), (''sync_schema'', JStr ''collect-task/v1''), (''source'', JStr provider),
      (''source_id'', JStr (t_id t)), (''list_id'', JStr (t_collection t)), (''generation'', generation),
      (''status'', JStr (if t_completed t then ''resolved'' else ''open'')), (''source_completed'', JBool (t_completed t)),
      (''source_due'', json_opt (t_due t)), (''source_revision'', JStr (t_revision t))]"

definition source_region :: "task \<Rightarrow> string" where
  "source_region t = [CHR 0x0A] @ ''# '' @ html_escape (t_title t) @ [CHR 0x0A, CHR 0x0A] @ html_escape (t_notes t) @ [CHR 0x0A]"

definition assemble :: "'w tenv \<Rightarrow> (string \<times> json) list \<Rightarrow> string \<Rightarrow> string \<Rightarrow> string \<Rightarrow> string" where
  "assemble E data before content after =
     ''---'' @ [CHR 0x0A] @ yaml_dump E data @ ''---'' @ [CHR 0x0A] @ before @ BEGIN_FENCE @ content @ END_FENCE @ after"

definition render_document :: "'w tenv \<Rightarrow> string \<Rightarrow> task \<Rightarrow> json \<Rightarrow> string option \<Rightarrow> string + string" where
  "render_document E provider t generation existing =
     res_bind (case existing of None \<Rightarrow> Inr None | Some x \<Rightarrow> res_bind (parse_document E x provider (t_id t)) (\<lambda>d. Inr (Some d))) (\<lambda>old.
       let data = fold (\<lambda>(k, v). dict_set k v) (source_fields provider t generation) (case old of None \<Rightarrow> [] | Some d \<Rightarrow> dc_metadata d);
           (before, after) = (case old of None \<Rightarrow> ([CHR 0x0A], [CHR 0x0A]) | Some d \<Rightarrow> (dc_before d, dc_after d)) in
       Inr (assemble E data before (source_region t) after))"

end
