(* ===== verification/Sync_Engine.thy ===== *)
theory Sync_Engine
  imports Sync_Documents
begin

text \<open>
  packages/task-sync: the completion-only reconciliation of engine.py, one task at a time, with its
  checks of consent and deadline and its durable intent before every mutation. Errors are the names of
  the exceptions.
\<close>

definition MAX_TASKS :: nat where "MAX_TASKS = 10000"
definition MAX_VERSIONS :: nat where "MAX_VERSIONS = 500"

definition bounded :: "('w run, 'a list) io \<Rightarrow> nat \<Rightarrow> ('w run, 'a list) io" where
  "bounded m n = io_bind m (\<lambda>xs. io_bind (io_unless (length xs \<le> n) ''SyncConflict'') (\<lambda>_. io_return xs))"

definition valid_task :: "task \<Rightarrow> bool" where
  "valid_task t \<longleftrightarrow> list_all (\<lambda>v. v \<noteq> [] \<and> utf8_len v \<le> MAX_ID_BYTES) [t_id t, t_collection t]"

definition count :: "(counts \<Rightarrow> counts) \<Rightarrow> ('w run, unit) io" where
  "count f r = (Inr (), r\<lparr>rn_counts := f (rn_counts r)\<rparr>)"

text \<open>What one run was asked for.\<close>

record 'w ctx =
  cx_env :: "'w tenv"
  cx_dry :: bool
  cx_deadline :: rat
  cx_selected :: "string list"

definition guard :: "'w ctx \<Rightarrow> string option \<Rightarrow> ('w run, unit) io" where
  "guard C coll =
     io_bind (out_val (te_clock (cx_env C))) (\<lambda>t.
     if cx_deadline C \<le> t then io_raise ''_Stopped''
     else io_bind (case (cx_dry C, te_selected (cx_env C)) of
            (False, Some ask) \<Rightarrow> io_bind (out ask) (\<lambda>s. io_unless (set s = set (cx_selected C)) ''_Stopped'')
          | _ \<Rightarrow> io_return ()) (\<lambda>_.
       case coll of None \<Rightarrow> io_return () | Some c \<Rightarrow> io_unless (c \<in> set (cx_selected C)) ''_Stopped''))"

definition fresh_generation :: "'w ctx \<Rightarrow> ('w run, json) io" where
  "fresh_generation C = io_bind (out_val (te_uuid (cx_env C))) (\<lambda>u. io_return (JStr u))"

definition hash :: "'w ctx \<Rightarrow> json \<Rightarrow> json" where
  "hash C v = JStr (digest (cx_env C) v)"

definition fingerprint :: "task \<Rightarrow> json" where
  "fingerprint t = JObj [(''source_revision'', JStr (t_revision t)), (''source_due'', json_opt (t_due t)),
     (''source_completed'', JBool (t_completed t)), (''list_id'', JStr (t_collection t))]"

definition baseline :: "'w ctx \<Rightarrow> task \<Rightarrow> json" where
  "baseline C t = JObj [(''completed'', JBool (t_completed t)), (''recurring'', JBool (t_recurring t)),
     (''collection'', hash C (JStr (t_collection t))), (''due'', hash C (json_opt (t_due t))),
     (''revision'', hash C (JStr (t_revision t))), (''content'', hash C (JArr [JStr (t_title t), JStr (t_notes t)]))]"

text \<open>\<open>x[k]\<close> of a stored value.\<close>

definition sub :: "json \<Rightarrow> string \<Rightarrow> string + json" where
  "sub j k = (case j of JObj d \<Rightarrow> item d k | _ \<Rightarrow> Inl ''TypeError'')"

section \<open>Generation and trust\<close>

text \<open>A journal of another open revision, and a source that was reopened, moved or rescheduled.\<close>

definition journal_stale :: "'w ctx \<Rightarrow> task \<Rightarrow> json \<Rightarrow> string + bool" where
  "journal_stale C t journal =
     (if truthy journal \<and> \<not> t_completed t
      then res_bind (sub journal ''revision'') (\<lambda>v. Inr (v \<noteq> hash C (JStr (t_revision t)))) else Inr False)"

definition source_rotated :: "'w ctx \<Rightarrow> task \<Rightarrow> json \<Rightarrow> string + bool" where
  "source_rotated C t old =
     (if \<not> truthy old then Inr False
      else res_bind (sub old ''completed'') (\<lambda>was.
        if truthy was \<and> \<not> t_completed t then Inr True
        else res_bind (sub old ''collection'') (\<lambda>coll.
          if coll \<noteq> hash C (JStr (t_collection t)) then Inr True
          else if t_recurring t then res_bind (sub old ''due'') (\<lambda>due. Inr (due \<noteq> hash C (json_opt (t_due t))))
          else Inr False)))"

record trust =
  tu_generation :: json
  tu_journal :: json
  tu_trusted :: "string list"

definition first_trust :: "'w ctx \<Rightarrow> task \<Rightarrow> previous option \<Rightarrow> ('w run, json \<times> trust) io" where
  "first_trust C t prev =
     (case prev of
        None \<Rightarrow> io_bind (fresh_generation C) (\<lambda>g. io_return (JNull, \<lparr>tu_generation = g, tu_journal = JNull, tu_trusted = []\<rparr>))
      | Some p \<Rightarrow>
          io_bind (io_of (item (pr_dict p) ''baseline'')) (\<lambda>old.
          io_bind (io_of (item (pr_dict p) ''generation'')) (\<lambda>own.
          let journal = jget (pr_dict p) ''journal'' in
          io_bind (io_of (journal_stale C t journal)) (\<lambda>stale.
          io_bind (if stale then fresh_generation C else io_return own) (\<lambda>g1.
          io_bind (io_of (source_rotated C t old)) (\<lambda>rotated.
          io_bind (if rotated then fresh_generation C else io_return g1) (\<lambda>g2.
          io_return (old, \<lparr>tu_generation = g2, tu_journal = journal,
            tu_trusted = (if g2 \<noteq> own then [] else pr_baselines p)\<rparr>))))))))"

section \<open>Reading the document\<close>

definition version_list :: "'w ctx \<Rightarrow> string \<Rightarrow> ('w run, string list) io" where
  "version_list C path =
     io_bind (bounded (out (vt_versions (cx_env C) path)) MAX_VERSIONS) (\<lambda>vs.
     io_bind (io_unless (distinct vs \<and> list_all (\<lambda>v. v \<noteq> [] \<and> utf8_len v \<le> MAX_VERSION_BYTES) vs) ''SyncConflict'') (\<lambda>_.
     io_return vs))"

definition read_documents :: "'w ctx \<Rightarrow> task \<Rightarrow> string list \<Rightarrow> string list
    \<Rightarrow> ('w run, (string \<times> string \<times> document) list) io" where
  "read_documents C t seen versions =
     io_map (\<lambda>v. io_bind (guard C (Some (t_collection t))) (\<lambda>_.
                  io_bind (out (vt_read (cx_env C) v)) (\<lambda>text.
                  io_bind (io_of (parse_document (cx_env C) text (pv_name (cx_env C)) (t_id t))) (\<lambda>doc.
                  io_return (v, text, doc)))))
       (filter (\<lambda>v. v \<notin> set seen \<or> v = hd versions) versions)"

text \<open>The newest document of another generation supersedes the local journal.\<close>

definition superseded :: "'w ctx \<Rightarrow> previous option \<Rightarrow> (string \<times> string \<times> document) list \<Rightarrow> trust \<Rightarrow> ('w run, trust) io" where
  "superseded C prev docs tu =
     (case (prev, docs) of
        (Some p, (_, _, doc) # _) \<Rightarrow>
          io_bind (io_of (item (pr_dict p) ''generation'')) (\<lambda>own.
          if jget (dc_metadata doc) ''generation'' \<noteq> own
          then io_bind (fresh_generation C) (\<lambda>g. io_return \<lparr>tu_generation = g, tu_journal = JNull, tu_trusted = []\<rparr>)
          else io_return tu)
      | _ \<Rightarrow> io_return tu)"

definition doc_fingerprint :: "(string \<times> json) list \<Rightarrow> json" where
  "doc_fingerprint d = JObj (map (\<lambda>k. (k, jget d k)) [''source_revision'', ''source_due'', ''source_completed'', ''list_id''])"

text \<open>Whether one unseen document asks for completion under the current generation.\<close>

definition asks :: "'w ctx \<Rightarrow> task \<Rightarrow> previous option \<Rightarrow> json \<Rightarrow> trust \<Rightarrow> document \<Rightarrow> string + bool" where
  "asks C t prev old tu doc =
     (let d = dc_metadata doc in
      res_bind (if truthy old then sub old ''collection'' else Inr (hash C (JStr (t_collection t)))) (\<lambda>expected.
      if hash C (jget d ''list_id'') \<noteq> expected then Inl ''DocumentError''
      else if prev \<noteq> None \<and> jget d ''generation'' = tu_generation tu then
        (if digest (cx_env C) (doc_fingerprint d) \<notin> set (tu_trusted tu) then Inl ''SyncConflict''
         else Inr (jget d ''status'' = JStr ''resolved'' \<and> jget d ''source_completed'' = JBool False))
      else Inr False))"

fun any_asks :: "(document \<Rightarrow> string + bool) \<Rightarrow> string list \<Rightarrow> (string \<times> string \<times> document) list \<Rightarrow> string + bool" where
  "any_asks f seen [] = Inr False"
| "any_asks f seen ((v, _, doc) # docs) =
     (if v \<in> set seen then any_asks f seen docs
      else res_bind (f doc) (\<lambda>a. res_bind (any_asks f seen docs) (\<lambda>b. Inr (a \<or> b))))"

definition journal_asks :: "trust \<Rightarrow> string + bool" where
  "journal_asks tu =
     (if truthy (tu_journal tu) then res_bind (sub (tu_journal tu) ''generation'') (\<lambda>g. Inr (g = tu_generation tu)) else Inr False)"

section \<open>Completing the source\<close>

definition same_source :: "task \<Rightarrow> task \<Rightarrow> bool" where
  "same_source a b \<longleftrightarrow> t_id a = t_id b \<and> t_collection a = t_collection b \<and> t_revision a = t_revision b
     \<and> t_recurring a = t_recurring b \<and> t_due a = t_due b \<and> t_completed a = t_completed b"

definition set_union :: "string list \<Rightarrow> string list \<Rightarrow> string list" where
  "set_union xs ys = sorted_set (xs @ ys)"

definition the_task :: "task option \<Rightarrow> string \<Rightarrow> ('w run, task) io" where
  "the_task x e = (case x of None \<Rightarrow> io_raise e | Some t \<Rightarrow> io_return t)"

text \<open>One mutation of the source or the vault: consent is checked again inside the lease.\<close>

definition leased :: "'w ctx \<Rightarrow> string \<Rightarrow> ('w, 'a) io \<Rightarrow> ('w run, 'a) io" where
  "leased C coll m =
     io_within (out (te_enter (cx_env C))) (\<lambda>r. r\<lparr>rn_world := te_leave (cx_env C) (rn_world r)\<rparr>)
       (io_bind (guard C (Some coll)) (\<lambda>_. out m))"

definition complete_source :: "'w ctx \<Rightarrow> 'w store \<Rightarrow> task \<Rightarrow> json \<Rightarrow> trust \<Rightarrow> string list \<Rightarrow> string list
    \<Rightarrow> ('w run, task option) io" where
  "complete_source C S t old tu seen versions =
     io_bind (io_unless (length (set_union seen versions) < MAX_VERSIONS \<and> length (tu_trusted tu) < MAX_VERSIONS) ''SyncConflict'') (\<lambda>_.
     io_bind (out (pv_get_task (cx_env C) (t_id t))) (\<lambda>found.
     io_bind (the_task found ''SyncConflict'') (\<lambda>fresh.
     io_bind (io_unless (valid_task fresh) ''SyncConflict'') (\<lambda>_.
     io_bind (guard C (Some (t_collection fresh))) (\<lambda>_.
     io_bind (io_unless (same_source fresh t) ''SyncConflict'') (\<lambda>_.
     if cx_dry C then io_bind (count (\<lambda>n. n\<lparr>n_planned := n_planned n + 1\<rparr>)) (\<lambda>_. io_return None)
     else
     io_bind (guard C (Some (t_collection fresh))) (\<lambda>_.
     io_bind (save_task S (t_id t) \<lparr>tr_baseline = old, tr_generation = tu_generation tu, tr_seen = sorted_set seen,
        tr_baselines = tu_trusted tu,
        tr_journal = JObj [(''generation'', tu_generation tu), (''revision'', hash C (JStr (t_revision fresh))),
          (''collection'', hash C (JStr (t_collection fresh)))]\<rparr>) (\<lambda>_.
     io_bind (leased C (t_collection fresh) (pv_complete (cx_env C) (t_id fresh) (t_revision fresh) (t_collection fresh))) (\<lambda>_.
     io_bind (out (pv_get_task (cx_env C) (t_id fresh))) (\<lambda>again.
     io_bind (the_task again ''SyncConflict'') (\<lambda>confirmed.
     io_bind (io_unless (t_completed confirmed \<and> t_id confirmed = t_id fresh \<and> t_collection confirmed = t_collection fresh) ''SyncConflict'') (\<lambda>_.
     io_bind (io_unless (valid_task confirmed) ''SyncConflict'') (\<lambda>_.
     io_bind (count (\<lambda>n. n\<lparr>n_completed := n_completed n + 1\<rparr>)) (\<lambda>_. io_return (Some confirmed)))))))))))))))"

section \<open>Publishing the document\<close>

definition publish :: "'w ctx \<Rightarrow> 'w store \<Rightarrow> string \<Rightarrow> task \<Rightarrow> bool \<Rightarrow> json \<Rightarrow> string list \<Rightarrow> string list \<Rightarrow> string list
    \<Rightarrow> string option \<Rightarrow> ('w run, unit) io" where
  "publish C S path t known generation trusted seen versions latest =
     io_bind (io_of (render_document (cx_env C) (pv_name (cx_env C)) t generation latest)) (\<lambda>rendered.
     if Some rendered = latest then
       io_bind (count (\<lambda>n. n\<lparr>n_unchanged := n_unchanged n + 1\<rparr>)) (\<lambda>_.
       if cx_dry C then io_return ()
       else save_task S (t_id t) \<lparr>tr_baseline = baseline C t, tr_generation = generation, tr_seen = set_union seen versions,
              tr_baselines = trusted, tr_journal = JNull\<rparr>)
     else if cx_dry C then count (\<lambda>n. n\<lparr>n_planned := n_planned n + 1\<rparr>)
     else
       io_bind (io_unless (length (set_union seen versions) < MAX_VERSIONS) ''SyncConflict'') (\<lambda>_.
       let fp = digest (cx_env C) (fingerprint t); trusted = (if fp \<in> set trusted then trusted else trusted @ [fp]) in
       io_bind (io_unless (length trusted \<le> MAX_VERSIONS) ''SyncConflict'') (\<lambda>_.
       io_bind (guard C (Some (t_collection t))) (\<lambda>_.
       io_bind (save_task S (t_id t) \<lparr>tr_baseline = baseline C t, tr_generation = generation, tr_seen = sorted_set seen,
              tr_baselines = trusted, tr_journal = JNull\<rparr>) (\<lambda>_.
       io_bind (leased C (t_collection t) (vt_write (cx_env C) path rendered)) (\<lambda>version.
       io_bind (io_unless (version \<noteq> [] \<and> utf8_len version \<le> MAX_VERSION_BYTES) ''SyncConflict'') (\<lambda>_.
       io_bind (count (\<lambda>n. if known then n\<lparr>n_updated := n_updated n + 1\<rparr> else n\<lparr>n_imported := n_imported n + 1\<rparr>)) (\<lambda>_.
       save_task S (t_id t) \<lparr>tr_baseline = baseline C t, tr_generation = generation,
              tr_seen = set_union (version # seen) versions, tr_baselines = trusted, tr_journal = JNull\<rparr>))))))))"

definition sync_task :: "'w ctx \<Rightarrow> 'w store \<Rightarrow> task \<Rightarrow> previous option \<Rightarrow> ('w run, unit) io" where
  "sync_task C S t prev =
     io_bind (io_of (task_path (cx_env C) (pv_name (cx_env C)) (t_id t))) (\<lambda>path.
     io_bind (version_list C path) (\<lambda>versions.
     io_bind (first_trust C t prev) (\<lambda>(old, tu0).
     let seen = (case prev of None \<Rightarrow> [] | Some p \<Rightarrow> pr_seen p) in
     io_bind (read_documents C t seen versions) (\<lambda>docs.
     io_bind (superseded C prev docs tu0) (\<lambda>tu.
     let latest = (case docs of [] \<Rightarrow> None | (_, text, _) # _ \<Rightarrow> Some text) in
     io_bind (io_of (any_asks (asks C t prev old tu) seen docs)) (\<lambda>asked.
     io_bind (io_of (journal_asks tu)) (\<lambda>pending.
     if \<not> (asked \<or> pending) \<or> t_completed t then
       publish C S path t (prev \<noteq> None) (tu_generation tu) (tu_trusted tu) seen versions latest
     else if t_recurring t then
       io_bind (count (\<lambda>n. n\<lparr>n_blocked := n_blocked n + 1\<rparr>)) (\<lambda>_.
       if sort_keys old = sort_keys (baseline C t) then io_return ()
       else publish C S path t (prev \<noteq> None) (tu_generation tu) (tu_trusted tu) seen versions latest)
     else
       io_bind (complete_source C S t old tu seen versions) (\<lambda>outcome.
       case outcome of None \<Rightarrow> io_return ()
       | Some t' \<Rightarrow> publish C S path t' (prev \<noteq> None) (tu_generation tu) (tu_trusted tu) seen versions latest))))))))"

section \<open>One run\<close>

fun snapshot_of :: "string list \<Rightarrow> (string, task) dict \<Rightarrow> task list \<Rightarrow> string + (string, task) dict" where
  "snapshot_of sel d [] = Inr d"
| "snapshot_of sel d (t # ts) =
     (if \<not> valid_task t then Inl ''SyncConflict''
      else if map_of d (t_id t) \<noteq> None \<or> t_collection t \<notin> set sel then Inl ''SyncConflict''
      else snapshot_of sel (dict_set (t_id t) t d) ts)"

text \<open>Everything before the first task: the whole snapshot, the account, the tracking index.\<close>

definition prepare :: "'w ctx \<Rightarrow> string \<Rightarrow> ('w run, 'w store \<times> (string, task) dict \<times> string list) io" where
  "prepare C epoch =
     (let E = cx_env C; sel = cx_selected C in
      io_bind (guard C None) (\<lambda>_.
      io_bind (bounded (out (pv_collections E)) MAX_TASKS) (\<lambda>cs.
      io_bind (io_unless (set sel \<subseteq> c_id ` set (filter c_writable cs)) ''SyncConflict'') (\<lambda>_.
      io_bind (bounded (out (pv_tasks E sel)) MAX_TASKS) (\<lambda>ts.
      io_bind (io_of (snapshot_of sel [] ts)) (\<lambda>snap.
      io_bind (case pv_namespace E of None \<Rightarrow> io_raise ''SyncConflict''
                | Some ns \<Rightarrow> if ns = [] then io_raise ''SyncConflict'' else io_return ns) (\<lambda>ns.
      io_bind (out (vt_namespace E)) (\<lambda>vns.
      io_bind (io_unless (vns \<noteq> []) ''SyncConflict'') (\<lambda>_.
      io_bind (out (vt_namespace E)) (\<lambda>vns.
      let S = \<lparr>st_env = E, st_dry = cx_dry C, st_guard = guard C None, st_prefix = store_prefix E [vns, ns, pv_name E]\<rparr> in
      io_bind (open_store S (JArr [text_list (sorted_set sel), JStr epoch])) (\<lambda>tracked.
      let ids = sorted_set (map fst snap @ tracked) in
      io_bind (io_unless (length ids \<le> MAX_TASKS) ''SyncConflict'') (\<lambda>_.
      io_bind (if cx_dry C then io_return () else activate S ids) (\<lambda>_.
      io_return (S, snap, ids))))))))))))))"

definition advance :: "'w ctx \<Rightarrow> 'w store \<Rightarrow> string list \<Rightarrow> nat \<Rightarrow> ('w run, unit) io" where
  "advance C S ids i =
     io_bind (guard C None) (\<lambda>_.
     if cx_dry C then io_return () else advance_to S (ids ! ((i + 1) mod length ids)))"

definition one_task :: "'w ctx \<Rightarrow> 'w store \<Rightarrow> (string, task) dict \<Rightarrow> string list \<Rightarrow> nat \<Rightarrow> ('w run, unit) io" where
  "one_task C S snap ids i =
     (let task_id = ids ! i in
      io_bind (guard C None) (\<lambda>_.
      io_bind (case map_of snap task_id of Some t \<Rightarrow> io_return (Some t) | None \<Rightarrow> out (pv_get_task (cx_env C) task_id)) (\<lambda>found.
      case found of
        None \<Rightarrow> io_bind (count (\<lambda>n. n\<lparr>n_missing := n_missing n + 1\<rparr>)) (\<lambda>_. advance C S ids i)
      | Some t \<Rightarrow>
          io_bind (io_unless (valid_task t) ''SyncConflict'') (\<lambda>_.
          io_bind (io_unless (t_id t = task_id) ''SyncConflict'') (\<lambda>_.
          if t_collection t \<notin> set (cx_selected C) then
            io_bind (count (\<lambda>n. n\<lparr>n_skipped := n_skipped n + 1\<rparr>)) (\<lambda>_. advance C S ids i)
          else
            io_bind (guard C (Some (t_collection t))) (\<lambda>_.
            io_bind (load_task S task_id) (\<lambda>prev.
            io_bind (sync_task C S t prev) (\<lambda>_.
            io_bind (guard C (Some (t_collection t))) (\<lambda>_.
            advance C S ids i)))))))))"

definition error_label :: "'w ctx \<Rightarrow> string \<Rightarrow> string \<Rightarrow> string" where
  "error_label C task_id e = take 12 (te_sha_text (cx_env C) task_id) @ '':'' @ e"

fun each_task :: "'w ctx \<Rightarrow> 'w store \<Rightarrow> (string, task) dict \<Rightarrow> string list \<Rightarrow> nat list \<Rightarrow> 'w run \<Rightarrow> 'w run" where
  "each_task C S snap ids [] r = r"
| "each_task C S snap ids (i # rest) r =
     (case one_task C S snap ids i r of
        (Inr _, r') \<Rightarrow> each_task C S snap ids rest r'
      | (Inl e, r') \<Rightarrow>
          if e = ''_Stopped'' then r'\<lparr>rn_remaining := rn_remaining r' + (length ids - i), rn_partial := True\<rparr>
          else each_task C S snap ids rest
                 (r'\<lparr>rn_errors := rn_errors r' @ [error_label C (ids ! i) e], rn_remaining := rn_remaining r' + 1, rn_partial := True\<rparr>))"

definition rotate_to :: "json \<Rightarrow> string list \<Rightarrow> string list" where
  "rotate_to next ids =
     (case next of JStr s \<Rightarrow> if s \<in> set ids then dropWhile (\<lambda>x. x \<noteq> s) ids @ takeWhile (\<lambda>x. x \<noteq> s) ids else ids | _ \<Rightarrow> ids)"

definition empty_run :: "'w \<Rightarrow> 'w run" where
  "empty_run w = \<lparr>rn_world = w, rn_active = [], rn_changed = False, rn_counts = \<lparr>n_imported = 0, n_updated = 0, n_completed = 0,
     n_unchanged = 0, n_missing = 0, n_skipped = 0, n_blocked = 0, n_planned = 0\<rparr>, rn_errors = [], rn_remaining = 0, rn_partial = False\<rparr>"

definition run_sync :: "'w tenv \<Rightarrow> string list \<Rightarrow> bool \<Rightarrow> rat \<Rightarrow> string \<Rightarrow> 'w \<Rightarrow> 'w run" where
  "run_sync E selected_ids dry deadline_s epoch w =
     (if selected_ids = [] then empty_run w
      else (case te_clock E w of (t, w1) \<Rightarrow>
        (let dl = t + min (max deadline_s 0) 600;
             C = \<lparr>cx_env = E, cx_dry = dry, cx_deadline = dl, cx_selected = remdups selected_ids\<rparr> in
         case prepare C epoch (empty_run (vt_set_deadline E dl w1)) of
           (Inl e, r) \<Rightarrow>
             (if e = ''_Stopped'' then r\<lparr>rn_partial := True, rn_remaining := 1\<rparr>
              else r\<lparr>rn_errors := rn_errors r @ [''snapshot:'' @ e], rn_partial := True, rn_remaining := 1\<rparr>)
         | (Inr (S, snap, ids), r) \<Rightarrow>
             (let ids = rotate_to (jget (rn_active r) ''next_id'') ids in each_task C S snap ids [0..<length ids] r))))"

end
