(* ===== verification/Sync_Log.thy ===== *)
theory Sync_Log
  imports Sync_Engine
begin

text \<open>
  An observer of task-sync: the same environment, which also writes down its readings of the clock and of
  the selection, the leases, and every completion, upload and record write that was attempted. The locale
  \<open>run_log\<close> carries a property of such logs from the single effects to a whole run.
\<close>

section \<open>The observer\<close>

datatype effect =
    ETick rat
  | ESelected "string list"
  | EEnter
  | ELeave
  | EComplete string string string
  | EWrite string string
  | ESave string json bool
  | EVersion string string
  | EUuid string

definition observe :: "(string + 'a \<Rightarrow> effect list) \<Rightarrow> ('w, 'a) io \<Rightarrow> ('w \<times> effect list, 'a) io" where
  "observe f m = (\<lambda>(w, l). case m w of (x, w') \<Rightarrow> (x, (w', l @ f x)))"

definition observe_val :: "('a \<Rightarrow> effect list) \<Rightarrow> ('w \<Rightarrow> 'a \<times> 'w) \<Rightarrow> 'w \<times> effect list \<Rightarrow> 'a \<times> ('w \<times> effect list)" where
  "observe_val f m = (\<lambda>(w, l). case m w of (x, w') \<Rightarrow> (x, (w', l @ f x)))"

definition on_success :: "('a \<Rightarrow> effect list) \<Rightarrow> string + 'a \<Rightarrow> effect list" where
  "on_success f x = (case x of Inl _ \<Rightarrow> [] | Inr a \<Rightarrow> f a)"

definition watched :: "'w tenv \<Rightarrow> ('w \<times> effect list) tenv" where
  "watched E = \<lparr>pv_name = pv_name E, pv_namespace = pv_namespace E,
     pv_collections = observe (\<lambda>_. []) (pv_collections E),
     pv_tasks = (\<lambda>s. observe (\<lambda>_. []) (pv_tasks E s)),
     pv_get_task = (\<lambda>i. observe (\<lambda>_. []) (pv_get_task E i)),
     pv_complete = (\<lambda>i v c. observe (\<lambda>_. [EComplete i v c]) (pv_complete E i v c)),
     vt_namespace = observe (\<lambda>_. []) (vt_namespace E),
     vt_set_deadline = (\<lambda>t (w, l). (vt_set_deadline E t w, l)),
     vt_versions = (\<lambda>p. observe (\<lambda>_. []) (vt_versions E p)),
     vt_read = (\<lambda>v. observe (on_success (\<lambda>x. [EVersion v x])) (vt_read E v)),
     vt_write = (\<lambda>p x. observe (\<lambda>_. [EWrite p x]) (vt_write E p x)),
     kv_load = (\<lambda>k. observe (\<lambda>_. []) (kv_load E k)),
     kv_save = (\<lambda>k v. observe (\<lambda>x. [ESave k v (x = Inr True)]) (kv_save E k v)),
     te_clock = observe_val (\<lambda>t. [ETick t]) (te_clock E),
     te_selected = map_option (observe (on_success (\<lambda>s. [ESelected s]))) (te_selected E),
     te_uuid = observe_val (\<lambda>u. [EUuid u]) (te_uuid E),
     te_enter = observe (on_success (\<lambda>_. [EEnter])) (te_enter E),
     te_leave = (\<lambda>(w, l). (te_leave E w, l @ [ELeave])),
     te_sha = te_sha E, te_sha_text = te_sha_text E,
     yaml_aliases = yaml_aliases E, yaml_node = yaml_node E, yaml_dump = yaml_dump E\<rparr>"

lemma watched_simps:
  "te_clock (watched E) = observe_val (\<lambda>t. [ETick t]) (te_clock E)"
  "te_selected (watched E) = map_option (observe (on_success (\<lambda>s. [ESelected s]))) (te_selected E)"
  "te_enter (watched E) = observe (on_success (\<lambda>_. [EEnter])) (te_enter E)"
  "te_leave (watched E) (w, l) = (te_leave E w, l @ [ELeave])"
  "pv_complete (watched E) i v c = observe (\<lambda>_. [EComplete i v c]) (pv_complete E i v c)"
  "vt_write (watched E) p x = observe (\<lambda>_. [EWrite p x]) (vt_write E p x)"
  "vt_read (watched E) v = observe (on_success (\<lambda>x. [EVersion v x])) (vt_read E v)"
  "kv_save (watched E) k j = observe (\<lambda>x. [ESave k j (x = Inr True)]) (kv_save E k j)"
  "te_uuid (watched E) = observe_val (\<lambda>u. [EUuid u]) (te_uuid E)"
  "digest (watched E) = digest E"
  by (simp_all add: watched_def digest_def fun_eq_iff)

definition log_of :: "('w \<times> effect list) run \<Rightarrow> effect list" where
  "log_of r = snd (rn_world r)"

text \<open>What happened between two states is a list of effects with the property.\<close>

definition extends :: "(effect list \<Rightarrow> bool) \<Rightarrow> ('w \<times> effect list) run \<Rightarrow> ('w \<times> effect list) run \<Rightarrow> bool" where
  "extends Q r r' \<longleftrightarrow> (\<exists>l. log_of r' = log_of r @ l \<and> Q l)"

lemma out_observe: "(\<And>x. Q (f x)) \<Longrightarrow> always (extends Q) (out (observe f m))"
  by (auto simp: always_def extends_def out_def observe_def log_of_def split: prod.splits)

lemma out_observe_val: "(\<And>x. Q (f x)) \<Longrightarrow> always (extends Q) (out_val (observe_val f m))"
  by (auto simp: always_def extends_def out_val_def observe_val_def log_of_def split: prod.splits)

lemma same_log:
  assumes "Q []" "\<And>r. log_of (snd (m r)) = log_of r" shows "always (extends Q) m"
  using assms by (auto simp: always_def extends_def)

section \<open>From effects to runs\<close>

definition store_for :: "'w ctx \<Rightarrow> string \<Rightarrow> 'w store" where
  "store_for C pre = \<lparr>st_env = cx_env C, st_dry = cx_dry C, st_guard = guard C None, st_prefix = pre\<rparr>"

lemma store_for_simps [simp]:
  "st_env (store_for C pre) = cx_env C" "st_dry (store_for C pre) = cx_dry C" "st_guard (store_for C pre) = guard C None"
  "st_prefix (store_for C pre) = pre"
  by (simp_all add: store_for_def)

locale effect_log =
  fixes E :: "'w tenv" and dry :: bool and dl :: rat and sel :: "string list" and Q :: "effect list \<Rightarrow> bool"
    and C :: "('w \<times> effect list) ctx"
  assumes C_def: "C = \<lparr>cx_env = watched E, cx_dry = dry, cx_deadline = dl, cx_selected = sel\<rparr>"
    and nil: "Q []"
    and append: "Q a \<Longrightarrow> Q b \<Longrightarrow> Q (a @ b)"
    and reading: "Q [ETick now]" "Q [ESelected s]" "Q [EVersion v x]" "Q [EUuid u]"
    and saving: "\<not> dry \<Longrightarrow> Q [ESave k j ok]"
begin

lemma pre: "preorder_rel (extends Q :: ('w \<times> effect list) run \<Rightarrow> _)"
  unfolding preorder_rel_def extends_def using nil append by (metis append.assoc append_Nil2)

lemmas rules = always_return[OF pre] always_raise[OF pre] always_of[OF pre] always_unless[OF pre] always_bind[OF pre]
  always_catch[OF pre] always_map[OF pre] always_if always_option always_prod always_list always_json always_let

lemma success: "(\<And>a. Q (f a)) \<Longrightarrow> Q (on_success f x)"
  using nil by (simp add: on_success_def split: sum.split)

lemma quiet: "always (extends Q) (out (observe (\<lambda>_. []) m))"
  by (rule out_observe) (rule nil)

lemma counting: "always (extends Q) (count f)"
  by (rule same_log) (simp_all add: nil count_def log_of_def)

lemma active: "always (extends Q) get_active" "always (extends Q) (set_active k v)"
  by (rule same_log; simp add: nil get_active_def set_active_def log_of_def)+

lemma env: "cx_env C = watched E" "cx_dry C = dry"
  by (simp_all add: C_def)

lemma uuid: "always (extends Q) (out_val (te_uuid (watched E)))"
  by (simp add: watched_def) (rule out_observe_val, rule reading)

lemma clock: "always (extends Q) (out_val (te_clock (watched E)))"
  by (simp add: watched_def) (rule out_observe_val, rule reading)

lemma asked: "te_selected (watched E) = Some ask \<Longrightarrow> always (extends Q) (out ask)"
  by (auto simp: watched_def intro!: out_observe success reading)

lemma read_version: "always (extends Q) (out (vt_read (watched E) v))"
  by (simp add: watched_def) (intro out_observe success reading)

lemma load: "always (extends Q) (out (kv_load (watched E) k))"
  by (simp add: watched_def) (rule quiet)

lemma get_task: "always (extends Q) (out (pv_get_task (watched E) k))"
  by (simp add: watched_def) (rule quiet)

lemma save: "\<not> dry \<Longrightarrow> always (extends Q) (out (kv_save (watched E) k v))"
  by (simp add: watched_def) (intro out_observe saving)

lemma guard: "always (extends Q) (guard C coll)"
  unfolding guard_def env by (intro rules clock) (auto split: option.split bool.split intro!: rules asked)

lemma read_record: "always (extends Q) (read_record (store_for C p) k)"
  unfolding read_record_def store_for_simps env by (intro rules load)

lemma write_record: "always (extends Q) (write_record (store_for C p) k v)"
  unfolding write_record_def store_for_simps env by (intro rules guard save)

lemma read_chunk: "always (extends Q) (read_chunk (store_for C p) r)"
  unfolding read_chunk_def by (intro rules read_record)

lemma read_list: "always (extends Q) (read_list (store_for C p) refs n m)"
  unfolding read_list_def by (intro rules read_chunk)

lemma put_chunk: "always (extends Q) (put_chunk (store_for C p) chunk)"
  unfolding put_chunk_def by (intro rules read_record write_record)

lemma write_list: "always (extends Q) (write_list (store_for C p) vs n m)"
  unfolding write_list_def by (intro rules put_chunk)

lemma write_active: "always (extends Q) (write_active (store_for C p))"
  unfolding write_active_def by (intro rules active write_record)

lemma advance_to: "always (extends Q) (advance_to (store_for C p) i)"
  unfolding advance_to_def by (intro rules active write_active)

text \<open>A change of the bookkeeping before or after a statement.\<close>

lemma before: "(\<And>r. log_of (f r) = log_of r) \<Longrightarrow> always (extends Q) m \<Longrightarrow> always (extends Q) (\<lambda>r. m (f r))"
  unfolding always_def extends_def by metis

lemma open_store: "always (extends Q) (open_store (store_for C p) selection)"
proof -
  have old: "always (extends Q) (\<lambda>r. io_bind (io_of x) (\<lambda>refs. read_list (store_for C p) refs n m) (r\<lparr>rn_active := d, rn_changed := False\<rparr>))" for x n m d
    by (rule before) (simp add: log_of_def, intro rules read_list)
  have new: "always (extends Q) (\<lambda>r. (Inr x, r\<lparr>rn_changed := b, rn_active := d\<rparr>))" for x :: "string list" and b d
    by (rule same_log) (simp_all add: nil log_of_def)
  show ?thesis
    unfolding open_store_def store_for_simps env Let_def by (intro rules read_record uuid old new)
qed

lemma activate: "always (extends Q) (activate (store_for C p) ids)"
proof -
  have "always (extends Q) (io_bind (set_active ''index'' v) (\<lambda>_. io_bind (write_active (store_for C p)) (\<lambda>_ r. (Inr (), r\<lparr>rn_changed := False\<rparr>))))" for v
    by (intro rules active write_active same_log) (simp_all add: nil log_of_def)
  then show ?thesis
    unfolding activate_def
    by (intro rules write_list) (auto simp: always_def extends_def nil)
qed

lemma load_task: "always (extends Q) (load_task (store_for C p) i)"
  unfolding load_task_def by (intro rules read_record read_list active)

lemma save_task: "always (extends Q) (save_task (store_for C p) i v)"
  unfolding save_task_def by (intro rules write_list write_record active)

lemma bounded_quiet:
  assumes "always (extends Q) (m :: (('w \<times> effect list) run, 'b list) io)" shows "always (extends Q) (bounded m n)"
  unfolding bounded_def by (intro rules assms)

lemma version_list: "always (extends Q) (version_list C path)"
  unfolding version_list_def env by (intro rules bounded_quiet) (simp add: watched_def quiet)

lemma fresh: "always (extends Q) (fresh_generation C)"
  unfolding fresh_generation_def env by (intro rules uuid)

lemma first_trust: "always (extends Q) (first_trust C t prev)"
  unfolding first_trust_def by (intro rules fresh)

lemma read_documents: "always (extends Q) (read_documents C t seen versions)"
  unfolding read_documents_def env by (intro rules guard read_version)

lemma superseded: "always (extends Q) (superseded C prev docs tu)"
  unfolding superseded_def by (intro rules fresh)

lemma leasing:
  assumes "always (extends Q) (out (te_enter (watched E)))" "Q [ELeave]" "always (extends Q) (out m)"
  shows "always (extends Q) (leased C coll m)"
proof -
  have "extends Q r (r\<lparr>rn_world := te_leave (watched E) (rn_world r)\<rparr>)" for r :: "('w \<times> effect list) run"
    using assms(2) by (simp add: extends_def log_of_def watched_def split: prod.split)
  then show ?thesis
    unfolding leased_def env by (intro always_within[OF pre] rules guard assms)
qed

end

text \<open>A log in which the attempts to upload, and then those to complete, have the property too.\<close>

locale upload_log = effect_log +
  assumes uploading: "\<not> dry \<Longrightarrow> always (extends Q) (leased C coll (vt_write (watched E) path text))"
begin

lemma publish: "always (extends Q) (publish C (store_for C p) path t known g trusted seen versions latest)"
  unfolding publish_def env by (intro rules counting save_task guard uploading)

end

locale run_log = upload_log +
  assumes completing: "always (extends Q) (complete_source C (store_for C pre) t old tu seen versions)"
begin

lemma sync_task: "always (extends Q) (sync_task C (store_for C p) t prev)"
  unfolding sync_task_def by (intro rules version_list first_trust read_documents superseded publish counting completing)

lemma advance: "always (extends Q) (advance C (store_for C p) ids i)"
  unfolding advance_def by (intro rules guard advance_to)

lemma one_task: "always (extends Q) (one_task C (store_for C p) snap ids i)"
  unfolding one_task_def env by (intro rules guard get_task counting advance load_task sync_task)

lemma each_task: "extends Q r (each_task C (store_for C p) snap ids js r)"
proof (induction js arbitrary: r)
  case Nil
  then show ?case using pre by (simp add: preorder_rel_def)
next
  case (Cons i js)
  obtain x r' where o: "one_task C (store_for C p) snap ids i r = (x, r')" by fastforce
  then have step: "extends Q r r'" using one_task by (metis always_def snd_conv)
  have "extends Q r' (r'\<lparr>rn_errors := a, rn_remaining := b, rn_partial := c\<rparr>)" "extends Q r' (r'\<lparr>rn_remaining := b, rn_partial := c\<rparr>)" for a b c
    by (simp_all add: extends_def log_of_def nil)
  with o step Cons.IH pre show ?case
    by (cases x) (simp_all add: preorder_rel_def; meson)+
qed

lemma prepare: "always (extends Q) (prepare C epoch)"
proof -
  have S: "\<lparr>st_env = watched E, st_dry = dry, st_guard = guard C None, st_prefix = p\<rparr> = store_for C p" for p
    by (simp add: store_for_def env)
  have ns: "always (extends Q) (out (vt_namespace (watched E)))" "always (extends Q) (out (pv_collections (watched E)))"
    "always (extends Q) (out (pv_tasks (watched E) s))" for s
    by (simp_all add: watched_def quiet)
  show ?thesis
    unfolding prepare_def Let_def env S
    by (intro rules guard bounded_quiet ns open_store activate)
qed

end

lemma prepare_store: "prepare C epoch r = (Inr (S, snap, ids), r') \<Longrightarrow> \<exists>p. S = store_for C p"
  by (auto simp: prepare_def Let_def io_bind_Inr store_for_def)

lemma run_log_run:
  assumes "\<And>dl. run_log E dry dl (remdups ids) (Q dl) \<lparr>cx_env = watched E, cx_dry = dry, cx_deadline = dl, cx_selected = remdups ids\<rparr>"
    and False: "ids \<noteq> []" and start: "te_clock E w = (t, w1)"
  shows "Q (t + min (max deadline_s 0) 600) (log_of (run_sync (watched E) ids dry deadline_s epoch (w, [])))"
proof -
  let ?dl = "t + min (max deadline_s 0) 600"
  let ?C = "\<lparr>cx_env = watched E, cx_dry = dry, cx_deadline = ?dl, cx_selected = remdups ids\<rparr>"
  note ctx = assms(1)[of ?dl]
  note base = upload_log.axioms(1)[OF run_log.axioms(1)[OF ctx]]
  note trans = effect_log.pre[OF base, unfolded preorder_rel_def, THEN conjunct2, rule_format]
  let ?r0 = "empty_run (vt_set_deadline (watched E) ?dl (w1, [ETick t]))"
  have l0: "log_of ?r0 = [ETick t]" by (simp add: empty_run_def log_of_def watched_def)
  obtain x r1 where p: "prepare ?C epoch ?r0 = (x, r1)" by fastforce
  have e1: "extends (Q ?dl) ?r0 r1" using run_log.prepare[OF ctx, of epoch] p by (metis always_def snd_conv)
  let ?run = "run_sync (watched E) ids dry deadline_s epoch (w, [])"
  have clk: "te_clock (watched E) (w, []) = (t, (w1, [ETick t]))" by (simp add: watched_def observe_val_def assms(3))
  have "extends (Q ?dl) r1 ?run"
  proof (cases x)
    case (Inl e)
    have "log_of ?run = log_of r1"
      using False by (simp add: run_sync_def clk Let_def p Inl log_of_def)
    then show ?thesis using effect_log.nil[OF base] by (simp add: extends_def)
  next
    case (Inr y)
    obtain S snap js where y: "y = (S, snap, js)" by (cases y)
    with p Inr have "prepare ?C epoch ?r0 = (Inr (S, snap, js), r1)" by simp
    then obtain pre where S: "S = store_for ?C pre" using prepare_store by blast
    have "?run = each_task ?C S snap (rotate_to (jget (rn_active r1) ''next_id'') js)
        [0..<length (rotate_to (jget (rn_active r1) ''next_id'') js)] r1"
      using False by (simp add: run_sync_def clk Let_def p Inr y)
    then show ?thesis using run_log.each_task[OF ctx] S by simp
  qed
  with e1 trans have "extends (Q ?dl) ?r0 ?run" by blast
  then obtain l where "log_of ?run = [ETick t] @ l" "Q ?dl l" by (auto simp: extends_def l0)
  then show ?thesis using effect_log.append[OF base effect_log.reading(1)[OF base]] by simp
qed

end
