(* ===== verification/Sync_Props.thy ===== *)
theory Sync_Props
  imports Sync_Log
begin

text \<open>
  What a run of task-sync may do to the outside: nothing when it is a preview; otherwise every upload and
  every completion under a lease in which consent and deadline were just checked, and every completion
  only after its intent was recorded.
\<close>

section \<open>Previews\<close>

fun mutates :: "effect \<Rightarrow> bool" where
  "mutates (EComplete i v c) = True"
| "mutates (EWrite p x) = True"
| "mutates (ESave k v b) = True"
| "mutates _ = False"

definition harmless :: "effect list \<Rightarrow> bool" where
  "harmless l \<longleftrightarrow> list_all (\<lambda>e. \<not> mutates e) l"

lemma dry_effects:
  "effect_log E True dl sel harmless \<lparr>cx_env = watched E, cx_dry = True, cx_deadline = dl, cx_selected = sel\<rparr>"
  by unfold_locales (auto simp: harmless_def)

lemma dry_run_log:
  "run_log E True dl sel harmless \<lparr>cx_env = watched E, cx_dry = True, cx_deadline = dl, cx_selected = sel\<rparr>"
  (is "run_log _ _ _ _ _ ?C")
proof -
  note base = dry_effects[of E dl sel]
  have dry: "cx_dry ?C = True" "cx_env ?C = watched E" by simp_all
  show ?thesis
    apply (intro run_log.intro upload_log.intro base upload_log_axioms.intro run_log_axioms.intro)
    apply simp
    unfolding complete_source_def the_task_def dry if_True
    by (intro effect_log.rules[OF base] effect_log.get_task[OF base] effect_log.guard[OF base] effect_log.counting[OF base])
qed

interpretation dry_log: run_log E True dl sel harmless "\<lparr>cx_env = watched E, cx_dry = True, cx_deadline = dl, cx_selected = sel\<rparr>" for E dl sel
  by (rule dry_run_log)

section \<open>What a statement leaves in the log\<close>

definition emits :: "(string + 'a \<Rightarrow> effect list \<Rightarrow> bool) \<Rightarrow> (('w \<times> effect list) run, 'a) io \<Rightarrow> bool" where
  "emits R m \<longleftrightarrow> (\<forall>r. \<exists>l. log_of (snd (m r)) = log_of r @ l \<and> R (fst (m r)) l)"

lemma emits_always: "always (extends Q) m \<longleftrightarrow> emits (\<lambda>_. Q) m"
  by (simp add: emits_def always_def extends_def)

lemma emits_mono: "emits R m \<Longrightarrow> (\<And>x l. R x l \<Longrightarrow> T x l) \<Longrightarrow> emits T m"
  unfolding emits_def by meson

lemma emits_then:
  assumes m: "emits R m" and f: "\<And>a l. R (Inr a) l \<Longrightarrow> emits (\<lambda>x l'. T x (l @ l')) (f a)"
    and error: "\<And>e l. R (Inl e) l \<Longrightarrow> T (Inl e) l"
  shows "emits T (io_bind m f)"
  unfolding emits_def
proof
  fix r
  obtain x r1 where 1: "m r = (x, r1)" by fastforce
  with m obtain l where l: "log_of r1 = log_of r @ l" "R x l" unfolding emits_def by (metis fst_conv snd_conv)
  show "\<exists>l. log_of (snd (io_bind m f r)) = log_of r @ l \<and> T (fst (io_bind m f r)) l"
  proof (cases x)
    case (Inl e)
    then show ?thesis using 1 l error by (auto simp: io_bind_def)
  next
    case (Inr a)
    then obtain l' where l': "log_of (snd (f a r1)) = log_of r1 @ l'" "T (fst (f a r1)) (l @ l')"
      using f[of a l] l unfolding emits_def by blast
    then show ?thesis using 1 l Inr by (auto simp: io_bind_def)
  qed
qed

lemma emits_bind:
  assumes "emits R m" "\<And>a. emits (S a) (f a)" "\<And>e l. R (Inl e) l \<Longrightarrow> T (Inl e) l"
    and "\<And>a x l l'. R (Inr a) l \<Longrightarrow> S a x l' \<Longrightarrow> T x (l @ l')"
  shows "emits T (io_bind m f)"
  by (rule emits_then[OF assms(1) emits_mono[OF assms(2)]]) (use assms(3,4) in auto)

lemma emits_unless: "(good \<Longrightarrow> R (Inr ()) []) \<Longrightarrow> (\<not> good \<Longrightarrow> R (Inl e) []) \<Longrightarrow> emits R (io_unless good e)"
  by (cases good) (simp_all add: emits_def)

lemma emits_return: "R (Inr a) [] \<Longrightarrow> emits R (io_return a)"
  by (simp add: emits_def)

lemma emits_of: "R x [] \<Longrightarrow> emits R (io_of x)"
  by (simp add: emits_def)

lemma emits_out: "(\<And>x. R x (f x)) \<Longrightarrow> emits R (out (observe f m))"
  by (auto simp: emits_def out_def observe_def log_of_def split: prod.splits)

lemma emits_out_val: "(\<And>x. R (Inr x) (f x)) \<Longrightarrow> emits R (out_val (observe_val f m))"
  by (auto simp: emits_def out_val_def observe_val_def log_of_def split: prod.splits)

section \<open>The discipline of mutations\<close>

text \<open>A check that was passed: a reading of the clock before the deadline and, when the caller can be asked,
  an answer that is still the selection of this run.\<close>

definition checked :: "rat \<Rightarrow> string list \<Rightarrow> bool \<Rightarrow> effect list \<Rightarrow> bool" where
  "checked dl sel ask chk \<longleftrightarrow>
     (\<exists>t < dl. if ask then \<exists>s. chk = [ETick t, ESelected s] \<and> set s = set sel else chk = [ETick t])"

text \<open>The record of an intent to complete \<open>i\<close>.\<close>

definition intends :: "'w tenv \<Rightarrow> string \<Rightarrow> string \<Rightarrow> string \<Rightarrow> string \<Rightarrow> json \<Rightarrow> bool" where
  "intends E i v coll k r \<longleftrightarrow>
     (\<exists>p. k = p @ '':task:'' @ digest E (JStr i))
     \<and> (case r of JObj d \<Rightarrow> (case jget d ''journal'' of JObj j \<Rightarrow> jget j ''revision'' = JStr (digest E (JStr v))
          \<and> jget j ''collection'' = JStr (digest E (JStr coll)) \<and> jget j ''generation'' = jget d ''generation'' | _ \<Rightarrow> False)
       | _ \<Rightarrow> False)"

text \<open>What must have happened directly before an upload or a completion.\<close>

fun justified :: "'w tenv \<Rightarrow> rat \<Rightarrow> string list \<Rightarrow> effect list \<Rightarrow> effect \<Rightarrow> bool" where
  "justified E dl sel h (EWrite p x) =
     (\<exists>h' chk. h = h' @ EEnter # chk \<and> checked dl sel (te_selected E \<noteq> None) chk)"
| "justified E dl sel h (EComplete i v coll) =
     (coll \<in> set sel \<and> (\<exists>h' k r chk. h = h' @ ESave k r True # EEnter # chk \<and> intends E i v coll k r
        \<and> checked dl sel (te_selected E \<noteq> None) chk))"
| "justified E dl sel h _ = True"

definition disciplined :: "'w tenv \<Rightarrow> rat \<Rightarrow> string list \<Rightarrow> effect list \<Rightarrow> bool" where
  "disciplined E dl sel l \<longleftrightarrow> (\<forall>i < length l. justified E dl sel (take i l) (l ! i))"

lemma justified_later: "justified E dl sel h e \<Longrightarrow> justified E dl sel (g @ h) e"
  by (cases e) (auto, (metis append.assoc)+)

lemma disciplined_append:
  assumes "disciplined E dl sel a" "disciplined E dl sel b"
  shows "disciplined E dl sel (a @ b)"
  unfolding disciplined_def
proof (intro allI impI)
  fix i assume i: "i < length (a @ b)"
  show "justified E dl sel (take i (a @ b)) ((a @ b) ! i)"
  proof (cases "i < length a")
    case True
    then show ?thesis using assms(1) by (simp add: disciplined_def nth_append)
  next
    case False
    then have "justified E dl sel (take (i - length a) b) (b ! (i - length a))"
      using assms(2) i by (simp add: disciplined_def)
    with False show ?thesis by (simp add: nth_append justified_later)
  qed
qed

lemma disciplined_single: "justified E dl sel [] e \<Longrightarrow> disciplined E dl sel [e]"
  by (simp add: disciplined_def)

lemma disciplined_snoc: "disciplined E dl sel a \<Longrightarrow> justified E dl sel a e \<Longrightarrow> disciplined E dl sel (a @ [e])"
  by (auto simp: disciplined_def nth_append less_Suc_eq)

lemma disciplined_effects:
  "effect_log E False dl sel (disciplined E dl sel) \<lparr>cx_env = watched E, cx_dry = False, cx_deadline = dl, cx_selected = sel\<rparr>"
  by unfold_locales (auto intro: disciplined_append disciplined_single, simp add: disciplined_def)

abbreviation live :: "'w tenv \<Rightarrow> rat \<Rightarrow> string list \<Rightarrow> ('w \<times> effect list) ctx" where
  "live E dl sel \<equiv> \<lparr>cx_env = watched E, cx_dry = False, cx_deadline = dl, cx_selected = sel\<rparr>"

text \<open>What a check logs, and what is known when it lets the run go on.\<close>

definition passed :: "'w tenv \<Rightarrow> rat \<Rightarrow> string list \<Rightarrow> string option \<Rightarrow> effect list \<Rightarrow> bool" where
  "passed E dl sel coll l \<longleftrightarrow> checked dl sel (te_selected E \<noteq> None) l \<and> (\<forall>c. coll = Some c \<longrightarrow> c \<in> set sel)"

lemma emits_guard:
  "emits (\<lambda>x l. (x = Inr () \<longrightarrow> passed E dl sel coll l) \<and> disciplined E dl sel l) (guard (live E dl sel) coll)"
proof -
  have tick: "disciplined E dl sel [ETick t]" "disciplined E dl sel [ETick t, ESelected s]" for t s
    by (simp_all add: disciplined_def less_Suc_eq)
  show ?thesis
    unfolding emits_def
  proof
    fix r :: "('a \<times> effect list) run"
    obtain w l where r: "rn_world r = (w, l)" by fastforce
    obtain t w1 where t: "te_clock E w = (t, w1)" by fastforce
    show "\<exists>l'. log_of (snd (guard (live E dl sel) coll r)) = log_of r @ l' \<and>
        ((fst (guard (live E dl sel) coll r) = Inr () \<longrightarrow> passed E dl sel coll l') \<and> disciplined E dl sel l')"
    proof (cases "te_selected E")
      case None
      show ?thesis
        by (rule exI[of _ "[ETick t]"])
          (auto simp: guard_def watched_simps None io_bind_def out_val_def observe_val_def r t log_of_def tick passed_def checked_def
            io_unless_def split: option.splits)
    next
      case (Some ask)
      obtain x w2 where x: "ask w1 = (x, w2)" by fastforce
      show ?thesis
      proof (cases "dl \<le> t")
        case True
        then show ?thesis
          by (intro exI[of _ "[ETick t]"])
            (simp add: guard_def watched_simps io_bind_def out_val_def observe_val_def r t log_of_def tick)
      next
        case False
        show ?thesis
          by (rule exI[of _ "ETick t # on_success (\<lambda>s. [ESelected s]) x"])
            (use False in \<open>auto simp: guard_def watched_simps Some io_bind_def out_val_def out_def observe_val_def observe_def r t x
              log_of_def tick passed_def checked_def io_unless_def on_success_def split: option.splits sum.splits\<close>)
      qed
    qed
  qed
qed

text \<open>A write that returned was acknowledged, and is the end of the log.\<close>

lemma emits_write_record:
  "emits (\<lambda>x l. (x = Inr () \<longrightarrow> (\<exists>l'. l = l' @ [ESave k v True])) \<and> disciplined E dl sel l)
     (write_record (store_for (live E dl sel) p) k v)"
proof -
  have save: "emits (\<lambda>x l. (x = Inr () \<longrightarrow> l = [ESave k v True]) \<and> disciplined E dl sel l)
      (io_bind (out (kv_save (watched E) k v)) (\<lambda>ok. io_unless ok ''StateError''))"
    unfolding watched_simps
    by (rule emits_bind[where R = "\<lambda>x l. l = [ESave k v (x = Inr True)]" and S = "\<lambda>ok x l. l = [] \<and> (x = Inr () \<longrightarrow> ok)"])
      (auto intro: emits_out emits_unless disciplined_single)
  have "emits (\<lambda>x l. (x = Inr () \<longrightarrow> (\<exists>l'. l = l' @ [ESave k v True])) \<and> disciplined E dl sel l)
      (io_bind (guard (live E dl sel) None) (\<lambda>_. io_bind (out (kv_save (watched E) k v)) (\<lambda>ok. io_unless ok ''StateError'')))"
    by (rule emits_bind[OF emits_guard save]) (auto intro: disciplined_append)
  then show ?thesis
    unfolding write_record_def
    by (intro emits_bind[where R = "\<lambda>x l. l = []"] emits_of) (auto simp: disciplined_def)
qed

lemma emits_save_task:
  "emits (\<lambda>x l. (x = Inr () \<longrightarrow> (\<exists>l' d. l = l' @ [ESave (task_key (store_for (live E dl sel) p) i) (JObj d) True]
        \<and> jget d ''journal'' = tr_journal v \<and> jget d ''generation'' = tr_generation v))
      \<and> disciplined E dl sel l) (save_task (store_for (live E dl sel) p) i v)"
proof -
  let ?T = "\<lambda>x l. (x = Inr () \<longrightarrow> (\<exists>l' d. l = l' @ [ESave (task_key (store_for (live E dl sel) p) i) (JObj d) True]
        \<and> jget d ''journal'' = tr_journal v \<and> jget d ''generation'' = tr_generation v)) \<and> disciplined E dl sel l"
  note base = disciplined_effects[of E dl sel]
  have quiet: "emits ?T (io_bind m f)" if "always (extends (disciplined E dl sel)) m" "\<And>a. emits ?T (f a)"
    for m :: "(('a \<times> effect list) run, 'c) io" and f
    by (rule emits_bind[where R = "\<lambda>_. disciplined E dl sel" and S = "\<lambda>_. ?T"])
      (use that emits_always disciplined_append in \<open>auto, blast\<close>)
  show ?thesis
    unfolding save_task_def
    by (intro quiet effect_log.write_list[OF base] effect_log.active[OF base] effect_log.rules[OF base]
          emits_mono[OF emits_write_record])
      (auto simp: jget_def)
qed

text \<open>A lease with a mutation in it: not entered, left because a check failed, or left after both.\<close>

definition lease_log :: "'w tenv \<Rightarrow> rat \<Rightarrow> string list \<Rightarrow> string \<Rightarrow> effect \<Rightarrow> effect list \<Rightarrow> bool" where
  "lease_log E dl sel coll a l \<longleftrightarrow>
     l = [] \<or> (\<exists>g. l = EEnter # g @ [ELeave] \<and> disciplined E dl sel g)
     \<or> (\<exists>g. l = EEnter # g @ [a, ELeave] \<and> passed E dl sel (Some coll) g \<and> disciplined E dl sel g)"

lemma emits_leased: "emits (\<lambda>x. lease_log E dl sel coll a) (leased (live E dl sel) coll (observe (\<lambda>_. [a]) m))"
proof -
  let ?R = "\<lambda>x l. disciplined E dl sel l \<or> (\<exists>g. l = g @ [a] \<and> passed E dl sel (Some coll) g \<and> disciplined E dl sel g)"
  let ?m = "io_bind (guard (live E dl sel) (Some coll)) (\<lambda>_. out (observe (\<lambda>_. [a]) m))"
  have inner: "emits ?R ?m"
    by (rule emits_bind[OF emits_guard emits_out[where R = "\<lambda>x l. l = [a]"]]) auto
  have left: "emits (\<lambda>x l. \<exists>l'. l = l' @ [ELeave] \<and> ?R x l')
      (\<lambda>r. case ?m r of (x, r') \<Rightarrow> (x, r'\<lparr>rn_world := te_leave (watched E) (rn_world r')\<rparr>))"
    unfolding emits_def
  proof
    fix r
    obtain x r' where m: "?m r = (x, r')" by fastforce
    then obtain l where l: "log_of r' = log_of r @ l" "?R x l"
      using inner unfolding emits_def by (metis fst_conv snd_conv)
    obtain w k where "rn_world r' = (w, k)" by fastforce
    with l m show "\<exists>l. log_of (snd (case ?m r of (x, r') \<Rightarrow> (x, r'\<lparr>rn_world := te_leave (watched E) (rn_world r')\<rparr>))) = log_of r @ l
      \<and> (\<exists>l'. l = l' @ [ELeave] \<and> ?R (fst (case ?m r of (x, r') \<Rightarrow> (x, r'\<lparr>rn_world := te_leave (watched E) (rn_world r')\<rparr>))) l')"
      by (auto simp: log_of_def watched_simps)
  qed
  have env: "cx_env (live E dl sel) = watched E" by simp
  have entered: "emits (\<lambda>x l. l = on_success (\<lambda>_. [EEnter]) x) (out (te_enter (watched E)))"
    unfolding watched_simps by (rule emits_out) simp
  show ?thesis
    unfolding leased_def io_within_def env lease_log_def
    by (rule emits_bind[OF entered left]) (auto simp: on_success_def)
qed

lemma disciplined_lease:
  assumes l: "lease_log E dl sel coll a l" and h: "disciplined E dl sel h"
    and a: "\<And>g. passed E dl sel (Some coll) g \<Longrightarrow> justified E dl sel (h @ EEnter # g) a"
  shows "disciplined E dl sel (h @ l)"
proof -
  have enter: "disciplined E dl sel (h @ EEnter # g)" if "disciplined E dl sel g" for g
    using disciplined_append[OF h disciplined_append[OF disciplined_single[of E dl sel EEnter] that]] by simp
  have leave: "disciplined E dl sel (x @ [ELeave])" if "disciplined E dl sel x" for x
    using that by (rule disciplined_snoc) simp
  show ?thesis
    using l h leave[OF enter] leave[OF disciplined_snoc[OF enter a]] by (auto simp: lease_log_def)
qed

lemma upload_disciplined:
  "always (extends (disciplined E dl sel)) (leased (live E dl sel) coll (vt_write (watched E) path text))"
  unfolding emits_always watched_simps
  by (rule emits_mono[OF emits_leased], drule disciplined_lease[where h = "[]"]) (auto simp: disciplined_def passed_def)

text \<open>A completion: its intent is saved and acknowledged, then the lease.\<close>

lemma completion_disciplined:
  assumes save: "emits (\<lambda>x l. (x = Inr () \<longrightarrow> (\<exists>l' k r. l = l' @ [ESave k r True] \<and> intends E i v coll k r)) \<and> disciplined E dl sel l) m"
    and rest: "\<And>y. always (extends (disciplined E dl sel)) (f y)"
  shows "always (extends (disciplined E dl sel))
    (io_bind m (\<lambda>_. io_bind (leased (live E dl sel) coll (pv_complete (watched E) i v coll)) f))"
proof -
  let ?T = "\<lambda>x l. \<exists>l1 l2. l = l1 @ l2 \<and> disciplined E dl sel l2 \<and> lease_log E dl sel coll (EComplete i v coll) l1"
  have nil: "disciplined E dl sel []" by (simp add: disciplined_def)
  have "emits (\<lambda>_. disciplined E dl sel) (f y)" for y using rest emits_always by blast
  then have lease: "emits ?T (io_bind (leased (live E dl sel) coll (pv_complete (watched E) i v coll)) f)"
    unfolding watched_simps by (rule emits_bind[OF emits_leased]) (use nil in blast)+
  show ?thesis
    unfolding emits_always
  proof (rule emits_bind[OF save lease])
    fix l l' and u :: unit and x :: "string + 'c"
    assume l: "(Inr u = Inr () \<longrightarrow> (\<exists>l' k r. l = l' @ [ESave k r True] \<and> intends E i v coll k r)) \<and> disciplined E dl sel l"
      and "\<exists>l1 l2. l' = l1 @ l2 \<and> disciplined E dl sel l2 \<and> lease_log E dl sel coll (EComplete i v coll) l1"
    then obtain l0 k r l1 l2 where l0: "l = l0 @ [ESave k r True]" and intent: "intends E i v coll k r"
      and l': "l' = l1 @ l2" and l2: "disciplined E dl sel l2" and l1: "lease_log E dl sel coll (EComplete i v coll) l1"
      using old.unit.exhaust by metis
    have "justified E dl sel (l @ EEnter # g) (EComplete i v coll)" if "passed E dl sel (Some coll) g" for g
      using that intent by (auto simp: passed_def l0)
    then have "disciplined E dl sel (l @ l1)" using disciplined_lease l1 l by blast
    then show "disciplined E dl sel (l @ l')" using l2 by (simp add: l' disciplined_append flip: append_assoc)
  qed simp
qed

lemma completing_disciplined:
  "always (extends (disciplined E dl sel)) (complete_source (live E dl sel) (store_for (live E dl sel) p) t old tu seen versions)"
  (is "always _ (complete_source ?C ?S _ _ _ _ _)")
proof -
  note base = disciplined_effects[of E dl sel]
  note pre = effect_log.pre[OF base]
  note rules = effect_log.rules[OF base]
  have env: "cx_env ?C = watched E" "cx_dry ?C = False" by simp_all
  have key: "\<exists>q. task_key ?S i = q @ '':task:'' @ digest E (JStr i)" for i
    by (simp add: task_key_def watched_simps)
  have intent: "emits (\<lambda>x l. (x = Inr () \<longrightarrow> (\<exists>l' k r. l = l' @ [ESave k r True]
          \<and> intends E (t_id fresh) (t_revision fresh) (t_collection fresh) k r)) \<and> disciplined E dl sel l)
      (save_task ?S (t_id t) \<lparr>tr_baseline = b, tr_generation = g, tr_seen = s, tr_baselines = bs,
        tr_journal = JObj [(''generation'', g), (''revision'', hash ?C (JStr (t_revision fresh))),
          (''collection'', hash ?C (JStr (t_collection fresh)))]\<rparr>)" if "same_source fresh t" for fresh b g s bs
  proof (rule emits_mono[OF emits_save_task], elim conjE, intro conjI impI)
    fix x l
    assume "x = Inr () \<longrightarrow> (\<exists>l' d. l = l' @ [ESave (task_key ?S (t_id t)) (JObj d) True]
        \<and> jget d ''journal'' = tr_journal \<lparr>tr_baseline = b, tr_generation = g, tr_seen = s, tr_baselines = bs,
        tr_journal = JObj [(''generation'', g), (''revision'', hash ?C (JStr (t_revision fresh))),
          (''collection'', hash ?C (JStr (t_collection fresh)))]\<rparr>
        \<and> jget d ''generation'' = tr_generation \<lparr>tr_baseline = b, tr_generation = g, tr_seen = s, tr_baselines = bs,
        tr_journal = JObj [(''generation'', g), (''revision'', hash ?C (JStr (t_revision fresh))),
          (''collection'', hash ?C (JStr (t_collection fresh)))]\<rparr>)" "x = Inr ()"
    then obtain l' d where l: "l = l' @ [ESave (task_key ?S (t_id t)) (JObj d) True]"
      "jget d ''journal'' = JObj [(''generation'', g), (''revision'', hash ?C (JStr (t_revision fresh))),
          (''collection'', hash ?C (JStr (t_collection fresh)))]" "jget d ''generation'' = g" by auto
    have "intends E (t_id fresh) (t_revision fresh) (t_collection fresh) (task_key ?S (t_id t)) (JObj d)"
      using that key[of "t_id t"] unfolding intends_def same_source_def l json.case by (simp add: hash_def watched_simps l)
    with l(1) show "\<exists>l' k r. l = l' @ [ESave k r True] \<and> intends E (t_id fresh) (t_revision fresh) (t_collection fresh) k r"
      by blast
  qed
  show ?thesis
    unfolding complete_source_def the_task_def env if_False
    by (intro always_when[OF pre] completion_disciplined intent rules effect_log.guard[OF base] effect_log.get_task[OF base] effect_log.counting[OF base])
qed

lemma live_run_log: "run_log E False dl sel (disciplined E dl sel) (live E dl sel)"
  by (intro run_log.intro upload_log.intro disciplined_effects upload_log_axioms.intro run_log_axioms.intro upload_disciplined completing_disciplined)

interpretation live_log: run_log E False dl sel "disciplined E dl sel" "live E dl sel" for E dl sel
  by (rule live_run_log)

section \<open>Properties of a run\<close>

text \<open>C16. Previews. A run of the engine with dry_run, whatever the provider, the vault, the store, the
  clock and the callbacks answer, attempts no completion of a source, no upload and no write of a
  checkpoint record.\<close>

theorem preview_changes_nothing:
  "list_all (\<lambda>e. \<not> mutates e) (log_of (run_sync (watched E) ids True deadline_s epoch (w, [])))"
proof (cases "ids = []")
  case True
  then show ?thesis by (simp add: run_sync_def empty_run_def log_of_def)
next
  case False
  obtain t w1 where "te_clock E w = (t, w1)" by fastforce
  from run_log_run[where Q = "\<lambda>_. harmless", OF dry_run_log False this] show ?thesis
    by (simp add: harmless_def)
qed

lemma disciplined_set: "disciplined E dl (remdups sel) = disciplined E dl sel"
proof -
  have "justified E dl (remdups sel) h e = justified E dl sel h e" for h e
    by (cases e) (simp_all add: checked_def)
  then show ?thesis by (auto simp: disciplined_def fun_eq_iff)
qed

text \<open>C15. Guarded mutations. In a run that is not a preview, every attempted upload comes directly after the
  entry of a lease in which the clock was read before the deadline of the run (at most ten minutes after
  its start) and the caller, when it can be asked, still names the selection of the run; every attempted
  completion of a source is in such a lease, for a selected collection, and directly before the lease an
  acknowledged write of the record of that very task named its revision and collection in the journal.\<close>

theorem mutations_are_guarded:
  "disciplined E (fst (te_clock E w) + min (max deadline_s 0) 600) ids
     (log_of (run_sync (watched E) ids False deadline_s epoch (w, [])))"
proof (cases "ids = []")
  case True
  then show ?thesis by (simp add: run_sync_def empty_run_def log_of_def disciplined_def)
next
  case False
  obtain t w1 where t: "te_clock E w = (t, w1)" by fastforce
  from run_log_run[where Q = "\<lambda>dl. disciplined E dl (remdups ids)", OF live_run_log False t]
  show ?thesis by (simp add: t disciplined_set)
qed

end
