(* ===== verification/Sync_Demo.thy ===== *)
theory Sync_Demo
  imports Sync_Log
begin

text \<open>A concrete surrounding for the witnesses of task-sync: one open task, a provider that does not answer a
  completion, a vault without versions, a clock that stands still, and digests of one letter.\<close>

definition demo_task :: task where
  "demo_task = \<lparr>t_id = ''t1'', t_collection = ''c1'', t_title = ''Milk'', t_notes = [], t_completed = False, t_due = None,
     t_completed_at = None, t_recurring = False, t_revision = ''r1''\<rparr>"

definition demo_env :: "unit tenv" where
  "demo_env = \<lparr>pv_name = ''todo'', pv_namespace = Some ''me'', pv_collections = io_return [\<lparr>c_id = ''c1'', c_name = ''List'', c_writable = True\<rparr>],
     pv_tasks = (\<lambda>_. io_return [demo_task]), pv_get_task = (\<lambda>_. io_return (Some demo_task)),
     pv_complete = (\<lambda>_ _ _. io_raise ''Timeout''), vt_namespace = io_return ''vault'', vt_set_deadline = (\<lambda>_ w. w),
     vt_versions = (\<lambda>_. io_return []), vt_read = (\<lambda>_. io_raise ''KeyError''), vt_write = (\<lambda>_ _. io_return ''v2''),
     kv_load = (\<lambda>_. io_return JNull), kv_save = (\<lambda>_ _. io_return True), te_clock = (\<lambda>w. (0, w)), te_selected = Some (io_return [''c1'']),
     te_uuid = (\<lambda>w. (''u1'', w)), te_enter = io_return (), te_leave = (\<lambda>w. w), te_sha = (\<lambda>_. ''h''),
     te_sha_text = (\<lambda>s. s), yaml_aliases = (\<lambda>_. Inr False), yaml_node = (\<lambda>_. Inr (YMap [])), yaml_dump = (\<lambda>_. [])\<rparr>"

lemma demo_simps:
  "pv_name demo_env = ''todo''" "pv_get_task demo_env i = io_return (Some demo_task)"
  "pv_complete demo_env i v c = io_raise ''Timeout''" "vt_versions demo_env path = io_return []"
  "kv_load demo_env k = io_return JNull" "kv_save demo_env k j = io_return True" "te_clock demo_env w = (0, w)"
  "te_selected demo_env = Some (io_return [''c1''])" "te_enter demo_env = io_return ()" "te_leave demo_env w = w"
  "digest demo_env j = ''h''" "te_sha_text demo_env x = x"
  by (simp_all add: demo_env_def digest_def digest_with_def)

lemma demo_task_simps:
  "t_id demo_task = ''t1''" "t_collection demo_task = ''c1''" "t_completed demo_task = False" "t_recurring demo_task = False"
  "t_revision demo_task = ''r1''" "valid_task demo_task" "same_source demo_task demo_task"
  by (simp_all add: demo_task_def same_source_def) code_simp

lemma watched_rest: "pv_get_task (watched E) i = observe (\<lambda>_. []) (pv_get_task E i)" "vt_versions (watched E) p = observe (\<lambda>_. []) (vt_versions E p)"
  "kv_load (watched E) k = observe (\<lambda>_. []) (kv_load E k)" "pv_name (watched E) = pv_name E" "te_sha_text (watched E) = te_sha_text E"
  by (simp_all add: watched_def)

end
