(* ===== verification/Sync_Authority.thy ===== *)
theory Sync_Authority
  imports Sync_Props Sync_Demo
begin

text \<open>
  What lets task-sync complete a source: a resolved document of the generation the store records, made
  from a source state the store itself published, or a completion the store had begun; and never a source
  that was reopened, moved or rescheduled since.
\<close>

section \<open>Logs in which every completion has a property\<close>

definition only :: "(string \<Rightarrow> string \<Rightarrow> string \<Rightarrow> bool) \<Rightarrow> effect list \<Rightarrow> bool" where
  "only P l \<longleftrightarrow> (\<forall>i v c. EComplete i v c \<in> set l \<longrightarrow> P i v c)"

abbreviation nocomplete :: "effect list \<Rightarrow> bool" where
  "nocomplete \<equiv> only (\<lambda>_ _ _. False)"

lemma only_simps [simp]:
  "only P []" "only P (a @ b) \<longleftrightarrow> only P a \<and> only P b"
  by (auto simp: only_def)

lemma only_effects: "upload_log E False dl sel (only P) (live E dl sel)"
proof -
  have base: "effect_log E False dl sel (only P) (live E dl sel)"
    by unfold_locales (auto simp: only_def)
  have "always (extends (only P)) (leased (live E dl sel) coll (vt_write (watched E) path body))" for coll path body
    by (rule effect_log.leasing[OF base]; (unfold watched_simps)?, (rule out_observe)?)
      (auto simp: only_def on_success_def split: sum.split)
  then show ?thesis by (intro upload_log.intro base upload_log_axioms.intro)
qed

lemmas only_log = upload_log.axioms(1)[OF only_effects]

text \<open>A completion is of the task as it was read.\<close>

lemma completes_this_task:
  "always (extends (only (\<lambda>i v c. i = t_id t \<and> v = t_revision t \<and> c = t_collection t)))
     (complete_source (live E dl sel) (store_for (live E dl sel) p) t old tu seen versions)"
  (is "always (extends ?Q) (complete_source ?C _ _ _ _ _ _)")
proof -
  note base = only_log[where P = "\<lambda>i v c. i = t_id t \<and> v = t_revision t \<and> c = t_collection t" and E = E and dl = dl and sel = sel]
  have env: "cx_env ?C = watched E" "cx_dry ?C = False" by simp_all
  have leased: "always (extends ?Q) (leased ?C (t_collection fresh) (pv_complete (watched E) (t_id fresh) (t_revision fresh) (t_collection fresh)))"
    if "same_source fresh t" for fresh
    by (rule effect_log.leasing[OF base]; (unfold watched_simps)?, (rule out_observe)?)
      (use that in \<open>auto simp: only_def on_success_def same_source_def split: sum.split\<close>)
  show ?thesis
    unfolding complete_source_def the_task_def env if_False
    by (intro always_when[OF effect_log.pre[OF base]] leased effect_log.rules[OF base] effect_log.guard[OF base]
        effect_log.get_task[OF base] effect_log.counting[OF base] effect_log.save_task[OF base])
qed

section \<open>What is known on the way to a completion\<close>

lemma emits_bind_of:
  assumes "\<And>a. x = Inr a \<Longrightarrow> emits T (f a)" "\<And>e. x = Inl e \<Longrightarrow> T (Inl e) []"
  shows "emits T (io_bind (io_of x) f)"
  using assms by (cases x) (simp_all add: emits_def io_bind_def)

lemma emits_fresh:
  "emits (\<lambda>x l. \<exists>g. x = Inr g \<and> (if b then \<exists>u. l = [EUuid u] \<and> g = JStr u else l = [] \<and> g = own))
     (if b then fresh_generation (live E dl sel) else io_return own)"
proof (cases b)
  case True
  have "emits (\<lambda>x l. \<exists>u. x = Inr (JStr u) \<and> l = [EUuid u]) (fresh_generation (live E dl sel))"
    unfolding fresh_generation_def
    by (simp add: watched_simps)
      (rule emits_bind[where R = "\<lambda>x l. \<exists>u. x = Inr u \<and> l = [EUuid u]" and S = "\<lambda>a x l. x = Inr (JStr a) \<and> l = []"],
        auto intro: emits_out_val emits_return)
  then show ?thesis using True by (auto elim: emits_mono)
qed (simp add: emits_return)

text \<open>The trust of a run is the stored one, or belongs to a generation drawn in this run.\<close>

definition drawn :: "effect list \<Rightarrow> json \<Rightarrow> bool" where
  "drawn l g \<longleftrightarrow> (\<exists>u. EUuid u \<in> set l \<and> g = JStr u)"

fun trust_from :: "'w tenv \<Rightarrow> task \<Rightarrow> previous option \<Rightarrow> json \<Rightarrow> trust \<Rightarrow> effect list \<Rightarrow> bool" where
  "trust_from E t None old tu l \<longleftrightarrow> tu_journal tu = JNull \<and> tu_trusted tu = []"
| "trust_from E t (Some q) old tu l \<longleftrightarrow>
     old = jget (pr_dict q) ''baseline''
     \<and> (tu_journal tu = JNull \<or> tu_journal tu = jget (pr_dict q) ''journal'')
     \<and> (tu_trusted tu = [] \<or> tu_trusted tu = pr_baselines q \<and> tu_generation tu = jget (pr_dict q) ''generation'')
     \<and> (tu_generation tu = jget (pr_dict q) ''generation''
         \<and> journal_stale (live E 0 []) t (jget (pr_dict q) ''journal'') = Inr False \<and> source_rotated (live E 0 []) t old = Inr False
       \<or> drawn l (tu_generation tu))"

lemma hash_live: "hash (live E dl sel) v = JStr (digest E v)"
  by (simp add: hash_def watched_simps)

lemma stale_env: "journal_stale (live E dl sel) t j = journal_stale (live E 0 []) t j" "source_rotated (live E dl sel) t old = source_rotated (live E 0 []) t old"
  unfolding journal_stale_def source_rotated_def hash_live by (rule refl)+

lemma item_Inr: "item d k = Inr v \<Longrightarrow> jget d k = v"
  by (simp add: item_def jget_def split: option.splits)

lemma emits_first_trust:
  "emits (\<lambda>x l. nocomplete l \<and> (\<forall>old tu. x = Inr (old, tu) \<longrightarrow> trust_from E t prev old tu l)) (first_trust (live E dl sel) t prev)"
proof (cases prev)
  case None
  show ?thesis
    unfolding first_trust_def None option.case
    by (rule emits_then[OF emits_fresh[where b = True, simplified]]) (auto simp: only_def intro: emits_return)
next
  case (Some q)
  show ?thesis
    unfolding first_trust_def Some option.case Let_def stale_env[of E dl sel]
    by (intro emits_bind_of emits_then[OF emits_fresh] emits_return) (auto simp: only_def drawn_def dest!: item_Inr split: if_splits, metis)
qed

text \<open>The documents a run trusts were read in it and have the identity of the task.\<close>

lemma emits_map:
  assumes f: "\<And>x. emits (\<lambda>y l. nocomplete l \<and> (\<forall>b. y = Inr b \<longrightarrow> D b l)) (f x)"
    and later: "\<And>b a l c. D b l \<Longrightarrow> D b (a @ l @ c)"
  shows "emits (\<lambda>y l. nocomplete l \<and> (\<forall>bs. y = Inr bs \<longrightarrow> (\<forall>b \<in> set bs. D b l))) (io_map f xs)"
proof (induction xs)
  case (Cons x xs)
  have "D b (l @ c)" "D b (a @ l)" if "D b l" for a b c l
    using later[OF that, of "[]" c] later[OF that, of a "[]"] by simp_all
  then show ?case
    unfolding io_map.simps
    by (intro emits_then[OF f] emits_then[OF Cons.IH] emits_return) auto
qed (auto simp: emits_def)

lemma parse_watched: "parse_document (watched E) = parse_document E" "pv_name (watched E) = pv_name E"
proof -
  have yaml: "yaml_aliases (watched E) = yaml_aliases E" "yaml_node (watched E) = yaml_node E" "pv_name (watched E) = pv_name E"
    by (simp_all add: watched_def)
  show "parse_document (watched E) = parse_document E" "pv_name (watched E) = pv_name E"
    by (intro ext, unfold parse_document_def yaml) (rule refl)+
qed

text \<open>A version that was read in this run, with its document.\<close>

definition read_here :: "'w tenv \<Rightarrow> task \<Rightarrow> effect list \<Rightarrow> string \<times> string \<times> document \<Rightarrow> bool" where
  "read_here E t l b \<longleftrightarrow> (case b of (v, body, doc) \<Rightarrow>
     EVersion v body \<in> set l \<and> parse_document E body (pv_name E) (t_id t) = Inr doc)"

lemma emits_read_documents:
  "emits (\<lambda>x l. nocomplete l \<and> (\<forall>docs. x = Inr docs \<longrightarrow> (\<forall>b \<in> set docs. read_here E t l b)))
     (read_documents (live E dl sel) t seen versions)"
proof -
  have env: "cx_env (live E dl sel) = watched E" by simp
  note guard = effect_log.guard[OF only_log[where P = "\<lambda>_ _ _. False"], unfolded emits_always]
  have one: "emits (\<lambda>y l. nocomplete l \<and> (\<forall>b. y = Inr b \<longrightarrow> read_here E t l b))
      (io_bind (guard (live E dl sel) (Some (t_collection t))) (\<lambda>_. io_bind (out (observe (on_success (\<lambda>x. [EVersion v x])) (vt_read E v)))
        (\<lambda>body. io_bind (io_of (parse_document E body (pv_name E) (t_id t))) (\<lambda>doc. io_return (v, body, doc)))))" for v
    by (rule emits_then[OF guard], rule emits_then[OF emits_out[where R = "\<lambda>x l. l = on_success (\<lambda>b. [EVersion v b]) x"]])
      (auto intro!: emits_bind_of emits_return simp: on_success_def only_def read_here_def)
  show ?thesis
    unfolding read_documents_def env parse_watched watched_simps
    by (rule emits_map[OF one]) (auto simp: read_here_def)
qed

lemma trust_later: "trust_from E t prev old tu l \<Longrightarrow> set l \<subseteq> set l' \<Longrightarrow> trust_from E t prev old tu l'"
  by (cases prev) (auto simp: drawn_def)

lemma read_later: "read_here E t l b \<Longrightarrow> set l \<subseteq> set l' \<Longrightarrow> read_here E t l' b"
  by (auto simp: read_here_def)

lemma emits_superseded:
  fixes E :: "'w tenv"
  assumes "trust_from E t prev old tu l0"
  shows "emits (\<lambda>x l. nocomplete l \<and> (\<forall>tu'. x = Inr tu' \<longrightarrow> trust_from E t prev old tu' (l0 @ l))) (superseded (live E dl sel) prev docs tu)"
proof -
  let ?T = "\<lambda>x l. nocomplete l \<and> (\<forall>tu'. x = Inr tu' \<longrightarrow> trust_from E t prev old tu' (l0 @ l))"
  have keep: "emits ?T (io_return tu :: (('w \<times> effect list) run, trust) io)"
    using assms by (simp add: emits_def)
  have new: "emits ?T (io_bind (fresh_generation (live E dl sel)) (\<lambda>g. io_return \<lparr>tu_generation = g, tu_journal = JNull, tu_trusted = []\<rparr>))"
    if "prev = Some q" for q
    by (rule emits_then[OF emits_fresh[where b = True, simplified]])
      (use assms that in \<open>auto intro!: emits_return simp: only_def drawn_def\<close>)
  show ?thesis
  proof (cases "prev = None \<or> docs = []")
    case True
    with keep show ?thesis by (auto simp: superseded_def split: option.splits list.splits)
  next
    case False
    then obtain q b bs where p: "prev = Some q" "docs = b # bs" by (cases docs) auto
    obtain v body doc where b: "b = (v, body, doc)" by (cases b)
    show ?thesis
      unfolding superseded_def p b prod.case option.case list.case
      by (rule emits_bind_of) (use keep[unfolded p] new[OF p(1), unfolded p] in \<open>simp_all split: if_split del: trust_from.simps\<close>)
  qed
qed

section \<open>Authority\<close>

text \<open>A version, read in this run and not seen before, that asks to resolve the task under the generation
  of the record \<open>q\<close>, from a source state that the record lists as published.\<close>

definition resolved_by :: "'w tenv \<Rightarrow> task \<Rightarrow> previous \<Rightarrow> effect list \<Rightarrow> bool" where
  "resolved_by E t q l \<longleftrightarrow> (\<exists>v body doc. read_here E t l (v, body, doc) \<and> v \<notin> set (pr_seen q)
     \<and> jget (dc_metadata doc) ''generation'' = jget (pr_dict q) ''generation''
     \<and> jget (dc_metadata doc) ''status'' = JStr ''resolved'' \<and> jget (dc_metadata doc) ''source_completed'' = JBool False
     \<and> digest E (doc_fingerprint (dc_metadata doc)) \<in> set (pr_baselines q))"

text \<open>A completion of the present revision that the record had begun.\<close>

definition begun :: "'w tenv \<Rightarrow> task \<Rightarrow> previous \<Rightarrow> bool" where
  "begun E t q \<longleftrightarrow> truthy (jget (pr_dict q) ''journal'')
     \<and> sub (jget (pr_dict q) ''journal'') ''generation'' = Inr (jget (pr_dict q) ''generation'')
     \<and> sub (jget (pr_dict q) ''journal'') ''revision'' = Inr (JStr (digest E (JStr (t_revision t))))"

text \<open>The source was not reopened or moved since the record was written: the state the record keeps of it
  (where it keeps one) says it was open, and in the collection it is in now.\<close>

definition unmoved :: "'w tenv \<Rightarrow> task \<Rightarrow> previous \<Rightarrow> bool" where
  "unmoved E t q \<longleftrightarrow> \<not> truthy (jget (pr_dict q) ''baseline'')
     \<or> (\<exists>d was. jget (pr_dict q) ''baseline'' = JObj d \<and> map_of d ''completed'' = Some was \<and> \<not> truthy was
          \<and> map_of d ''collection'' = Some (JStr (digest E (JStr (t_collection t)))))"

lemma kept_place:
  assumes "source_rotated (live E 0 []) t (jget (pr_dict q) ''baseline'') = Inr False" "\<not> t_completed t"
  shows "unmoved E t q"
proof (cases "jget (pr_dict q) ''baseline''")
  case (JObj d)
  with assms show ?thesis
    by (auto simp: unmoved_def source_rotated_def sub_def item_def hash_live res_bind_def split: if_splits option.splits sum.splits)
qed (use assms in \<open>auto simp: unmoved_def source_rotated_def sub_def res_bind_def split: if_splits\<close>)

definition unlike :: "previous \<Rightarrow> effect list \<Rightarrow> bool" where
  "unlike q l \<longleftrightarrow> (\<forall>u. EUuid u \<in> set l \<longrightarrow> JStr u \<noteq> jget (pr_dict q) ''generation''
     \<and> sub (jget (pr_dict q) ''journal'') ''generation'' \<noteq> Inr (JStr u))"

lemma any_asks_True: "any_asks f seen docs = Inr True \<Longrightarrow> \<exists>v body doc. (v, body, doc) \<in> set docs \<and> v \<notin> set seen \<and> f doc = Inr True"
proof (induction f seen docs rule: any_asks.induct)
  case (2 f seen v b doc docs)
  then show ?case by (cases "v \<in> set seen") (auto simp: res_bind_def split: sum.splits, blast+)
qed simp

lemma asks_True:
  assumes "asks (live E dl sel) t prev old tu doc = Inr True"
  shows "prev \<noteq> None" "jget (dc_metadata doc) ''generation'' = tu_generation tu" "digest E (doc_fingerprint (dc_metadata doc)) \<in> set (tu_trusted tu)"
    "jget (dc_metadata doc) ''status'' = JStr ''resolved''" "jget (dc_metadata doc) ''source_completed'' = JBool False"
  using assms by (auto simp: asks_def Let_def res_bind_def watched_simps split: if_splits sum.splits)

lemma stale_False: "journal_stale (live E 0 []) t j = Inr False \<Longrightarrow> truthy j \<Longrightarrow> \<not> t_completed t \<Longrightarrow> sub j ''revision'' = Inr (JStr (digest E (JStr (t_revision t))))"
  by (auto simp: journal_stale_def res_bind_def hash_live split: sum.splits)

lemma authority:
  assumes trust: "trust_from E t prev old tu l" and docs: "\<And>b. b \<in> set docs \<Longrightarrow> read_here E t l b"
    and asked: "any_asks (asks (live E dl sel) t prev old tu) (case prev of None \<Rightarrow> [] | Some p \<Rightarrow> pr_seen p) docs = Inr asked"
    and pending: "journal_asks tu = Inr pending" and some: "asked \<or> pending" and "open": "\<not> t_completed t"
  shows "\<exists>q. prev = Some q \<and> (unlike q l \<longrightarrow> unmoved E t q \<and> (resolved_by E t q l \<or> begun E t q))"
proof (cases prev)
  case None
  with trust have "tu_journal tu = JNull" by simp
  then have "\<not> pending" using pending by (simp add: journal_asks_def)
  then have "asked" using some by simp
  then show ?thesis using any_asks_True asked asks_True(1) None by metis
next
  case (Some q)
  let ?own = "jget (pr_dict q) ''generation''"
  have "unmoved E t q \<and> (resolved_by E t q l \<or> begun E t q)" if fresh: "unlike q l"
  proof (cases asked)
    case True
    then have "any_asks (asks (live E dl sel) t prev old tu) (pr_seen q) docs = Inr True" using asked Some by simp
    then obtain v body doc where d: "(v, body, doc) \<in> set docs" "v \<notin> set (pr_seen q)"
      "asks (live E dl sel) t prev old tu doc = Inr True"
      by (drule_tac any_asks_True) blast
    note a = asks_True[OF d(3)]
    from a(3) have "tu_trusted tu \<noteq> []" by (cases "tu_trusted tu") simp_all
    with trust Some have own: "tu_trusted tu = pr_baselines q" "tu_generation tu = ?own" by simp_all
    have "\<not> drawn l (tu_generation tu)" using fresh by (simp add: own unlike_def drawn_def) metis
    with trust Some have "source_rotated (live E 0 []) t (jget (pr_dict q) ''baseline'') = Inr False" by auto
    then have "unmoved E t q" by (rule kept_place [OF _ "open"])
    moreover have "resolved_by E t q l"
      unfolding resolved_by_def using docs[OF d(1)] d(2) a(2-5) by (metis own)
    ultimately show ?thesis by simp
  next
    case False
    with some pending have j: "truthy (tu_journal tu)" "sub (tu_journal tu) ''generation'' = Inr (tu_generation tu)"
      by (auto simp: journal_asks_def res_bind_def split: if_splits sum.splits)
    then have journal: "tu_journal tu = jget (pr_dict q) ''journal''" using trust Some by auto
    with j fresh have "\<not> drawn l (tu_generation tu)" by (auto simp: unlike_def drawn_def)
    with trust Some have own: "tu_generation tu = ?own" and stale: "journal_stale (live E 0 []) t (tu_journal tu) = Inr False"
      and "source_rotated (live E 0 []) t (jget (pr_dict q) ''baseline'') = Inr False"
      by (auto simp: journal)
    moreover from this(3) have "unmoved E t q" by (rule kept_place [OF _ "open"])
    moreover have "begun E t q"
      using j stale_False[OF stale j(1) "open"] by (simp add: begun_def own journal)
    ultimately show ?thesis by simp
  qed
  with Some show ?thesis by simp
qed

text \<open>Every completion in the log is of this task, and authorised if no identity that was drawn is an old one.\<close>

definition legitimate :: "'w tenv \<Rightarrow> task \<Rightarrow> previous option \<Rightarrow> effect list \<Rightarrow> bool" where
  "legitimate E t prev l \<longleftrightarrow> (\<forall>i v c. EComplete i v c \<in> set l \<longrightarrow>
     i = t_id t \<and> v = t_revision t \<and> c = t_collection t \<and> \<not> t_completed t \<and> \<not> t_recurring t
     \<and> (\<exists>q. prev = Some q \<and> (unlike q l \<longrightarrow> unmoved E t q \<and> (resolved_by E t q l \<or> begun E t q))))"

lemma legitimate_quiet: "nocomplete l \<Longrightarrow> legitimate E t prev l"
  by (simp add: legitimate_def only_def)

lemma resolved_later: "resolved_by E t q l \<Longrightarrow> set l \<subseteq> set l' \<Longrightarrow> resolved_by E t q l'"
  unfolding resolved_by_def using read_later by blast

lemma unlike_earlier: "unlike q l' \<Longrightarrow> set l \<subseteq> set l' \<Longrightarrow> unlike q l"
  unfolding unlike_def by blast

lemma legitimate_completion:
  assumes auth: "\<exists>q. prev = Some q \<and> (unlike q l \<longrightarrow> unmoved E t q \<and> (resolved_by E t q l \<or> begun E t q))"
    and this_task: "only (\<lambda>i v c. i = t_id t \<and> v = t_revision t \<and> c = t_collection t) l'"
    and "nocomplete l" "\<not> t_completed t" "\<not> t_recurring t"
  shows "legitimate E t prev (l @ l')"
proof -
  from auth obtain q where q: "prev = Some q" "unlike q l \<longrightarrow> unmoved E t q \<and> (resolved_by E t q l \<or> begun E t q)" by blast
  then have "unlike q (l @ l') \<longrightarrow> unmoved E t q \<and> (resolved_by E t q (l @ l') \<or> begun E t q)"
    using unlike_earlier[of q "l @ l'" l] resolved_later[of E t q l "l @ l'"] by auto
  with assms(2-) q(1) show ?thesis by (auto simp: legitimate_def only_def)
qed

lemma emits_sync_task:
  fixes E :: "'w tenv"
  shows "emits (\<lambda>_. legitimate E t prev) (sync_task (live E dl sel) (store_for (live E dl sel) p) t prev)"
proof -
  let ?C = "live E dl sel" and ?S = "store_for (live E dl sel) p" and ?seen = "case prev of None \<Rightarrow> [] | Some p \<Rightarrow> pr_seen p"
  note quiet = only_log[where P = "\<lambda>_ _ _. False", of E dl sel]
  have publish: "emits (\<lambda>_ l'. legitimate E t prev (l @ l')) (publish ?C ?S path t' k g tr s vs latest)"
    if "nocomplete l" for l path t' k g tr s vs latest
    by (rule emits_mono[OF upload_log.publish[OF only_effects[where P = "\<lambda>_ _ _. False"], unfolded emits_always]])
      (use that in \<open>simp add: legitimate_quiet\<close>)
  have versions: "emits (\<lambda>_. nocomplete) (version_list ?C path)" for path
    using effect_log.version_list[OF quiet] by (simp add: emits_always)
  have counting: "emits (\<lambda>_ l. nocomplete l) (count f :: (('w \<times> effect list) run, unit) io)" for f
    using effect_log.counting[OF quiet] by (simp add: emits_always)
  have complete: "emits (\<lambda>_ l'. legitimate E t prev (l @ l')) (io_bind (complete_source ?C ?S t old tu ?seen vs)
      (\<lambda>outcome. case outcome of None \<Rightarrow> io_return () | Some t' \<Rightarrow> publish ?C ?S path t' k g tr s vs' latest))"
    if "nocomplete l" "\<exists>q. prev = Some q \<and> (unlike q l \<longrightarrow> unmoved E t q \<and> (resolved_by E t q l \<or> begun E t q))" "\<not> t_completed t" "\<not> t_recurring t"
    for l old tu vs path k g tr s vs' latest
  proof (rule emits_then[OF completes_this_task[unfolded emits_always]])
    let ?P = "\<lambda>i v c. i = t_id t \<and> v = t_revision t \<and> c = t_collection t"
    note outer = that
    have legit: "legitimate E t prev (l @ l1 @ l2)" if l12: "only ?P l1" "nocomplete l2" for l1 l2
    proof -
      have "only ?P (l1 @ l2)" using l12 by (simp add: only_def)
      from legitimate_completion[OF outer(2) this outer(1,3,4)] show ?thesis .
    qed
    have quiet: "nocomplete []" by simp
    fix l1 and e :: string
    assume l1: "only ?P l1"
    then show "legitimate E t prev (l @ l1)" using legit[OF l1 quiet] by simp
    fix outcome
    show "emits (\<lambda>x l'. legitimate E t prev (l @ (l1 @ l'))) (case outcome of None \<Rightarrow> io_return () | Some t' \<Rightarrow> publish ?C ?S path t' k g tr s vs' latest)"
    proof (cases outcome)
      case None
      then show ?thesis using legit[OF l1 quiet] by (auto simp: emits_def)
    next
      case (Some t')
      show ?thesis
        unfolding Some option.case
        by (rule emits_mono[OF upload_log.publish[OF only_effects[where P = "\<lambda>_ _ _. False"], unfolded emits_always]])
          (rule legit[OF l1])
    qed
  qed
  have rest: "emits (\<lambda>x l'. legitimate E t prev (l @ l'))
     (io_bind (io_of (any_asks (asks ?C t prev old tu) ?seen docs)) (\<lambda>asked.
      io_bind (io_of (journal_asks tu)) (\<lambda>pending.
      if \<not> (asked \<or> pending) \<or> t_completed t then publish ?C ?S path t k (tu_generation tu) (tu_trusted tu) ?seen vs latest
      else if t_recurring t then
        io_bind (count f) (\<lambda>_. if sort_keys old = sort_keys (baseline ?C t) then io_return ()
          else publish ?C ?S path t k (tu_generation tu) (tu_trusted tu) ?seen vs latest)
      else io_bind (complete_source ?C ?S t old tu ?seen vs) (\<lambda>outcome.
        case outcome of None \<Rightarrow> io_return () | Some t' \<Rightarrow> publish ?C ?S path t' k (tu_generation tu) (tu_trusted tu) ?seen vs latest))))"
    (is "emits ?T _")
    if l: "nocomplete l" and trust: "trust_from E t prev old tu l" and docs: "\<And>b. b \<in> set docs \<Longrightarrow> read_here E t l b"
    for l old tu docs path k vs latest f
  proof (intro emits_bind_of)
    show "?T (Inl e) []" for e using l by (simp add: legitimate_quiet)
    then show "?T (Inl e) []" for e .
    fix asked pending
    assume asked: "any_asks (asks ?C t prev old tu) ?seen docs = Inr asked" and pending: "journal_asks tu = Inr pending"
    have blocked: "emits ?T (io_bind (count f) (\<lambda>_. if b then io_return () else publish ?C ?S path t k (tu_generation tu) (tu_trusted tu) ?seen vs latest))" for b
    proof (rule emits_then[OF counting])
      fix u l1 assume l1: "nocomplete l1"
      then have "legitimate E t prev (l @ l1)" using l by (simp add: legitimate_quiet)
      moreover have "emits (\<lambda>x l'. legitimate E t prev ((l @ l1) @ l')) (publish ?C ?S path t k (tu_generation tu) (tu_trusted tu) ?seen vs latest)"
        using l l1 by (intro publish) simp
      ultimately show "emits (\<lambda>x l'. ?T x (l1 @ l')) (if b then io_return () else publish ?C ?S path t k (tu_generation tu) (tu_trusted tu) ?seen vs latest)"
        by (auto simp: emits_def)
    qed (use l in \<open>simp add: legitimate_quiet\<close>)
    show "emits ?T (if \<not> (asked \<or> pending) \<or> t_completed t then publish ?C ?S path t k (tu_generation tu) (tu_trusted tu) ?seen vs latest
      else if t_recurring t then
        io_bind (count f) (\<lambda>_. if sort_keys old = sort_keys (baseline ?C t) then io_return ()
          else publish ?C ?S path t k (tu_generation tu) (tu_trusted tu) ?seen vs latest)
      else io_bind (complete_source ?C ?S t old tu ?seen vs) (\<lambda>outcome.
        case outcome of None \<Rightarrow> io_return () | Some t' \<Rightarrow> publish ?C ?S path t' k (tu_generation tu) (tu_trusted tu) ?seen vs latest))"
      using publish[OF l] blocked complete[OF l authority[OF trust docs asked pending]] by auto
  qed
  have later: "trust_from E t prev old tu (l1 @ l2 @ l3 @ l4)" "\<And>b. b \<in> set docs \<Longrightarrow> read_here E t (l1 @ l2 @ l3 @ l4) b"
    "nocomplete (l1 @ l2 @ l3 @ l4)"
    if "\<forall>tu'. Inr tu = (Inr tu' :: string + trust) \<longrightarrow> trust_from E t prev old tu' (l2 @ l4)"
      "\<forall>docs'. Inr docs = (Inr docs' :: string + (string \<times> string \<times> document) list) \<longrightarrow> (\<forall>b \<in> set docs'. read_here E t l3 b)" "nocomplete l1" "nocomplete l2" "nocomplete l3" "nocomplete l4"
    for l1 l2 l3 l4 old tu docs
    using that trust_later[of E t prev old tu "l2 @ l4" "l1 @ l2 @ l3 @ l4"] read_later[of E t l3 _ "l1 @ l2 @ l3 @ l4"] by auto
  show ?thesis
    unfolding sync_task_def Let_def
    apply (rule emits_bind_of)
     apply (rule emits_then[OF versions])
      apply (rule emits_then[OF emits_first_trust])
       apply (simp only: split_paired_all prod.case)
       apply (rule emits_then[OF emits_read_documents])
        apply (rule emits_then[OF emits_superseded])
          apply fast
         apply (rule rest[OF later(3,1,2), unfolded append_assoc])
                    apply (elim conjE, assumption)+
    by (intro legitimate_quiet; simp)+
qed

text \<open>C14. Authority. When the reconciliation of one task attempts to complete a source, it is this task, as it
  was read: open, not recurring, with its revision and its collection. There is a record of the task, whose
  kept state of the source, if it keeps one, is open and in the collection the task is in now (so the source
  was neither reopened nor moved since); and either the record holds a journal of its own generation
  and of the present revision, or a version that was read in this very pass and is not among those already
  seen says, under the generation of the record, that the task is resolved and was open at its source, and
  was made from a state of the source that the record lists as published. The identities drawn in the pass
  are assumed to differ from the two old ones.\<close>

theorem completion_is_authorised:
  assumes "log_of (snd (sync_task (live E dl sel) (store_for (live E dl sel) p) t prev r)) = log_of r @ l"
    and "EComplete i v c \<in> set l" and "\<forall>q. prev = Some q \<longrightarrow> unlike q l"
  shows "i = t_id t \<and> v = t_revision t \<and> c = t_collection t \<and> \<not> t_completed t \<and> \<not> t_recurring t
    \<and> (\<exists>q. prev = Some q \<and> unmoved E t q \<and> (resolved_by E t q l \<or> begun E t q))"
proof -
  obtain l' where "log_of (snd (sync_task (live E dl sel) (store_for (live E dl sel) p) t prev r)) = log_of r @ l'"
    "legitimate E t prev l'"
    using emits_sync_task[of E t prev dl sel p] unfolding emits_def by blast
  with assms have "legitimate E t prev l" by simp
  with assms(2,3) show ?thesis unfolding legitimate_def by blast
qed

text \<open>A task whose completion the record had begun, and whose second attempt is not answered either.\<close>

definition demo_previous :: previous where
  "demo_previous = \<lparr>pr_dict = [(''generation'', JStr ''g1''), (''baseline'', JObj [(''completed'', JBool False), (''collection'', JStr ''h'')]),
     (''journal'', JObj [(''generation'', JStr ''g1''), (''revision'', JStr ''h''), (''collection'', JStr ''h'')])], pr_seen = [], pr_baselines = []\<rparr>"

definition demo_start :: "(unit \<times> effect list) run" where
  "demo_start = (empty_run ((), []))\<lparr>rn_active := [(''epoch'', JStr ''e'')]\<rparr>"

definition demo_log :: "effect list" where
  "demo_log = log_of (snd (sync_task (live demo_env 600 [''c1'']) (store_for (live demo_env 600 [''c1'']) ''p'') demo_task (Some demo_previous) demo_start))"

lemma demo_task_path: "task_path (watched demo_env) ''todo'' ''t1'' = Inr ''vault/tasks/todo/t1.md''"
  by (simp add: task_path_def provider_name_ok_def is_digit_def watched_rest demo_simps)

lemma demo_record: "validate_record ''p:task:h'' (JObj [(''baseline'', JObj [(''completed'', JBool False), (''collection'', JStr ''h'')]),
    (''generation'', JStr ''g1''), (''seen'', JArr []), (''baselines'', JArr []), (''journal'', JObj [(''generation'', JStr ''g1''),
    (''revision'', JStr ''h''), (''collection'', JStr ''h'')]), (''schema'', JNum 2), (''epoch'', JStr ''e'')]) = Inr ()"
  by (simp add: validate_record_def utf8_len_def KEY_BYTES_def VALUE_BYTES_def text_len_def escaped_len_def int_str_def nat_str.simps)

lemma demo_log: "EComplete ''t1'' ''r1'' ''c1'' \<in> set demo_log \<and> (\<forall>u. EUuid u \<notin> set demo_log) \<and> log_of demo_start = []"
  by (simp add: demo_log_def sync_task_def demo_simps demo_task_simps watched_rest watched_simps demo_task_path demo_start_def empty_run_def log_of_def
    io_bind_def version_list_def bounded_def out_def observe_def first_trust_def item_def jget_def journal_stale_def sub_def hash_def
    source_rotated_def read_documents_def superseded_def journal_asks_def complete_source_def set_union_def guard_def out_val_def
    observe_val_def the_task_def on_success_def MAX_VERSIONS_def store_for_def sorted_set_def demo_previous_def task_key_def
    save_task_def strings_ok_def write_list_def get_active_def write_record_def leased_def io_within_def text_list_def io_unless_def demo_record
    cong: io_bind_weak)

theorem completion_is_authorised_witness:
  "unmoved demo_env demo_task demo_previous
    \<and> (resolved_by demo_env demo_task demo_previous demo_log \<or> begun demo_env demo_task demo_previous)"
  using completion_is_authorised[of demo_env 600 "[''c1'']" "''p''" demo_task "Some demo_previous" demo_start demo_log "''t1''" "''r1''" "''c1''"] demo_log
  by (simp add: demo_log_def[symmetric] unlike_def)

end
