(* ===== verification/Collect_Store.thy ===== *)
theory Collect_Store
  imports Py_IO Cursor_Props
begin

text \<open>
  packages/collect: the parts of the SQLite state of db.py that plugins write themselves, the key-value
  rows of a plugin and the claimed deduplication keys, each operation one transaction. A row's text is
  represented by the value that reading it gives.
\<close>

section \<open>Key-value rows\<close>

record store_db =
  kv_table :: "string \<times> string \<Rightarrow> json option"
  claimed :: "string list"

definition PLUGIN_KV_MAX_KEY_BYTES :: nat where "PLUGIN_KV_MAX_KEY_BYTES = 256"
definition PLUGIN_KV_MAX_VALUE_BYTES :: nat where "PLUGIN_KV_MAX_VALUE_BYTES = 64 * 1024"
definition PLUGIN_KV_MAX_DEPTH :: nat where "PLUGIN_KV_MAX_DEPTH = 32"

definition validate_kv_key :: "string \<Rightarrow> string + unit" where
  "validate_kv_key key =
     (let sz = utf8_len key in
      if sz = 0 then Inl ''ValueError'' else if PLUGIN_KV_MAX_KEY_BYTES < sz then Inl ''ValueError'' else Inr ())"

fun too_deep :: "nat \<Rightarrow> json \<Rightarrow> bool" where
  "too_deep n (JArr xs) = (PLUGIN_KV_MAX_DEPTH < n \<or> list_ex (too_deep (Suc n)) xs)"
| "too_deep n (JObj d) = (PLUGIN_KV_MAX_DEPTH < n \<or> list_ex (\<lambda>(k, v). too_deep (Suc n) v) d)"
| "too_deep n _ = (PLUGIN_KV_MAX_DEPTH < n)"

definition encode_kv_value :: "json \<Rightarrow> string + json" where
  "encode_kv_value v =
     (if too_deep 0 v then Inl ''ValueError''
      else if PLUGIN_KV_MAX_VALUE_BYTES < json_len v then Inl ''ValueError'' else Inr (sort_keys v))"

definition get_plugin_kv :: "store_db \<Rightarrow> string \<Rightarrow> string \<Rightarrow> json \<Rightarrow> string + json" where
  "get_plugin_kv db pid key dflt =
     res_bind (validate_kv_key key) (\<lambda>_. Inr (case kv_table db (pid, key) of None \<Rightarrow> dflt | Some v \<Rightarrow> v))"

definition put_row :: "string \<Rightarrow> string \<Rightarrow> json \<Rightarrow> store_db \<Rightarrow> store_db" where
  "put_row pid key row db = db\<lparr>kv_table := (kv_table db)((pid, key) \<mapsto> row)\<rparr>"

definition set_plugin_kv :: "string \<Rightarrow> string \<Rightarrow> json \<Rightarrow> (store_db, unit) io" where
  "set_plugin_kv pid key v db =
     (case res_bind (validate_kv_key key) (\<lambda>_. encode_kv_value v) of
        Inl e \<Rightarrow> (Inl e, db) | Inr row \<Rightarrow> (Inr (), put_row pid key row db))"

text \<open>One transaction: if the callback or the encoding raises, it is rolled back.\<close>

definition update_plugin_kv :: "string \<Rightarrow> string \<Rightarrow> (json \<Rightarrow> string + json) \<Rightarrow> json \<Rightarrow> (store_db, json) io" where
  "update_plugin_kv pid key update dflt db =
     (case res_bind (validate_kv_key key) (\<lambda>_.
        res_bind (update (case kv_table db (pid, key) of None \<Rightarrow> dflt | Some v \<Rightarrow> v)) (\<lambda>v.
        res_bind (encode_kv_value v) (\<lambda>row. Inr (v, row)))) of
        Inl e \<Rightarrow> (Inl e, db) | Inr (v, row) \<Rightarrow> (Inr v, put_row pid key row db))"

definition delete_plugin_kv :: "string \<Rightarrow> string \<Rightarrow> (store_db, bool) io" where
  "delete_plugin_kv pid key db =
     (case validate_kv_key key of
        Inl e \<Rightarrow> (Inl e, db)
      | Inr _ \<Rightarrow> (Inr (kv_table db (pid, key) \<noteq> None), db\<lparr>kv_table := (kv_table db)((pid, key) := None)\<rparr>))"

section \<open>Claims\<close>

definition claim_dedup_keys :: "string list \<Rightarrow> store_db \<Rightarrow> bool \<times> store_db" where
  "claim_dedup_keys keys db =
     (let ks = remdups keys; fresh = filter (\<lambda>k. k \<notin> set (claimed db)) ks in
      (length fresh = length ks, db\<lparr>claimed := claimed db @ fresh\<rparr>))"

definition unclaim_dedup_keys :: "string list \<Rightarrow> store_db \<Rightarrow> store_db" where
  "unclaim_dedup_keys keys db = db\<lparr>claimed := filter (\<lambda>k. k \<notin> set keys) (claimed db)\<rparr>"

text \<open>The worker's claim: without a database the write is skipped.\<close>

definition worker_claim :: "bool \<Rightarrow> string list \<Rightarrow> store_db \<Rightarrow> bool \<times> store_db" where
  "worker_claim reachable keys db = (if reachable then claim_dedup_keys keys db else (False, db))"

definition worker_unclaim :: "bool \<Rightarrow> string list \<Rightarrow> store_db \<Rightarrow> store_db" where
  "worker_unclaim reachable keys db = (if reachable then unclaim_dedup_keys keys db else db)"

section \<open>What the rows promise\<close>

lemma claim_granted [simp]: "fst (claim_dedup_keys ks db) \<longleftrightarrow> set ks \<inter> set (claimed db) = {}"
proof -
  have "length (filter (\<lambda>k. k \<notin> set (claimed db)) (remdups ks)) = length (remdups ks) \<longleftrightarrow> (\<forall>k \<in> set (remdups ks). k \<notin> set (claimed db))"
    by (metis (no_types, lifting) filter_True length_filter_less less_irrefl)
  then show ?thesis by (auto simp: claim_dedup_keys_def Let_def)
qed

lemma claimed_after_claim [simp]: "set (claimed (snd (claim_dedup_keys keys db))) = set (claimed db) \<union> set keys"
  by (auto simp: claim_dedup_keys_def Let_def)

lemma claimed_after_unclaim [simp]: "set (claimed (unclaim_dedup_keys keys db)) = set (claimed db) - set keys"
  by (auto simp: unclaim_dedup_keys_def)

text \<open>A key-value store as a client sees it: what it holds, \<^const>\<open>JNull\<close> where there is nothing.\<close>

locale kv_contract =
  fixes load :: "string \<Rightarrow> ('w, json) io" and save :: "string \<Rightarrow> json \<Rightarrow> ('w, bool) io" and held :: "'w \<Rightarrow> string \<Rightarrow> json"
  assumes load_pure: "load k w = (x, w') \<Longrightarrow> held w' = held w"
    and load_value: "load k w = (Inr v, w') \<Longrightarrow> v = held w k"
    and load_total: "0 < utf8_len k \<Longrightarrow> utf8_len k \<le> 256 \<Longrightarrow> \<exists>w'. load k w = (Inr (held w k), w')"
    and save_cases: "save k v w = (y, w') \<Longrightarrow> held w' = held w \<or> held w' = (held w)(k := sort_keys v)"
    and saved: "save k v w = (Inr True, w') \<Longrightarrow> held w' = (held w)(k := sort_keys v)"

text \<open>The rows of one plugin, as the run context hands them to its code, next to whatever else there is.\<close>

definition ctx_kv_get :: "string \<Rightarrow> string \<Rightarrow> ('o \<times> store_db, json) io" where
  "ctx_kv_get pid key w = (get_plugin_kv (snd w) pid key JNull, w)"

definition ctx_kv_set :: "string \<Rightarrow> string \<Rightarrow> json \<Rightarrow> ('o \<times> store_db, bool) io" where
  "ctx_kv_set pid key v w = (case set_plugin_kv pid key v (snd w) of (x, db) \<Rightarrow> (map_sum id (\<lambda>_. True) x, (fst w, db)))"

definition kv_held :: "string \<Rightarrow> 'o \<times> store_db \<Rightarrow> string \<Rightarrow> json" where
  "kv_held pid w k = (case kv_table (snd w) (pid, k) of None \<Rightarrow> JNull | Some v \<Rightarrow> v)"

interpretation plugin_rows: kv_contract "ctx_kv_get pid" "ctx_kv_set pid" "kv_held pid" for pid
  by unfold_locales
    (auto simp: ctx_kv_get_def ctx_kv_set_def get_plugin_kv_def set_plugin_kv_def encode_kv_value_def put_row_def kv_held_def fun_eq_iff
       res_bind_def validate_kv_key_def Let_def PLUGIN_KV_MAX_KEY_BYTES_def split: sum.splits prod.splits if_splits)

section \<open>Claims, in whatever order processes make them\<close>

text \<open>A claim is one transaction, so what several processes do is some sequence of these.\<close>

datatype claim_action = Claim "string list" | Release "string list"

fun claim_step :: "claim_action \<Rightarrow> store_db \<Rightarrow> bool \<times> store_db" where
  "claim_step (Claim ks) db = claim_dedup_keys ks db"
| "claim_step (Release ks) db = (True, unclaim_dedup_keys ks db)"

fun claim_answers :: "claim_action list \<Rightarrow> store_db \<Rightarrow> bool list" where
  "claim_answers [] db = []"
| "claim_answers (a # as) db = (case claim_step a db of (b, db') \<Rightarrow> b # claim_answers as db')"

definition db_after :: "claim_action list \<Rightarrow> store_db \<Rightarrow> store_db" where
  "db_after as db = fold (\<lambda>a db. snd (claim_step a db)) as db"

lemma length_claim_answers [simp]: "length (claim_answers as db) = length as"
  by (induction as arbitrary: db) (auto split: prod.splits)

lemma claim_answers_append: "claim_answers (as @ bs) db = claim_answers as db @ claim_answers bs (db_after as db)"
  by (induction as arbitrary: db) (auto simp: db_after_def split: prod.splits)

lemma claim_answer_nth: "i < length as \<Longrightarrow> claim_answers as db ! i = fst (claim_step (as ! i) (db_after (take i as) db))"
proof (induction as arbitrary: db i)
  case (Cons a as)
  then show ?case by (cases i) (auto simp: db_after_def split: prod.splits)
qed simp

lemma stays_claimed:
  assumes "k \<in> set (claimed db)" "\<forall>a \<in> set as. \<forall>rs. a = Release rs \<longrightarrow> k \<notin> set rs"
  shows "k \<in> set (claimed (db_after as db))"
  using assms
proof (induction as arbitrary: db)
  case (Cons a as)
  then have "k \<in> set (claimed (snd (claim_step a db)))" by (cases a) auto
  with Cons show ?case by (simp add: db_after_def)
qed (simp add: db_after_def)

text \<open>A claim records its keys whether it is granted or not, so a later claim of one of them is granted only
  after a release.\<close>

lemma granted_after_release:
  assumes "i < j" "j < length as" "as ! i = Claim ks" "as ! j = Claim ks'" "k \<in> set ks" "k \<in> set ks'"
    and "claim_answers as db ! j"
  shows "\<exists>m rs. i < m \<and> m < j \<and> as ! m = Release rs \<and> k \<in> set rs"
proof (rule ccontr)
  assume none: "\<not> ?thesis"
  let ?mid = "take (j - Suc i) (drop (Suc i) as)" and ?db = "db_after (take (Suc i) as) db"
  have "take (Suc i) as = take i as @ [as ! i]" using assms(1,2) by (simp add: take_Suc_conv_app_nth)
  then have "k \<in> set (claimed ?db)" using assms(3,5) by (simp add: db_after_def)
  moreover have "\<forall>a \<in> set ?mid. \<forall>rs. a = Release rs \<longrightarrow> k \<notin> set rs"
  proof (intro ballI allI impI)
    fix a rs assume "a \<in> set ?mid" "a = Release rs"
    then obtain n where n: "n < length ?mid" "?mid ! n = Release rs" by (auto simp: in_set_conv_nth)
    then have "as ! (Suc i + n) = Release rs" "i < Suc i + n" "Suc i + n < j" using assms(1,2) by auto
    with none show "k \<notin> set rs" by blast
  qed
  ultimately have "k \<in> set (claimed (db_after ?mid ?db))" by (rule stays_claimed)
  moreover have "take j as = take (Suc i) as @ ?mid"
    using assms(1,2) by (metis Suc_leI le_add_diff_inverse take_add)
  ultimately have "k \<in> set (claimed (db_after (take j as) db))" by (simp add: db_after_def)
  moreover have "set ks' \<inter> set (claimed (db_after (take j as) db)) = {}"
    using assms(7) claim_answer_nth[OF assms(2), of db] assms(4) by simp
  ultimately show False using assms(6) by auto
qed

text \<open>C29. At most one winner. In any sequence of claims and releases, whatever was claimed before it, two
  claims that are both granted and that share a key have a release of that key between them; so of the
  runs that race for one event, at most one writes it until a failed write gives it back.\<close>

theorem claims_are_exclusive:
  assumes "i < j" "j < length as" "as ! i = Claim ks" "as ! j = Claim ks'" "k \<in> set ks" "k \<in> set ks'"
    and "claim_answers as db ! i" "claim_answers as db ! j"
  shows "\<exists>m rs. i < m \<and> m < j \<and> as ! m = Release rs \<and> k \<in> set rs"
  by (rule granted_after_release [OF assms(1-6,8)])

theorem claims_are_exclusive_witness:
  "\<exists>m rs. 0 < m \<and> m < 2 \<and> [Claim [''a''], Release [''a''], Claim [''a'', ''b'']] ! m = Release rs \<and> ''a'' \<in> set rs"
  by (rule claims_are_exclusive[of 0 2 "[Claim [''a''], Release [''a''], Claim [''a'', ''b'']]" "[''a'']" "[''a'', ''b'']" "''a''"
      "\<lparr>kv_table = \<lambda>_. None, claimed = []\<rparr>"])
    (simp_all add: claim_dedup_keys_def unclaim_dedup_keys_def)

text \<open>C38. A refused source has lost its event. A claim that is refused still records the keys it brought that
  nobody had. Whoever releases gives back only keys it was granted - as the importer does - so nobody can
  give those back: once a claim with a key of a source's own, which no granted claim has ever had, is
  refused, every later claim with that key is refused, for ever. So when two sources report one event under a
  shared key, the first is granted, the second refused, and the write of the first fails and gives its keys
  back, then the second source can retry as often as it likes and never write the event; only the first
  can, if it comes back first.\<close>

theorem refused_twin_loses_the_event:
  assumes "i < j" "j < length as" "as ! i = Claim ks" "\<not> claim_answers as db ! i" "b \<in> set ks" "as ! j = Claim ks'" "b \<in> set ks'"
    and never: "\<And>g gs. g < i \<Longrightarrow> as ! g = Claim gs \<Longrightarrow> b \<in> set gs \<Longrightarrow> \<not> claim_answers as db ! g"
    and own: "\<And>m rs. m < length as \<Longrightarrow> as ! m = Release rs \<Longrightarrow> b \<in> set rs
      \<Longrightarrow> \<exists>g gs. g < m \<and> as ! g = Claim gs \<and> b \<in> set gs \<and> claim_answers as db ! g"
  shows "\<not> claim_answers as db ! j"
  using assms(1,2,6,7)
proof (induction j arbitrary: ks' rule: less_induct)
  case (less j)
  show ?case
  proof
    assume "claim_answers as db ! j"
    with granted_after_release [OF less.prems(1,2) assms(3) less.prems(3) assms(5) less.prems(4)]
    obtain m rs where m: "i < m" "m < j" "as ! m = Release rs" "b \<in> set rs" by blast
    with less.prems(2) own [of m rs] obtain g gs where
      g: "g < m" "as ! g = Claim gs" "b \<in> set gs" "claim_answers as db ! g" by auto
    consider "g < i" | "g = i" | "i < g" by linarith
    then show False
    proof cases
      case 1
      with never g show False by blast
    next
      case 2
      with g(4) assms(4) show False by simp
    next
      case 3
      with less.IH [OF _ 3 _ g(2,3)] g(1,4) m(2) less.prems(2) show False by simp
    qed
  qed
qed

text \<open>Two services report one play. The first is granted and gives its keys back; the second retries in vain,
  and its retry, which records the shared key again, takes the event from the first one too.\<close>

lemma refused_twin_takes_the_shared_key:
  assumes "set as \<inter> set (claimed db) = {}" "f \<in> set as" "f \<in> set bs" "b \<in> set bs" "b \<notin> set as"
  shows "claim_answers [Claim as, Claim bs, Release as, Claim bs, Claim as] db = [True, False, True, False, False]"
proof -
  have cons: "claim_answers (a # rest) db = fst (claim_step a db) # claim_answers rest (snd (claim_step a db))" for a rest db
    by (cases "claim_step a db") simp
  show ?thesis
    unfolding cons claim_step.simps claim_granted fst_conv snd_conv claimed_after_claim claimed_after_unclaim claim_answers.simps(1)
    using assms by blast
qed

definition demo_twins :: "claim_action list" where
  "demo_twins = [Claim [''lastfm:1'', ''song''], Claim [''spotify:9'', ''song''], Release [''lastfm:1'', ''song''],
     Claim [''lastfm:1'', ''song''], Claim [''spotify:9'', ''song'']]"

definition no_claims :: store_db where
  "no_claims = \<lparr>kv_table = \<lambda>_. None, claimed = []\<rparr>"

lemma demo_twin_answers: "claim_answers demo_twins no_claims = [True, False, True, True, False]"
  by (simp add: demo_twins_def no_claims_def claim_dedup_keys_def unclaim_dedup_keys_def)

lemma demo_twin_release:
  assumes "m < length demo_twins" "demo_twins ! m = Release rs" "''spotify:9'' \<in> set rs"
  shows False
proof -
  from assms(1) have "m = 0 \<or> m = 1 \<or> m = 2 \<or> m = 3 \<or> m = 4" by (auto simp: demo_twins_def)
  with assms(2,3) show False by (auto simp: demo_twins_def)
qed

theorem refused_twin_loses_the_event_witness: "\<not> claim_answers demo_twins no_claims ! 4"
proof (rule refused_twin_loses_the_event [of 1 4 _ "[''spotify:9'', ''song'']" _ "''spotify:9''" "[''spotify:9'', ''song'']"])
  show "\<not> claim_answers demo_twins no_claims ! 1" unfolding demo_twin_answers by simp
  show "\<not> claim_answers demo_twins no_claims ! g" if "g < 1" "demo_twins ! g = Claim gs" "''spotify:9'' \<in> set gs" for g gs
  proof -
    from that have "''spotify:9'' \<in> set [''lastfm:1'', ''song'']" by (auto simp: demo_twins_def)
    then show ?thesis by simp
  qed
  show "\<exists>g gs. g < m \<and> demo_twins ! g = Claim gs \<and> ''spotify:9'' \<in> set gs \<and> claim_answers demo_twins no_claims ! g"
    if "m < length demo_twins" "demo_twins ! m = Release rs" "''spotify:9'' \<in> set rs" for m rs
    using demo_twin_release [OF that] by blast
qed (simp_all add: demo_twins_def)

end
