(* ===== verification/Sync_Checkpoint.thy ===== *)
theory Sync_Checkpoint
  imports Sync_Demo Collect_Store "HOL-Library.Multiset"
begin

text \<open>
  The checkpoint of task-sync over a key-value store: what the store says about a task, as a function of
  what it holds, and how saving a task changes that. Lists are kept in immutable chunks named by their
  digest, which are written before the record that points at them.
\<close>

section \<open>Cutting lists\<close>

lemma concat_chunks_of: "concat (chunks_of chunk used vs) = chunk @ vs"
  by (induction chunk used vs rule: chunks_of.induct) (auto simp: Let_def)

lemma chunks_of_nonempty: "c \<in> set (chunks_of chunk used vs) \<Longrightarrow> c \<noteq> []"
  by (induction chunk used vs rule: chunks_of.induct) (auto simp: Let_def split: if_splits)

lemma length_chunks_of: "length (chunks_of chunk used vs) \<le> length vs + (if chunk = [] then 0 else 1)"
  by (induction chunk used vs rule: chunks_of.induct) (auto simp: Let_def split: if_splits)

lemma distinct_of_concat: "distinct (concat cs) \<Longrightarrow> (\<And>c. c \<in> set cs \<Longrightarrow> c \<noteq> []) \<Longrightarrow> distinct cs"
proof (induction cs)
  case (Cons c cs)
  have "c \<notin> set cs"
  proof
    assume "c \<in> set cs"
    then have "set c \<subseteq> set (concat cs)" by auto
    moreover obtain x where "x \<in> set c" using Cons.prems(2)[of c] by (cases c) auto
    ultimately show False using Cons.prems(1) by auto
  qed
  with Cons show ?case by simp
qed simp

lemma distinct_chunks: "distinct vs \<Longrightarrow> distinct (chunks_of [] n vs)"
  by (rule distinct_of_concat) (simp_all add: concat_chunks_of chunks_of_nonempty)

lemma json_len_sort_keys [simp]: "json_len (sort_keys j) = json_len j"
proof (induction j)
  case (JArr xs)
  then have "map (\<lambda>x. json_len (sort_keys x)) xs = map json_len xs" by simp
  then show ?case by (simp add: comp_def del: map_eq_conv)
next
  case (JObj d)
  let ?f = "\<lambda>(k, v). text_len k + 1 + json_len v"
  have perm: "sum_list (map ?f (sort_key fst ys)) = sum_list (map ?f ys)" for ys :: "(string \<times> json) list"
  proof -
    have "mset (map ?f (sort_key fst ys)) = mset (map ?f ys)" by (simp only: mset_map mset_sort)
    then show ?thesis by (simp only: sum_mset_sum_list[symmetric])
  qed
  have "map ?f (map (\<lambda>(k, v). (k, sort_keys v)) d) = map ?f d"
    using JObj by (auto simp: fsts.simps snds.simps)
  then show ?case by (simp only: sort_keys.simps json_len.simps perm length_sort length_map)
qed simp_all

lemma sort_keys_text_list [simp]: "sort_keys (text_list vs) = text_list vs"
  by (simp add: text_list_def)

lemma text_list_eq [simp]: "text_list a = text_list b \<longleftrightarrow> a = b"
  by (simp add: text_list_def) (metis json.inject(3) list.inj_map_strong)

lemma read_text_list [simp]: "as_list as_str (text_list vs) = Some vs"
  by (simp add: text_list_def as_list_def)

section \<open>What a store says\<close>

text \<open>The readings of state.py as functions of the values that are held.\<close>

definition record_view :: "(string \<Rightarrow> json) \<Rightarrow> string \<Rightarrow> string + json" where
  "record_view h k = (if h k = JNull then Inr JNull else res_bind (validate_record k (h k)) (\<lambda>_. Inr (h k)))"

definition chunk_view :: "'w store \<Rightarrow> (string \<Rightarrow> json) \<Rightarrow> string \<Rightarrow> string + json list" where
  "chunk_view S h r = res_bind (record_view h (chunk_key S r)) (\<lambda>c.
     case c of JArr xs \<Rightarrow> if digest (st_env S) c = r then Inr xs else Inl ''StateError'' | _ \<Rightarrow> Inl ''StateError'')"

fun res_map :: "('a \<Rightarrow> string + 'b) \<Rightarrow> 'a list \<Rightarrow> string + 'b list" where
  "res_map f [] = Inr []"
| "res_map f (x # xs) = res_bind (f x) (\<lambda>y. res_bind (res_map f xs) (\<lambda>ys. Inr (y # ys)))"

definition list_view :: "'w store \<Rightarrow> (string \<Rightarrow> json) \<Rightarrow> json \<Rightarrow> nat \<Rightarrow> nat \<Rightarrow> string + string list" where
  "list_view S h refs n m = res_bind (bounded_strings refs 600 64) (\<lambda>rs.
     res_bind (res_map (chunk_view S h) rs) (\<lambda>chunks. bounded_strings (JArr (concat chunks)) n m))"

definition task_view :: "'w store \<Rightarrow> (string \<Rightarrow> json) \<Rightarrow> json \<Rightarrow> string \<Rightarrow> string + previous option" where
  "task_view S h epoch i = res_bind (record_view h (task_key S i)) (\<lambda>v.
     case v of JNull \<Rightarrow> Inr None
     | JObj d \<Rightarrow>
         if \<not> is_num (jget d ''schema'') 2 then Inl ''StateError''
         else if jget d ''epoch'' \<noteq> epoch then Inr None
         else res_bind (item d ''seen'') (\<lambda>rs. res_bind (list_view S h rs MAX_HISTORY MAX_VERSION_BYTES) (\<lambda>seen.
              res_bind (item d ''baselines'') (\<lambda>rb. res_bind (list_view S h rb MAX_HISTORY 64) (\<lambda>bs.
              Inr (Some \<lparr>pr_dict = d, pr_seen = seen, pr_baselines = bs\<rparr>)))))
     | _ \<Rightarrow> Inl ''StateError'')"

text \<open>What a task is stored as.\<close>

definition stored_as :: "trecord \<Rightarrow> previous \<Rightarrow> bool" where
  "stored_as v p \<longleftrightarrow> pr_seen p = tr_seen v \<and> pr_baselines p = tr_baselines v
     \<and> jget (pr_dict p) ''baseline'' = sort_keys (tr_baseline v) \<and> jget (pr_dict p) ''generation'' = sort_keys (tr_generation v)
     \<and> jget (pr_dict p) ''journal'' = sort_keys (tr_journal v)"

text \<open>Adding chunks: no value that was there is changed.\<close>

definition grown :: "'w store \<Rightarrow> (string \<Rightarrow> json) \<Rightarrow> (string \<Rightarrow> json) \<Rightarrow> bool" where
  "grown S h h' \<longleftrightarrow> (\<forall>k. h' k = h k \<or> h k = JNull \<and> (\<exists>r. k = chunk_key S r))"

lemma grown_refl [simp]: "grown S h h"
  by (simp add: grown_def)

lemma grown_trans: "grown S h h1 \<Longrightarrow> grown S h1 h2 \<Longrightarrow> grown S h h2"
  unfolding grown_def by metis

lemma grown_kept: "grown S h h' \<Longrightarrow> h k \<noteq> JNull \<Longrightarrow> h' k = h k"
  unfolding grown_def by metis

lemma task_key_other [simp]: "task_key S i \<noteq> chunk_key S r" "chunk_key S r \<noteq> task_key S i"
  by (simp_all add: task_key_def chunk_key_def)

lemma grown_task: "grown S h h' \<Longrightarrow> h' (task_key S i) = h (task_key S i)"
  unfolding grown_def using task_key_other by metis

text \<open>What is readable stays readable.\<close>

lemma chunk_view_kept: "chunk_view S h r = Inr xs \<Longrightarrow> h' (chunk_key S r) = h (chunk_key S r) \<or> grown S h h' \<Longrightarrow> chunk_view S h' r = Inr xs"
  by (cases "h (chunk_key S r) = JNull") (auto simp: chunk_view_def record_view_def dest: grown_kept)

lemma res_map_kept: "(\<And>x y. x \<in> set xs \<Longrightarrow> f x = Inr y \<Longrightarrow> g x = Inr y) \<Longrightarrow> res_map f xs = Inr ys \<Longrightarrow> res_map g xs = Inr ys"
  by (induction xs arbitrary: ys) (auto simp: res_bind_Inr_iff)

lemma list_view_kept:
  assumes "list_view S h refs n m = Inr vs" "\<And>r. h' (chunk_key S r) = h (chunk_key S r) \<or> grown S h h'"
  shows "list_view S h' refs n m = Inr vs"
  using assms(1) res_map_kept[of _ "chunk_view S h" "chunk_view S h'"] chunk_view_kept[OF _ assms(2)]
  by (auto simp: list_view_def res_bind_Inr_iff)

lemma task_view_kept:
  assumes "task_view S h epoch i = Inr p" "h' (task_key S i) = h (task_key S i)" "\<And>r. h' (chunk_key S r) = h (chunk_key S r) \<or> grown S h h'"
  shows "task_view S h' epoch i = Inr p"
proof -
  have "record_view h' (task_key S i) = record_view h (task_key S i)" by (simp add: record_view_def assms(2))
  with assms(1) obtain v where v: "record_view h' (task_key S i) = Inr v" "record_view h (task_key S i) = Inr v"
    by (auto simp: task_view_def res_bind_Inr_iff)
  show ?thesis
    using assms(1) list_view_kept[OF _ assms(3)] unfolding task_view_def v res_bind_simps
    by (cases v) (auto simp: res_bind_Inr_iff split: if_splits)
qed

section \<open>Checkpoints over a store that keeps the contract\<close>

locale checkpoints = kv_contract +
  fixes S :: "'w store"
  assumes env: "kv_load (st_env S) = load" "kv_save (st_env S) = save"
    and writing: "\<not> st_dry S"
    and guard_pure: "st_guard S r = (g, r') \<Longrightarrow> held (rn_world r') = held (rn_world r) \<and> rn_active r' = rn_active r"
begin

abbreviation holds :: "'w run \<Rightarrow> string \<Rightarrow> json" where
  "holds r \<equiv> held (rn_world r)"

definition grew :: "'w run \<Rightarrow> 'w run \<Rightarrow> bool" where
  "grew r r' \<longleftrightarrow> grown S (holds r) (holds r') \<and> rn_active r' = rn_active r"

lemma grew_pre: "preorder_rel grew"
  unfolding preorder_rel_def grew_def using grown_trans by auto

lemma out_load: "out (kv_load (st_env S) k) r = (x, r') \<Longrightarrow> holds r' = holds r \<and> rn_active r' = rn_active r \<and> (\<forall>v. x = Inr v \<longrightarrow> v = holds r k)"
  using load_pure load_value by (auto simp: env out_def split: prod.splits)

lemma out_save: "out (kv_save (st_env S) k v) r = (y, r') \<Longrightarrow> rn_active r' = rn_active r
    \<and> (holds r' = holds r \<or> holds r' = (holds r)(k := sort_keys v)) \<and> (y = Inr True \<longrightarrow> holds r' = (holds r)(k := sort_keys v))"
  using save_cases[of k v "rn_world r" y "rn_world r'"] saved[of k v "rn_world r" "rn_world r'"]
  by (auto simp: env out_def split: prod.splits)

lemma read_record_view:
  assumes "read_record S k r = (x, r')"
  shows "holds r' = holds r" "rn_active r' = rn_active r" "\<And>v. x = Inr v \<Longrightarrow> record_view (holds r) k = Inr v"
proof -
  obtain y r1 where 1: "out (kv_load (st_env S) k) r = (y, r1)" by fastforce
  note l = out_load[OF 1]
  show "holds r' = holds r" "rn_active r' = rn_active r" "\<And>v. x = Inr v \<Longrightarrow> record_view (holds r) k = Inr v"
    using assms l 1 by (auto simp: read_record_def io_bind_def record_view_def res_bind_def split: sum.splits if_splits)
qed

lemma write_record_effect:
  assumes "write_record S k v r = (x, r')"
  shows "rn_active r' = rn_active r" "holds r' = holds r \<or> holds r' = (holds r)(k := sort_keys v) \<and> validate_record k v = Inr ()"
    "x = Inr () \<Longrightarrow> holds r' = (holds r)(k := sort_keys v) \<and> validate_record k v = Inr ()"
proof -
  obtain g r1 where g: "st_guard S r = (g, r1)" by fastforce
  obtain y r2 where y: "out (kv_save (st_env S) k v) r1 = (y, r2)" by fastforce
  note facts = guard_pure[OF g] out_save[OF y]
  show "rn_active r' = rn_active r" "holds r' = holds r \<or> holds r' = (holds r)(k := sort_keys v) \<and> validate_record k v = Inr ()"
    "x = Inr () \<Longrightarrow> holds r' = (holds r)(k := sort_keys v) \<and> validate_record k v = Inr ()"
    using assms facts g y writing
    by (auto simp: write_record_def io_bind_def io_unless_def split: sum.splits if_splits)
qed

text \<open>A chunk is written once and then only compared.\<close>

definition stored :: "(string \<Rightarrow> json) \<Rightarrow> string list \<Rightarrow> bool" where
  "stored h c \<longleftrightarrow> (let k = chunk_key S (digest (st_env S) (text_list c)) in h k = text_list c \<and> validate_record k (text_list c) = Inr ())"

lemma stored_grown: "stored h c \<Longrightarrow> grown S h h' \<Longrightarrow> stored h' c"
  using grown_kept[of S h h' "chunk_key S (digest (st_env S) (text_list c))"] by (simp add: stored_def Let_def text_list_def)

lemma put_chunk_effect:
  assumes "put_chunk S c r = (x, r')"
  shows "grew r r'" "\<And>ref. x = Inr ref \<Longrightarrow> ref = digest (st_env S) (text_list c) \<and> stored (holds r') c"
proof -
  let ?k = "chunk_key S (digest (st_env S) (text_list c))"
  obtain y r1 where 1: "read_record S ?k r = (y, r1)" by fastforce
  obtain z r2 where 2: "write_record S ?k (text_list c) r1 = (z, r2)" by fastforce
  note rd = read_record_view[OF 1] and wr = write_record_effect[OF 2]
  have jnull: "y = Inr JNull \<Longrightarrow> holds r ?k = JNull"
    using rd(3) by (auto simp: record_view_def res_bind_def split: if_splits sum.splits)
  have new: "grown S (holds r) ((holds r)(?k := text_list c))" if "holds r ?k = JNull"
    using that by (auto simp: grown_def)
  have same: "stored (holds r) c" if "y = Inr (text_list c)"
    using rd(3)[OF that] by (auto simp: stored_def Let_def record_view_def res_bind_def text_list_def split: if_splits sum.splits)
  show "grew r r'"
    using assms 1 2 rd(1,2) wr(1,2) jnull new
    by (auto simp: put_chunk_def Let_def io_bind_def io_unless_def grew_def split: sum.splits if_splits)
  show "\<And>ref. x = Inr ref \<Longrightarrow> ref = digest (st_env S) (text_list c) \<and> stored (holds r') c"
    using assms 1 2 rd(1,2) wr(3) same
    by (auto simp: put_chunk_def Let_def io_bind_def io_unless_def stored_def split: sum.splits if_splits)
qed

lemma put_chunks_effect:
  assumes "io_map (put_chunk S) cs r = (x, r')"
  shows "grew r r' \<and> (\<forall>refs. x = Inr refs \<longrightarrow> refs = map (\<lambda>c. digest (st_env S) (text_list c)) cs \<and> list_all (stored (holds r')) cs)"
  using assms
proof (induction cs arbitrary: r x r')
  case Nil
  then show ?case using grew_pre by (auto simp: preorder_rel_def)
next
  case (Cons c cs)
  obtain y r1 where 1: "put_chunk S c r = (y, r1)" by fastforce
  note c = put_chunk_effect[OF 1]
  show ?case
  proof (cases y)
    case (Inl e)
    then show ?thesis using Cons.prems 1 c by (auto simp: io_bind_def)
  next
    case (Inr ref)
    obtain z r2 where 2: "io_map (put_chunk S) cs r1 = (z, r2)" by fastforce
    note cs = Cons.IH[OF 2]
    have "grew r r2" using c(1) cs grew_pre unfolding preorder_rel_def by blast
    moreover have "stored (holds r2) c" using c(2)[OF Inr] cs stored_grown by (auto simp: grew_def)
    ultimately show ?thesis
      using Cons.prems 1 2 Inr cs c(2)[OF Inr] by (cases z) (auto simp: io_bind_def)
  qed
qed

lemma chunk_view_stored: "stored h c \<Longrightarrow> chunk_view S h (digest (st_env S) (text_list c)) = Inr (map JStr c)"
  by (simp add: stored_def Let_def chunk_view_def record_view_def text_list_def)

lemma chunks_view_stored: "list_all (stored h) cs \<Longrightarrow>
    res_map (chunk_view S h) (map (\<lambda>c. digest (st_env S) (text_list c)) cs) = Inr (map (map JStr) cs)"
  by (induction cs) (simp_all add: chunk_view_stored)

text \<open>A list that was written is read back from the references that were returned.\<close>

lemma write_list_effect:
  assumes w: "write_list S vs n m r = (x, r')"
    and digests: "\<And>j. te_sha (st_env S) j \<noteq> [] \<and> utf8_len (te_sha (st_env S) j) \<le> 64" and short: "length vs \<le> 600"
  shows "grew r r'" "\<And>refs. x = Inr refs \<Longrightarrow> list_view S (holds r') (text_list refs) n m = Inr vs"
proof -
  obtain y r1 where 1: "io_map (put_chunk S) (chunks_of [] 2 vs) r = (y, r1)" by fastforce
  note c = put_chunks_effect[OF 1]
  show "grew r r'"
    using w 1 c grew_pre by (auto simp: write_list_def io_bind_def io_unless_def preorder_rel_def split: if_splits)
  fix refs assume x: "x = Inr refs"
  let ?cs = "chunks_of [] 2 vs" and ?f = "\<lambda>c. digest (st_env S) (text_list c)"
  have ok: "strings_ok vs n m" and refs: "refs = map ?f ?cs" and st: "list_all (stored (holds r')) ?cs"
    using w 1 c x by (auto simp: write_list_def io_bind_def io_unless_def split: if_splits)
  have inj: "inj_on ?f (set ?cs)"
  proof (rule inj_onI)
    fix a b assume a: "a \<in> set ?cs" "b \<in> set ?cs" "?f a = ?f b"
    then have "stored (holds r') a" "stored (holds r') b" using st by (auto simp: list_all_iff)
    then have "text_list a = text_list b" unfolding stored_def Let_def a(3) by metis
    then show "a = b" by simp
  qed
  have "distinct refs" using ok inj distinct_chunks by (simp add: refs distinct_map strings_ok_def)
  moreover have "length refs \<le> 600"
    using short length_chunks_of[of "[]" 2 vs] by (simp add: refs)
  ultimately have "bounded_strings (text_list refs) 600 64 = Inr refs"
    using digests by (auto simp: bounded_strings_def strings_ok_def refs list_all_iff digest_def digest_with_def)
  moreover have "as_list as_str (JArr (map JStr vs)) = Some vs" by (metis read_text_list text_list_def)
  moreover have "concat (map (map JStr) ?cs) = map JStr vs"
    using concat_chunks_of[of "[]" 2 vs] by (metis append_Nil map_concat)
  ultimately show "list_view S (holds r') (text_list refs) n m = Inr vs"
    using ok chunks_view_stored[OF st] by (simp add: list_view_def refs bounded_strings_def)
qed

abbreviation task_row :: "trecord \<Rightarrow> string list \<Rightarrow> string list \<Rightarrow> string \<Rightarrow> (string \<times> json) list" where
  "task_row v rs rb e \<equiv> [(''baseline'', tr_baseline v), (''generation'', tr_generation v), (''seen'', text_list rs),
     (''baselines'', text_list rb), (''journal'', tr_journal v), (''schema'', JNum 2), (''epoch'', JStr e)]"

text \<open>A record over readable lists is read back, and other tasks are read as before.\<close>

lemma row_read_back:
  assumes lists: "list_view S h (text_list rs) MAX_HISTORY MAX_VERSION_BYTES = Inr (tr_seen v)"
      "list_view S h (text_list rb) MAX_HISTORY 64 = Inr (tr_baselines v)"
    and ok: "validate_record (task_key S i) (JObj (task_row v rs rb e)) = Inr ()"
  defines "h' \<equiv> h(task_key S i := sort_keys (JObj (task_row v rs rb e)))"
  shows "\<exists>p. task_view S h' (JStr e) i = Inr (Some p) \<and> stored_as v p"
proof -
  let ?d = "sort_row (task_row v rs rb e)"
  have "list_view S h' refs n m = Inr vs" if "list_view S h refs n m = Inr vs" for refs n m vs
    using that by (rule list_view_kept) (simp add: h'_def)
  with lists have l: "list_view S h' (text_list rs) MAX_HISTORY MAX_VERSION_BYTES = Inr (tr_seen v)"
      "list_view S h' (text_list rb) MAX_HISTORY 64 = Inr (tr_baselines v)" by blast+
  have items: "item ?d ''seen'' = Inr (text_list rs)" "item ?d ''baselines'' = Inr (text_list rb)"
      "jget ?d ''schema'' = JNum 2" "jget ?d ''epoch'' = JStr e"
    by (simp_all add: item_def sort_row_def map_of_map_snd jget_def)
  have held: "h' (task_key S i) = JObj ?d" by (simp only: h'_def fun_upd_same sort_keys_JObj)
  have "validate_record (task_key S i) (JObj ?d) = Inr ()"
    using ok unfolding validate_record_def sort_keys_JObj[symmetric] json_len_sort_keys .
  then have "record_view h' (task_key S i) = Inr (JObj ?d)"
    by (simp only: record_view_def held json.distinct if_False res_bind_simps)
  then have "task_view S h' (JStr e) i = Inr (Some \<lparr>pr_dict = ?d, pr_seen = tr_seen v, pr_baselines = tr_baselines v\<rparr>)"
    by (simp add: task_view_def items l)
  then show ?thesis by (simp add: stored_as_def)
qed

text \<open>However saving ends: nothing was changed but chunks added, or the whole new record is in place.\<close>

lemma save_task_effect:
  assumes w: "save_task S i v r = (x, r')" and e: "item (rn_active r) ''epoch'' = Inr (JStr e)"
    and digests: "\<And>j. te_sha (st_env S) j \<noteq> [] \<and> utf8_len (te_sha (st_env S) j) \<le> 64"
  shows "grew r r' \<and> x \<noteq> Inr () \<or> (\<exists>h j p. grown S (holds r) h \<and> holds r' = h(task_key S i := j)
      \<and> task_view S (holds r') (JStr e) i = Inr (Some p) \<and> stored_as v p)"
proof (cases "strings_ok (tr_seen v) MAX_HISTORY MAX_VERSION_BYTES \<and> strings_ok (tr_baselines v) MAX_HISTORY 64")
  case False
  then have "r' = r" "x \<noteq> Inr ()"
    using w by (cases "strings_ok (tr_seen v) MAX_HISTORY MAX_VERSION_BYTES"; auto simp: save_task_def io_bind_def)+
  then show ?thesis using grew_pre by (simp add: preorder_rel_def)
next
  case True
  then have len: "length (tr_seen v) \<le> 600" "length (tr_baselines v) \<le> 600"
    by (simp_all add: strings_ok_def MAX_HISTORY_def)
  obtain y1 r1 where 1: "write_list S (tr_seen v) MAX_HISTORY MAX_VERSION_BYTES r = (y1, r1)" by fastforce
  obtain y2 r2 where 2: "write_list S (tr_baselines v) MAX_HISTORY 64 r1 = (y2, r2)" by fastforce
  note l1 = write_list_effect[OF 1 digests len(1)] and l2 = write_list_effect[OF 2 digests len(2)]
  have g: "grew r r2" using l1(1) l2(1) grew_pre unfolding preorder_rel_def by blast
  consider err where "y1 = Inl err" | rs err where "y1 = Inr rs" "y2 = Inl err" | rs rb where "y1 = Inr rs" "y2 = Inr rb"
    by (cases y1; cases y2) auto
  then show ?thesis
  proof cases
    case 1
    then have "x \<noteq> Inr ()" "r' = r1" using w True \<open>write_list S (tr_seen v) _ _ r = _\<close> by (auto simp: save_task_def io_bind_def)
    then show ?thesis using l1(1) by simp
  next
    case 2
    then have "x \<noteq> Inr ()" "r' = r2" using w True \<open>write_list S (tr_seen v) _ _ r = _\<close> \<open>write_list S (tr_baselines v) _ _ r1 = _\<close>
      by (auto simp: save_task_def io_bind_def)
    then show ?thesis using g by simp
  next
    case 3
    have act: "item (rn_active r2) ''epoch'' = Inr (JStr e)" using g e by (simp add: grew_def)
    have "write_record S (task_key S i) (JObj (task_row v rs rb e)) r2 = (x, r')"
      using w True 3 act \<open>write_list S (tr_seen v) _ _ r = _\<close> \<open>write_list S (tr_baselines v) _ _ r1 = _\<close>
      by (simp add: save_task_def io_bind_def get_active_def)
    note wr = write_record_effect[OF this]
    have lists: "list_view S (holds r2) (text_list rs) MAX_HISTORY MAX_VERSION_BYTES = Inr (tr_seen v)"
      "list_view S (holds r2) (text_list rb) MAX_HISTORY 64 = Inr (tr_baselines v)"
      using list_view_kept[OF l1(2)[OF 3(1)]] l2(1) l2(2)[OF 3(2)] by (auto simp: grew_def)
    show ?thesis
    proof (cases "holds r' = holds r2 \<and> x \<noteq> Inr ()")
      case True
      then show ?thesis using g wr(1) by (simp add: grew_def)
    next
      case False
      with wr(2,3) have new: "holds r' = (holds r2)(task_key S i := sort_keys (JObj (task_row v rs rb e)))"
        "validate_record (task_key S i) (JObj (task_row v rs rb e)) = Inr ()" by auto
      from row_read_back[OF lists new(2)] g show ?thesis
        unfolding new(1) grew_def by blast
    qed
  qed
qed

lemma out_load_total: "0 < utf8_len k \<Longrightarrow> utf8_len k \<le> KEY_BYTES \<Longrightarrow> \<exists>r'. out (kv_load (st_env S) k) r = (Inr (holds r k), r') \<and> holds r' = holds r \<and> rn_active r' = rn_active r"
proof -
  assume "0 < utf8_len k" "utf8_len k \<le> KEY_BYTES"
  then obtain w' where "load k (rn_world r) = (Inr (holds r k), w')" using load_total by (auto simp: KEY_BYTES_def)
  then have "out (kv_load (st_env S) k) r = (Inr (holds r k), r\<lparr>rn_world := w'\<rparr>)" by (simp add: out_def env)
  then show ?thesis using out_load by blast
qed

lemma read_record_total:
  assumes "record_view (holds r) k = Inr v" "v \<noteq> JNull"
  shows "\<exists>r'. read_record S k r = (Inr v, r') \<and> holds r' = holds r \<and> rn_active r' = rn_active r"
proof -
  have v: "holds r k = v" "validate_record k v = Inr ()"
    using assms by (auto simp: record_view_def res_bind_def split: if_splits sum.splits)
  then have "0 < utf8_len k" "utf8_len k \<le> KEY_BYTES" by (auto simp: validate_record_def split: if_splits)
  from out_load_total[OF this, of r] v assms(2) show ?thesis
    by (auto simp: read_record_def io_bind_def)
qed

lemma read_chunks_total:
  assumes "res_map (chunk_view S (holds r)) rs = Inr cs"
  shows "\<exists>r'. io_map (read_chunk S) rs r = (Inr cs, r') \<and> holds r' = holds r \<and> rn_active r' = rn_active r"
  using assms
proof (induction rs arbitrary: r cs)
  case (Cons ref rs)
  then obtain c cs' where c: "chunk_view S (holds r) ref = Inr c" "res_map (chunk_view S (holds r)) rs = Inr cs'" "cs = c # cs'"
    by (auto simp: res_bind_Inr_iff)
  from c(1) obtain a where "record_view (holds r) (chunk_key S ref) = Inr a"
    "(case a of JArr xs \<Rightarrow> if digest (st_env S) a = ref then Inr xs else Inl ''StateError'' | _ \<Rightarrow> Inl ''StateError'') = Inr c"
    by (auto simp: chunk_view_def res_bind_Inr_iff)
  then have view: "record_view (holds r) (chunk_key S ref) = Inr (JArr c)" "digest (st_env S) (JArr c) = ref"
    by (cases a; auto split: if_splits)+
  from read_record_total[OF view(1)] obtain r1 where r1: "read_record S (chunk_key S ref) r = (Inr (JArr c), r1)"
    "holds r1 = holds r" "rn_active r1 = rn_active r" by auto
  with Cons.IH[of r1 cs'] c(2) obtain r2 where "io_map (read_chunk S) rs r1 = (Inr cs', r2)" "holds r2 = holds r1" "rn_active r2 = rn_active r1"
    by auto
  moreover have "read_chunk S ref r = (Inr c, r1)" using r1(1) view(2) by (simp add: read_chunk_def io_bind_def)
  ultimately show ?case using r1(2,3) c(3) by (auto simp: io_bind_def)
qed auto

lemma read_list_total:
  assumes "list_view S (holds r) refs n m = Inr vs"
  shows "\<exists>r'. read_list S refs n m r = (Inr vs, r') \<and> holds r' = holds r \<and> rn_active r' = rn_active r"
proof -
  from assms obtain rs cs where "bounded_strings refs 600 64 = Inr rs" "res_map (chunk_view S (holds r)) rs = Inr cs"
    "bounded_strings (JArr (concat cs)) n m = Inr vs" by (auto simp: list_view_def res_bind_Inr_iff)
  with read_chunks_total[OF this(2)] show ?thesis by (auto simp: read_list_def io_bind_def)
qed

lemma save_task_active: "save_task S i v r = (x, r') \<Longrightarrow> rn_active r' = rn_active r"
proof -
  have pre: "preorder_rel (\<lambda>r r' :: 'w run. rn_active r' = rn_active r)" by (simp add: preorder_rel_def)
  have put: "always (\<lambda>r r'. rn_active r' = rn_active r) (put_chunk S c)" for c
    unfolding always_def
  proof
    fix r
    obtain x r' where 1: "put_chunk S c r = (x, r')" by fastforce
    show "rn_active (snd (put_chunk S c r)) = rn_active r" using put_chunk_effect(1)[OF 1] by (simp add: 1 grew_def)
  qed
  have rec: "always (\<lambda>r r'. rn_active r' = rn_active r) (write_record S k j)" for k j
    unfolding always_def
  proof
    fix r
    obtain x r' where 1: "write_record S k j r = (x, r')" by fastforce
    show "rn_active (snd (write_record S k j r)) = rn_active r" using write_record_effect(1)[OF 1] by (simp add: 1)
  qed
  have act: "always (\<lambda>r r'. rn_active r' = rn_active r) get_active"
    by (simp add: always_def get_active_def)
  have "always (\<lambda>r r'. rn_active r' = rn_active r) (save_task S i v)"
    unfolding save_task_def write_list_def by (intro always_intro pre put rec act)
  then have "rn_active (snd (save_task S i v r)) = rn_active r" by (simp add: always_def)
  then show "save_task S i v r = (x, r') \<Longrightarrow> rn_active r' = rn_active r" by simp
qed

text \<open>A task that the store shows is loaded.\<close>

lemma load_task_total:
  assumes "task_view S (holds r) e i = Inr (Some p)" and act: "item (rn_active r) ''epoch'' = Inr e"
  shows "fst (load_task S i r) = Inr (Some p)"
proof -
  from assms(1) obtain v where rec: "record_view (holds r) (task_key S i) = Inr v" by (auto simp: task_view_def res_bind_Inr_iff)
  with assms(1) obtain d rs rb seen bs where v: "v = JObj d" "is_num (jget d ''schema'') 2" "jget d ''epoch'' = e"
    "item d ''seen'' = Inr rs" "list_view S (holds r) rs MAX_HISTORY MAX_VERSION_BYTES = Inr seen"
    "item d ''baselines'' = Inr rb" "list_view S (holds r) rb MAX_HISTORY 64 = Inr bs"
    and p: "p = \<lparr>pr_dict = d, pr_seen = seen, pr_baselines = bs\<rparr>"
    by (cases v) (auto simp: task_view_def res_bind_Inr_iff split: if_splits)
  from read_record_total[OF rec] v(1) obtain r1 where r1: "read_record S (task_key S i) r = (Inr (JObj d), r1)"
    "holds r1 = holds r" "rn_active r1 = rn_active r" by auto
  from v(5) have "list_view S (holds r1) rs MAX_HISTORY MAX_VERSION_BYTES = Inr seen" by (simp add: r1)
  from read_list_total[OF this] r1 obtain r2 where r2: "read_list S rs MAX_HISTORY MAX_VERSION_BYTES r1 = (Inr seen, r2)"
    "holds r2 = holds r" by auto
  from v(7) have "list_view S (holds r2) rb MAX_HISTORY 64 = Inr bs" by (simp add: r2)
  from read_list_total[OF this] obtain r3 where r3: "read_list S rb MAX_HISTORY 64 r2 = (Inr bs, r3)" by auto
  show ?thesis
    using r1 r2 r3 v act by (simp add: load_task_def io_bind_def get_active_def p)
qed

text \<open>The two facts that the client of a checkpoint relies on.\<close>

definition shows_new :: "trecord \<Rightarrow> string \<Rightarrow> string \<Rightarrow> 'w run \<Rightarrow> bool" where
  "shows_new v e i r' \<longleftrightarrow> (\<exists>p. task_view S (holds r') (JStr e) i = Inr (Some p) \<and> stored_as v p)"

lemma save_task_atomic:
  assumes w: "save_task S i v r = (x, r')" and e: "item (rn_active r) ''epoch'' = Inr (JStr e)"
    and digests: "\<And>j. te_sha (st_env S) j \<noteq> [] \<and> utf8_len (te_sha (st_env S) j) \<le> 64"
  shows "(\<forall>j p. task_key S j \<noteq> task_key S i \<and> task_view S (holds r) (JStr e) j = Inr p \<longrightarrow> task_view S (holds r') (JStr e) j = Inr p)
    \<and> (shows_new v e i r' \<or> x \<noteq> Inr () \<and> (\<forall>p. task_view S (holds r) (JStr e) i = Inr p \<longrightarrow> task_view S (holds r') (JStr e) i = Inr p))"
proof -
  have kept: "task_view S h (JStr e) j = Inr p" if "grown S (holds r) h" "task_view S (holds r) (JStr e) j = Inr p" for h j p
    using that(2) by (rule task_view_kept) (use that(1) grown_task in auto)
  have put: "task_view S (h(task_key S i := a)) (JStr e) j = Inr p"
    if "task_view S h (JStr e) j = Inr p" "task_key S j \<noteq> task_key S i" for h a j p
    using that(1) by (rule task_view_kept) (use that(2) in auto)
  from save_task_effect[OF w e digests] show ?thesis
  proof (elim disjE exE conjE)
    assume "grew r r'" "x \<noteq> Inr ()"
    then have "grown S (holds r) (holds r')" by (simp add: grew_def)
    with kept \<open>x \<noteq> Inr ()\<close> show ?thesis by blast
  next
    fix h a p
    assume "grown S (holds r) h" "holds r' = h(task_key S i := a)" "task_view S (holds r') (JStr e) i = Inr (Some p)" "stored_as v p"
    with kept put show ?thesis unfolding shows_new_def by metis
  qed
qed

lemma saved_is_loaded:
  assumes w: "save_task S i v r = (Inr (), r')" and e: "item (rn_active r) ''epoch'' = Inr (JStr e)"
    and digests: "\<And>j. te_sha (st_env S) j \<noteq> [] \<and> utf8_len (te_sha (st_env S) j) \<le> 64"
  shows "\<exists>p. fst (load_task S i r') = Inr (Some p) \<and> stored_as v p"
proof -
  from save_task_atomic[OF w e digests] obtain p where p: "task_view S (holds r') (JStr e) i = Inr (Some p)" "stored_as v p"
    by (auto simp: shows_new_def)
  have "item (rn_active r') ''epoch'' = Inr (JStr e)" using e save_task_active[OF w] by simp
  from load_task_total[OF p(1) this] p(2) show ?thesis by blast
qed

end

section \<open>The store of a plugin\<close>

text \<open>A run that Collect hosts: the world is what is outside and the plugin's rows.\<close>

definition lift_io :: "('o, 'a) io \<Rightarrow> ('o \<times> store_db, 'a) io" where
  "lift_io m = (\<lambda>(w, db). case m w of (x, w') \<Rightarrow> (x, (w', db)))"

definition lift_val :: "('o \<Rightarrow> 'a \<times> 'o) \<Rightarrow> 'o \<times> store_db \<Rightarrow> 'a \<times> ('o \<times> store_db)" where
  "lift_val m = (\<lambda>(w, db). case m w of (x, w') \<Rightarrow> (x, (w', db)))"

definition hosted :: "string \<Rightarrow> 'o tenv \<Rightarrow> ('o \<times> store_db) tenv" where
  "hosted pid E = \<lparr>pv_name = pv_name E, pv_namespace = pv_namespace E, pv_collections = lift_io (pv_collections E),
     pv_tasks = (\<lambda>s. lift_io (pv_tasks E s)), pv_get_task = (\<lambda>i. lift_io (pv_get_task E i)),
     pv_complete = (\<lambda>i v c. lift_io (pv_complete E i v c)), vt_namespace = lift_io (vt_namespace E),
     vt_set_deadline = (\<lambda>t (w, db). (vt_set_deadline E t w, db)), vt_versions = (\<lambda>p. lift_io (vt_versions E p)),
     vt_read = (\<lambda>v. lift_io (vt_read E v)), vt_write = (\<lambda>p x. lift_io (vt_write E p x)),
     kv_load = ctx_kv_get pid, kv_save = ctx_kv_set pid,
     te_clock = lift_val (te_clock E), te_selected = map_option lift_io (te_selected E), te_uuid = lift_val (te_uuid E),
     te_enter = lift_io (te_enter E), te_leave = (\<lambda>(w, db). (te_leave E w, db)), te_sha = te_sha E, te_sha_text = te_sha_text E,
     yaml_aliases = yaml_aliases E, yaml_node = yaml_node E, yaml_dump = yaml_dump E\<rparr>"

definition hosted_store :: "string \<Rightarrow> 'o tenv \<Rightarrow> rat \<Rightarrow> string list \<Rightarrow> string \<Rightarrow> ('o \<times> store_db) store" where
  "hosted_store pid E dl sel pre = store_for \<lparr>cx_env = hosted pid E, cx_dry = False, cx_deadline = dl, cx_selected = sel\<rparr> pre"

lemma hosted_guard:
  assumes "guard \<lparr>cx_env = hosted pid E, cx_dry = False, cx_deadline = dl, cx_selected = sel\<rparr> None r = (g, r')"
  shows "snd (rn_world r') = snd (rn_world r) \<and> rn_active r' = rn_active r"
proof (cases "te_selected E")
  case None
  with assms show ?thesis
    by (auto simp: guard_def hosted_def io_bind_def out_val_def lift_val_def split: prod.splits if_splits)
next
  case (Some ask)
  with assms show ?thesis
    by (auto simp: guard_def hosted_def io_bind_def out_val_def out_def lift_val_def lift_io_def io_unless_def split: prod.splits if_splits sum.splits)
qed

interpretation plugin_checkpoints: checkpoints "ctx_kv_get pid" "ctx_kv_set pid" "kv_held pid" "hosted_store pid E dl sel pre"
  for pid E dl sel pre
proof unfold_locales
  show "kv_load (st_env (hosted_store pid E dl sel pre)) = ctx_kv_get pid" "kv_save (st_env (hosted_store pid E dl sel pre)) = ctx_kv_set pid"
    "\<not> st_dry (hosted_store pid E dl sel pre)"
    by (simp_all add: hosted_store_def hosted_def)
  fix r r' and g :: "string + unit"
  assume "st_guard (hosted_store pid E dl sel pre) r = (g, r')"
  then show "kv_held pid (rn_world r') = kv_held pid (rn_world r) \<and> rn_active r' = rn_active r"
    using hosted_guard[of pid E dl sel r g r'] by (simp add: hosted_store_def kv_held_def fun_eq_iff)
qed

section \<open>Properties\<close>

lemma hosted_sha: "te_sha (st_env (hosted_store pid E dl sel pre)) = te_sha E"
  by (simp add: hosted_store_def hosted_def)

text \<open>C17. All or nothing. Saving the record of a task in the rows of a plugin, however it ends - a check of consent
  or deadline that stops it, a chunk or a record that is refused, or a return - leaves the record of every
  other task as it reads, and leaves the record of the task either as it was or entirely as it was to be:
  the latest state of a task is never half of one. It returns only in the second case. (Digests are taken to
  be texts of at most 64 bytes, as SHA-256's hexadecimal digests are; two tasks are told apart by their keys.)\<close>

theorem save_is_all_or_nothing:
  assumes S: "S = hosted_store pid E dl sel pre" and h: "h = kv_held pid (rn_world r)" "h' = kv_held pid (rn_world r')"
    and save: "save_task S i v r = (x, r')" and e: "item (rn_active r) ''epoch'' = Inr (JStr e)"
    and digests: "\<And>j. te_sha E j \<noteq> [] \<and> utf8_len (te_sha E j) \<le> 64"
  shows "(\<forall>j p. task_key S j \<noteq> task_key S i \<and> task_view S h (JStr e) j = Inr p \<longrightarrow> task_view S h' (JStr e) j = Inr p)
    \<and> ((\<exists>p. task_view S h' (JStr e) i = Inr (Some p) \<and> stored_as v p)
       \<or> x \<noteq> Inr () \<and> (\<forall>p. task_view S h (JStr e) i = Inr p \<longrightarrow> task_view S h' (JStr e) i = Inr p))"
  using plugin_checkpoints.save_task_atomic[OF save[unfolded S] e, unfolded hosted_sha plugin_checkpoints.shows_new_def, OF digests]
  unfolding S h .

text \<open>C37. What was saved is loaded. When saving the record of a task in the rows of a plugin returns, loading it
  afterwards under the same epoch returns a record with the same versions seen and baselines published, in
  order, and with the baseline, generation and journal that were saved, up to the order of keys in them.\<close>

theorem saved_task_is_loaded:
  assumes S: "S = hosted_store pid E dl sel pre"
    and save: "save_task S i v r = (Inr (), r')" and e: "item (rn_active r) ''epoch'' = Inr (JStr e)"
    and digests: "\<And>j. te_sha E j \<noteq> [] \<and> utf8_len (te_sha E j) \<le> 64"
  shows "\<exists>p. fst (load_task S i r') = Inr (Some p) \<and> stored_as v p"
  using plugin_checkpoints.saved_is_loaded[OF save[unfolded S] e, unfolded hosted_sha, OF digests] unfolding S .

text \<open>A list that was cut into more pieces than are ever read.\<close>

lemma chunks_are_small:
  assumes "\<forall>v \<in> set vs. 2000 < text_len v" "\<forall>v \<in> set chunk. 2000 < text_len v" "used = 2 + sum_list (map (\<lambda>v. text_len v + 1) chunk)" "length chunk \<le> 11"
    and "c \<in> set (chunks_of chunk used vs)"
  shows "length c \<le> 11"
  using assms
proof (induction chunk used vs rule: chunks_of.induct)
  case (1 chunk used)
  then show ?case by (auto split: if_splits)
next
  case (2 chunk used v vs)
  let ?cost = "text_len v + 1"
  show ?case
  proof (cases "CHUNK_BYTES < used + ?cost \<and> chunk \<noteq> []")
    case True
    then show ?thesis using 2 by (auto simp: Let_def)
  next
    case False
    have "length chunk \<noteq> 11"
    proof
      assume eleven: "length chunk = 11"
      have "sum_list (map (\<lambda>_. 2002) chunk) \<le> sum_list (map (\<lambda>v. text_len v + 1) chunk)"
        using "2.prems"(2) by (intro sum_list_mono) auto
      then have "22022 \<le> sum_list (map (\<lambda>v. text_len v + 1) chunk)" using eleven by (simp add: sum_list_triv)
      then show False using False eleven "2.prems"(1,3) by (auto simp: CHUNK_BYTES_def)
    qed
    then show ?thesis using 2 False by (auto simp: Let_def)
  qed
qed

lemma many_chunks:
  assumes "\<forall>v \<in> set vs. 2000 < text_len v" shows "length vs \<le> 11 * length (chunks_of [] 2 vs)"
proof -
  have small: "\<forall>c \<in> set cs. length c \<le> 11 \<Longrightarrow> length (concat cs) \<le> 11 * length cs" for cs :: "string list list"
    by (induction cs) auto
  have "\<forall>c \<in> set (chunks_of [] 2 vs). length c \<le> 11"
    using chunks_are_small[of vs "[]" 2] assms by simp
  from small[OF this] show ?thesis by (simp add: concat_chunks_of)
qed

text \<open>Identities of a thousand quotation marks, told apart by thirteen letters.\<close>

definition quoted_ids :: "string list" where
  "quoted_ids = map (\<lambda>w. w @ replicate 1000 CHR 0x22) (List.n_lists 13 ''ab'')"

lemma quoted_ids:
  "length quoted_ids = 8192" "strings_ok quoted_ids MAX_IDS MAX_ID_BYTES" "\<forall>v \<in> set quoted_ids. 2000 < text_len v"
proof -
  have len: "length w = 13 \<and> set w \<subseteq> {CHR ''a'', CHR ''b''}" if "w \<in> set (List.n_lists 13 ''ab'')" for w
    using that by (simp add: set_n_lists)
  have bytes: "utf8_len w = length w" if "set w \<subseteq> {CHR ''a'', CHR ''b''}" for w
    using that by (induction w) (auto simp: utf8_len_def)
  have quotes: "utf8_len (replicate n CHR 0x22) = n" "sum_list (map escaped_len (replicate n CHR 0x22)) = 2 * n" for n
    by (induction n) (simp_all add: utf8_len_def escaped_len_def)
  have app: "utf8_len (a @ b) = utf8_len a + utf8_len b" for a b by (simp add: utf8_len_def)
  have "length (List.n_lists 13 ''ab'') = 8192" unfolding length_n_lists by (simp flip: numeral_2_eq_2)
  then show length: "length quoted_ids = 8192" by (simp add: quoted_ids_def)
  have "distinct quoted_ids"
    by (simp add: quoted_ids_def distinct_map distinct_n_lists inj_on_def)
  moreover have "\<forall>v \<in> set quoted_ids. v \<noteq> [] \<and> utf8_len v \<le> 1024"
    using len bytes by (auto simp: quoted_ids_def app quotes)
  ultimately show "strings_ok quoted_ids MAX_IDS MAX_ID_BYTES"
    using length by (simp add: strings_ok_def MAX_IDS_def MAX_ID_BYTES_def list_all_iff)
  show "\<forall>v \<in> set quoted_ids. 2000 < text_len v"
    using quotes(2)[of 1000] by (auto simp: quoted_ids_def text_len_def)
qed

text \<open>An index that cannot be read. Writing a list does not count its chunks, reading refuses more than 600.
  There is a list of identities within the bounds on the number and the size of identities whose chunks, by
  whatever references they are named, are refused: an account that tracks it can publish its index and can
  never load it again.\<close>

theorem index_outgrows_its_reader:
  "\<exists>ids. strings_ok ids MAX_IDS MAX_ID_BYTES \<and>
     (\<forall>f. fst (read_list S (text_list (map f (chunks_of [] 2 ids))) MAX_IDS MAX_ID_BYTES r) = Inl ''StateError'')"
proof (intro exI conjI allI)
  show "strings_ok quoted_ids MAX_IDS MAX_ID_BYTES" by (rule quoted_ids)
  fix f
  have "600 < length (chunks_of [] 2 quoted_ids)"
    using many_chunks[OF quoted_ids(3)] quoted_ids(1) by linarith
  then have "bounded_strings (text_list (map f (chunks_of [] 2 quoted_ids))) 600 64 = Inl ''StateError''"
    by (simp add: bounded_strings_def strings_ok_def)
  then show "fst (read_list S (text_list (map f (chunks_of [] 2 quoted_ids))) MAX_IDS MAX_ID_BYTES r) = Inl ''StateError''"
    by (simp add: read_list_def io_bind_def)
qed

section \<open>Witnesses\<close>

definition demo_hosted :: "(unit \<times> store_db) store" where
  "demo_hosted = hosted_store ''plug'' demo_env 600 [''c1''] ''p''"

definition demo_rows :: "(unit \<times> store_db) run" where
  "demo_rows = (empty_run ((), \<lparr>kv_table = \<lambda>_. None, claimed = []\<rparr>))\<lparr>rn_active := [(''epoch'', JStr ''e'')]\<rparr>"

definition demo_trecord :: trecord where
  "demo_trecord = \<lparr>tr_baseline = JNull, tr_generation = JStr ''g1'', tr_seen = [], tr_baselines = [], tr_journal = JNull\<rparr>"

lemma demo_saves: "fst (save_task demo_hosted ''t1'' demo_trecord demo_rows) = Inr ()"
  by (simp add: demo_hosted_def hosted_store_def hosted_def store_for_def demo_rows_def demo_trecord_def demo_simps demo_env_def
    empty_run_def io_bind_def save_task_def strings_ok_def write_list_def io_unless_def get_active_def item_def write_record_def
    validate_record_def utf8_len_def KEY_BYTES_def VALUE_BYTES_def text_len_def escaped_len_def int_str_def nat_str.simps
    guard_def out_val_def out_def lift_val_def lift_io_def ctx_kv_set_def set_plugin_kv_def validate_kv_key_def Let_def
    PLUGIN_KV_MAX_KEY_BYTES_def PLUGIN_KV_MAX_VALUE_BYTES_def PLUGIN_KV_MAX_DEPTH_def encode_kv_value_def task_key_def text_list_def
    digest_def digest_with_def
    cong: io_bind_weak)

definition demo_after :: "(unit \<times> store_db) run" where
  "demo_after = snd (save_task demo_hosted ''t1'' demo_trecord demo_rows)"

lemma demo_save: "save_task demo_hosted ''t1'' demo_trecord demo_rows = (Inr (), demo_after)"
  using demo_saves by (metis demo_after_def prod.collapse)

lemma demo_epoch: "item (rn_active demo_rows) ''epoch'' = Inr (JStr ''e'')"
  by (simp add: demo_rows_def item_def)

lemma demo_digests: "te_sha demo_env j \<noteq> [] \<and> utf8_len (te_sha demo_env j) \<le> 64"
  by (simp add: demo_env_def utf8_len_def)

theorem save_is_all_or_nothing_witness:
  "\<exists>p. task_view demo_hosted (kv_held ''plug'' (rn_world demo_after)) (JStr ''e'') ''t1'' = Inr (Some p) \<and> stored_as demo_trecord p"
  using save_is_all_or_nothing[OF demo_hosted_def refl refl demo_save demo_epoch demo_digests] by simp

theorem saved_task_is_loaded_witness:
  "\<exists>p. fst (load_task demo_hosted ''t1'' demo_after) = Inr (Some p) \<and> stored_as demo_trecord p"
  using saved_task_is_loaded[OF demo_hosted_def demo_save demo_epoch demo_digests] .

end
