(* ===== verification/Collect_Config.thy ===== *)
theory Collect_Config
  imports Py_IO
begin

text \<open>
  packages/collect: config.py. The configuration file, what a caller loaded of it and edited since, the
  three-way merge that a save performs under the lock, the epochs that revoke pending work of a plugin and
  the gate of an account transition; and the consent that the Reminders plugin reads from it before it
  writes.

  The file is represented by what tomlkit reads: tables are mappings of JSON values, a port that int()
  does not read counts as none. A uuid that a save draws for a plugin is the value of a function at it.
\<close>

type_synonym mapping = "(string \<times> json) list"

record cfg_file =
  fl_enabled :: "string list"
  fl_intervals :: mapping
  fl_settings :: mapping
  fl_epochs :: mapping
  fl_port :: "int option"
  fl_gate :: "json option"

record settings =
  se_enabled :: "string list"
  se_intervals :: mapping
  se_plugins :: mapping
  se_port :: int

record config =
  cf_enabled :: "string list"
  cf_intervals :: mapping
  cf_settings :: mapping
  cf_port :: int
  cf_epochs :: mapping
  cf_transition :: bool
  cf_rotated :: "string list"
  cf_baseline :: settings
  cf_enabled_intents :: "string list"
  cf_interval_intents :: "string list"
  cf_setting_intents :: "(string \<times> string list) list"

definition DEFAULT_WEB_PORT :: int where "DEFAULT_WEB_PORT = 9292"

section \<open>Loading and editing\<close>

definition snapshot :: "config \<Rightarrow> settings" where
  "snapshot c = \<lparr>se_enabled = cf_enabled c, se_intervals = cf_intervals c, se_plugins = cf_settings c, se_port = cf_port c\<rparr>"

definition empty_config :: config where
  "empty_config = \<lparr>cf_enabled = [], cf_intervals = [], cf_settings = [], cf_port = DEFAULT_WEB_PORT, cf_epochs = [],
     cf_transition = False, cf_rotated = [],
     cf_baseline = \<lparr>se_enabled = [], se_intervals = [], se_plugins = [], se_port = DEFAULT_WEB_PORT\<rparr>,
     cf_enabled_intents = [], cf_interval_intents = [], cf_setting_intents = []\<rparr>"

text \<open>\<open>doc.get("account_transition", False) is not False\<close>.\<close>

definition gate_shut :: "json option \<Rightarrow> bool" where
  "gate_shut g \<longleftrightarrow> g \<noteq> None \<and> g \<noteq> Some (JBool False)"

definition load_path :: "cfg_file option \<Rightarrow> config" where
  "load_path f =
     (case f of None \<Rightarrow> empty_config
      | Some f \<Rightarrow>
          let c = empty_config\<lparr>cf_enabled := remdups (fl_enabled f), cf_intervals := fl_intervals f, cf_settings := fl_settings f,
                cf_port := (case fl_port f of None \<Rightarrow> DEFAULT_WEB_PORT | Some p \<Rightarrow> p), cf_epochs := fl_epochs f,
                cf_transition := gate_shut (fl_gate f)\<rparr>
          in c\<lparr>cf_baseline := snapshot c\<rparr>)"

definition rotate_plugin_epoch :: "string \<Rightarrow> string \<Rightarrow> config \<Rightarrow> config" where
  "rotate_plugin_epoch u pid c = c\<lparr>cf_epochs := dict_set pid (JStr u) (cf_epochs c), cf_rotated := List.insert pid (cf_rotated c)\<rparr>"

definition enable :: "string \<Rightarrow> config \<Rightarrow> config" where
  "enable pid c = c\<lparr>cf_enabled_intents := List.insert pid (cf_enabled_intents c), cf_enabled := List.insert pid (cf_enabled c)\<rparr>"

definition disable :: "string \<Rightarrow> config \<Rightarrow> config" where
  "disable pid c = c\<lparr>cf_enabled_intents := List.insert pid (cf_enabled_intents c), cf_enabled := removeAll pid (cf_enabled c)\<rparr>"

definition set_interval :: "string \<Rightarrow> int \<Rightarrow> config \<Rightarrow> config" where
  "set_interval pid seconds c =
     c\<lparr>cf_interval_intents := List.insert pid (cf_interval_intents c), cf_intervals := dict_set pid (JNum seconds) (cf_intervals c)\<rparr>"

definition obj_of :: "json option \<Rightarrow> mapping" where
  "obj_of v = (case v of Some (JObj d) \<Rightarrow> d | _ \<Rightarrow> [])"

definition touched_of :: "(string \<times> string list) list \<Rightarrow> string \<Rightarrow> string list" where
  "touched_of t k = (case map_of t k of None \<Rightarrow> [] | Some ks \<Rightarrow> ks)"

definition update_plugin_settings :: "string \<Rightarrow> mapping \<Rightarrow> config \<Rightarrow> config" where
  "update_plugin_settings pid values c =
     c\<lparr>cf_setting_intents := dict_set pid (remdups (touched_of (cf_setting_intents c) pid @ map fst values)) (cf_setting_intents c),
       cf_settings := dict_set pid (JObj (fold (\<lambda>(k, v). dict_set k v) values (obj_of (map_of (cf_settings c) pid)))) (cf_settings c)\<rparr>"

section \<open>The three-way merge\<close>

text \<open>What a frozen value compares equal to: the order of keys does not count, and a bool is its number.\<close>

fun frozen :: "json \<Rightarrow> json" where
  "frozen (JBool b) = JNum (if b then 1 else 0)"
| "frozen (JArr xs) = JArr (map frozen xs)"
| "frozen (JObj d) = JObj (sort_key fst (map (\<lambda>(k, v). (k, frozen v)) d))"
| "frozen v = v"

definition same :: "json option \<Rightarrow> json option \<Rightarrow> bool" where
  "same l r \<longleftrightarrow> map_option frozen l = map_option frozen r"

definition merge_value :: "json option \<Rightarrow> json option \<Rightarrow> json option \<Rightarrow> bool \<Rightarrow> string + json option" where
  "merge_value before requested current explicit =
     (if \<not> explicit \<and> same requested before then Inr current
      else if same current before \<or> same current requested then Inr requested else Inl ''ConfigConflictError'')"

fun merge_keys :: "(string \<Rightarrow> string + json option) \<Rightarrow> string list \<Rightarrow> mapping \<Rightarrow> string + mapping" where
  "merge_keys f [] m = Inr m"
| "merge_keys f (k # ks) m =
     res_bind (f k) (\<lambda>v. merge_keys f ks (case v of None \<Rightarrow> dict_pop k m | Some x \<Rightarrow> dict_set k x m))"

definition merge_flat :: "mapping \<Rightarrow> mapping \<Rightarrow> mapping \<Rightarrow> string list \<Rightarrow> string + mapping" where
  "merge_flat before requested current touched =
     merge_keys (\<lambda>k. merge_value (map_of before k) (map_of requested k) (map_of current k) (k \<in> set touched))
       (remdups (map fst before @ map fst requested)) current"

definition is_mapping :: "json option \<Rightarrow> bool" where
  "is_mapping v = (case v of Some (JObj d) \<Rightarrow> True | _ \<Rightarrow> False)"

definition merge_nested :: "mapping \<Rightarrow> mapping \<Rightarrow> mapping \<Rightarrow> (string \<times> string list) list \<Rightarrow> string + mapping" where
  "merge_nested before requested current touched =
     merge_keys (\<lambda>k.
       let old = map_of before k; new = map_of requested k; now = map_of current k in
       if is_mapping new \<and> is_mapping now \<and> (old = None \<or> is_mapping old)
       then map_sum id (\<lambda>d. Some (JObj d)) (merge_flat (obj_of old) (obj_of new) (obj_of now) (touched_of touched k))
       else merge_value old new now (touched_of touched k \<noteq> []))
       (remdups (map fst before @ map fst requested)) current"

fun merge_enabled :: "config \<Rightarrow> string list \<Rightarrow> string list \<Rightarrow> string list \<Rightarrow> string + string list" where
  "merge_enabled c disk [] acc = Inr acc"
| "merge_enabled c disk (p # ps) acc =
     res_bind (merge_value (Some (JBool (p \<in> set (se_enabled (cf_baseline c))))) (Some (JBool (p \<in> set (cf_enabled c))))
                 (Some (JBool (p \<in> set disk))) (p \<in> set (cf_enabled_intents c)))
       (\<lambda>v. merge_enabled c disk ps (if v = Some (JBool True) then List.insert p acc else removeAll p acc))"

definition port_of :: "json option \<Rightarrow> int" where
  "port_of v = (case v of Some (JNum n) \<Rightarrow> n | _ \<Rightarrow> 0)"

definition merge_settings :: "config \<Rightarrow> config \<Rightarrow> string + settings" where
  "merge_settings c disk =
     (let b = cf_baseline c in
      res_bind (merge_enabled c (cf_enabled disk) (remdups (se_enabled b @ cf_enabled c @ cf_enabled_intents c)) (cf_enabled disk)) (\<lambda>en.
      res_bind (merge_flat (se_intervals b) (cf_intervals c) (cf_intervals disk) (cf_interval_intents c)) (\<lambda>iv.
      res_bind (merge_nested (se_plugins b) (cf_settings c) (cf_settings disk) (cf_setting_intents c)) (\<lambda>pl.
      res_bind (merge_value (Some (JNum (se_port b))) (Some (JNum (cf_port c))) (Some (JNum (cf_port disk))) False) (\<lambda>po.
      Inr \<lparr>se_enabled = en, se_intervals = iv, se_plugins = pl, se_port = port_of po\<rparr>)))))"

section \<open>Saving\<close>

definition empty_file :: cfg_file where
  "empty_file = \<lparr>fl_enabled = [], fl_intervals = [], fl_settings = [], fl_epochs = [], fl_port = None, fl_gate = None\<rparr>"

fun copy_rotated :: "mapping \<Rightarrow> string list \<Rightarrow> mapping \<Rightarrow> string + mapping" where
  "copy_rotated from [] e = Inr e"
| "copy_rotated from (p # ps) e =
     (case map_of from p of None \<Rightarrow> Inl ''KeyError'' | Some u \<Rightarrow> copy_rotated from ps (dict_set p u e))"

definition plugin_changed :: "string list \<Rightarrow> mapping \<Rightarrow> settings \<Rightarrow> string \<Rightarrow> bool" where
  "plugin_changed old_enabled old_settings m p \<longleftrightarrow>
     (p \<in> set old_enabled) \<noteq> (p \<in> set (se_enabled m)) \<or> \<not> same (map_of old_settings p) (map_of (se_plugins m) p)"

definition new_epochs :: "(string \<Rightarrow> string) \<Rightarrow> cfg_file \<Rightarrow> settings \<Rightarrow> mapping \<Rightarrow> mapping" where
  "new_epochs draw f m e =
     fold (\<lambda>p e. if plugin_changed (fl_enabled f) (fl_settings f) m p then dict_set p (JStr (draw p)) e else e)
       (remdups (fl_enabled f @ se_enabled m @ map fst (fl_settings f) @ map fst (se_plugins m))) e"

text \<open>\<open>published\<close>: whether the atomic replacement of the file succeeds.\<close>

definition save_locked :: "(string \<Rightarrow> string) \<Rightarrow> bool \<Rightarrow> bool option \<Rightarrow> config \<Rightarrow> (cfg_file option, config) io" where
  "save_locked draw published transition c disk =
     (let f = (case disk of None \<Rightarrow> empty_file | Some f \<Rightarrow> f) in
      case res_bind (merge_settings c (load_path disk)) (\<lambda>m.
           res_bind (copy_rotated (cf_epochs c) (cf_rotated c) (fl_epochs f)) (\<lambda>e. Inr (m, e))) of
        Inl err \<Rightarrow> (Inl err, disk)
      | Inr (m, e) \<Rightarrow>
          let f' = \<lparr>fl_enabled = sort (se_enabled m), fl_intervals = se_intervals m, fl_settings = se_plugins m,
                fl_epochs = new_epochs draw f m e,
                fl_port = (if se_port m \<noteq> DEFAULT_WEB_PORT then Some (se_port m) else None),
                fl_gate = (case transition of None \<Rightarrow> fl_gate f | Some b \<Rightarrow> Some (JBool b))\<rparr>
          in if \<not> published then (Inl ''OSError'', disk)
             else (Inr (c\<lparr>cf_enabled := se_enabled m, cf_intervals := se_intervals m, cf_settings := se_plugins m, cf_port := se_port m,
                    cf_baseline := m, cf_epochs := fl_epochs f', cf_transition := gate_shut (fl_gate f'), cf_rotated := [],
                    cf_enabled_intents := [], cf_interval_intents := [], cf_setting_intents := []\<rparr>), Some f'))"

definition invalidate_plugin_work :: "(string \<Rightarrow> string) \<Rightarrow> bool \<Rightarrow> string \<Rightarrow> string \<Rightarrow> (cfg_file option, config) io" where
  "invalidate_plugin_work draw published u pid disk =
     save_locked draw published None (rotate_plugin_epoch u pid (load_path disk)) disk"

definition rotate_all :: "(string \<Rightarrow> string) \<Rightarrow> config \<Rightarrow> config" where
  "rotate_all us c = fold (\<lambda>p. rotate_plugin_epoch (us p) p) (remdups (cf_enabled c @ map fst (cf_settings c) @ map fst (cf_epochs c))) c"

definition invalidate_all_plugin_work :: "(string \<Rightarrow> string) \<Rightarrow> bool \<Rightarrow> (string \<Rightarrow> string) \<Rightarrow> (cfg_file option, config) io" where
  "invalidate_all_plugin_work draw published us disk = save_locked draw published None (rotate_all us (load_path disk)) disk"

definition persist_account_transition :: "(string \<Rightarrow> string) \<Rightarrow> bool \<Rightarrow> (string \<Rightarrow> string) \<Rightarrow> bool \<Rightarrow> (cfg_file option, config) io" where
  "persist_account_transition draw published us blocked disk =
     save_locked draw published (Some blocked) (rotate_all us (load_path disk)) disk"

text \<open>\<open>with fulcra_account_transition(): mutate\<close>; the file can be saved by others while the token is changed.\<close>

definition fulcra_account_transition ::
    "(string \<Rightarrow> string) \<Rightarrow> bool \<Rightarrow> bool \<Rightarrow> (string \<Rightarrow> string) \<Rightarrow> (string \<Rightarrow> string) \<Rightarrow> (cfg_file option, unit) io \<Rightarrow> (cfg_file option, unit) io" where
  "fulcra_account_transition draw opens closes us us' mutate =
     io_bind (persist_account_transition draw opens us True) (\<lambda>_.
     io_bind mutate (\<lambda>_.
     io_bind (persist_account_transition draw closes us' False) (\<lambda>_. io_return ())))"

section \<open>The consent of the Reminders plugin\<close>

definition REMINDERS_ID :: string where "REMINDERS_ID = ''apple-reminders''"

definition selected_lists :: "json \<Rightarrow> string + string list" where
  "selected_lists v =
     (case v of
        JArr xs \<Rightarrow>
          (case all_some as_str xs of
             None \<Rightarrow> Inl ''ValueError''
           | Some ss \<Rightarrow> if (\<exists>s \<in> set ss. strip s = []) \<or> \<not> distinct ss then Inl ''ValueError'' else Inr ss)
      | _ \<Rightarrow> Inl ''ValueError'')"

definition get_default :: "mapping \<Rightarrow> string \<Rightarrow> json \<Rightarrow> json" where
  "get_default d k v = (case map_of d k of None \<Rightarrow> v | Some x \<Rightarrow> x)"

definition current_selection :: "string \<Rightarrow> cfg_file option \<Rightarrow> string + string list" where
  "current_selection epoch disk =
     (let c = load_path disk in
      case get_default (cf_settings c) REMINDERS_ID (JObj []) of
        JObj s \<Rightarrow>
          if cf_transition c \<or> REMINDERS_ID \<notin> set (cf_enabled c) \<or> get_default s ''dry_run'' (JBool True) \<noteq> JBool False
             \<or> get_default (cf_epochs c) REMINDERS_ID (JStr []) \<noteq> JStr epoch
          then Inr [] else selected_lists (get_default s ''selected_lists'' (JArr []))
      | _ \<Rightarrow> if cf_transition c \<or> REMINDERS_ID \<notin> set (cf_enabled c) then Inr [] else Inl ''AttributeError'')"

end
