(* ===== verification/Collect_Consent.thy ===== *)
theory Collect_Consent
  imports Collect_Config Sync_Engine Cursor_Props
begin

text \<open>
  What a save of the configuration does to what others saved, and what it takes away from work in flight:
  the three-way merge leaf by leaf, the epochs, the account gate, and the consent check of a task run that
  reads them.
\<close>

section \<open>The merge, leaf by leaf\<close>

lemma same_simps [simp]: "same x x" "same None (Some v) = False" "same (Some v) None = False"
  by (simp_all add: same_def)

lemma same_sym: "same x y \<Longrightarrow> same y x"
  by (simp add: same_def)

lemma same_trans: "same x y \<Longrightarrow> same y z \<Longrightarrow> same x z"
  by (simp add: same_def)

text \<open>
  \<open>merged before requested current explicit v\<close>: a value the caller did not edit stays what it is in the
  file; an edited one becomes what the caller asked for, and then nobody else had changed it otherwise.
\<close>

definition merged :: "json option \<Rightarrow> json option \<Rightarrow> json option \<Rightarrow> bool \<Rightarrow> json option \<Rightarrow> bool" where
  "merged before requested current explicit v \<longleftrightarrow>
     (if \<not> explicit \<and> same requested before then same v current
      else same v requested \<and> (same current before \<or> same current requested))"

lemma merge_value_merged: "merge_value b r c x = Inr v \<Longrightarrow> merged b r c x v"
  by (auto simp: merge_value_def merged_def split: if_splits)

lemma merged_explicit: "merged b r c x v \<Longrightarrow> b \<noteq> None \<or> r \<noteq> None \<Longrightarrow> merged b r c (x \<and> r \<noteq> None) v"
  by (cases r; cases b) (auto simp: merged_def)

lemma merged_image:
  assumes "merged b r c x v" and g: "\<And>x y. same x y \<Longrightarrow> same (g x) (g y)" and e: "e \<Longrightarrow> x"
  shows "merged (g b) (g r) (g c) e (g v)"
proof (cases "\<not> x \<and> same r b")
  case True
  with assms show ?thesis by (auto simp: merged_def)
next
  case False
  with assms(1) have "same v r" "same c b \<or> same c r" by (auto simp: merged_def split: if_splits)
  then have "same (g v) (g r)" "same (g c) (g b) \<or> same (g c) (g r)" by (auto intro: g)
  then show ?thesis unfolding merged_def by (auto dest: same_sym intro: same_trans)
qed

lemma merge_keys_lookup:
  assumes "merge_keys f ks m = Inr m'" "distinct ks"
  shows "if k \<in> set ks then f k = Inr (map_of m' k) else map_of m' k = map_of m k"
  using assms
proof (induction f ks m arbitrary: m' rule: merge_keys.induct)
  case (2 f x ks m)
  then obtain v where v: "f x = Inr v" "merge_keys f ks (case v of None \<Rightarrow> dict_pop x m | Some y \<Rightarrow> dict_set x y m) = Inr m'"
    by (auto simp: res_bind_Inr_iff)
  from 2(1)[OF v(2)] 2(3) v show ?case by (auto split: option.splits if_splits)
qed simp

lemma merge_flat_leaf:
  assumes "merge_flat b r c t = Inr m"
  shows "merged (map_of b k) (map_of r k) (map_of c k) (k \<in> set t \<and> map_of r k \<noteq> None) (map_of m k)"
proof (cases "k \<in> fst ` set b \<union> fst ` set r")
  case True
  with merge_keys_lookup[OF assms[unfolded merge_flat_def], of k]
  have "merge_value (map_of b k) (map_of r k) (map_of c k) (k \<in> set t) = Inr (map_of m k)" by auto
  then have "merged (map_of b k) (map_of r k) (map_of c k) (k \<in> set t) (map_of m k)" by (rule merge_value_merged)
  moreover from True have "map_of b k \<noteq> None \<or> map_of r k \<noteq> None" by (auto simp: map_of_eq_None_iff)
  ultimately show ?thesis by (rule merged_explicit)
next
  case False
  with merge_keys_lookup[OF assms[unfolded merge_flat_def], of k] have "map_of m k = map_of c k" by auto
  moreover from False have "map_of b k = None" "map_of r k = None" by (auto simp: map_of_eq_None_iff)
  ultimately show ?thesis by (simp add: merged_def)
qed

text \<open>One setting of one plugin.\<close>

definition leaf :: "mapping \<Rightarrow> string \<Rightarrow> string \<Rightarrow> json option" where
  "leaf m p k = map_of (obj_of (map_of m p)) k"

lemma obj_of_simps [simp]: "obj_of None = []" "obj_of (Some (JObj d)) = d"
  by (simp_all add: obj_of_def)

lemma frozen_obj:
  assumes "frozen (JObj d) = frozen (JObj d')"
  shows "same (map_of d k) (map_of d' k)"
proof -
  have "map_of (sort_key fst (map (\<lambda>(k, v). (k, frozen v)) d)) k = map_of (sort_key fst (map (\<lambda>(k, v). (k, frozen v)) d')) k"
    using assms by simp
  then show ?thesis by (simp add: same_def map_of_map_snd)
qed

lemma frozen_JObj: "frozen v = JObj e \<Longrightarrow> \<exists>d. v = JObj d"
  by (cases v) auto

lemma same_obj: "same x y \<Longrightarrow> same (map_of (obj_of x) k) (map_of (obj_of y) k)"
proof -
  assume s: "same x y"
  show ?thesis
  proof (cases "\<exists>d. x = Some (JObj d)")
    case True
    then obtain d where x: "x = Some (JObj d)" by blast
    with s obtain v where y: "y = Some v" "frozen (JObj d) = frozen v" by (cases y) (auto simp: same_def)
    then obtain d' where "v = JObj d'" using frozen_JObj[of v] by (metis frozen.simps(3))
    with y x show ?thesis using frozen_obj[of d d' k] by simp
  next
    case False
    moreover have "y \<noteq> Some (JObj d)" for d
    proof
      assume "y = Some (JObj d)"
      with s obtain v where "x = Some v" "frozen v = frozen (JObj d)" by (cases x) (auto simp: same_def)
      with False frozen_JObj[of v] show False by (metis frozen.simps(3))
    qed
    ultimately have "obj_of x = []" "obj_of y = []" by (auto simp: obj_of_def split: option.splits json.splits)
    then show ?thesis by simp
  qed
qed

lemma merge_nested_leaf:
  assumes "merge_nested b r c t = Inr m"
  shows "merged (leaf b p k) (leaf r p k) (leaf c p k) (k \<in> set (touched_of t p) \<and> leaf r p k \<noteq> None) (leaf m p k)"
proof (cases "p \<in> fst ` set b \<union> fst ` set r")
  case False
  with merge_keys_lookup[OF assms[unfolded merge_nested_def], of p] have "map_of m p = map_of c p" by auto
  moreover from False have "map_of b p = None" "map_of r p = None" by (auto simp: map_of_eq_None_iff)
  ultimately show ?thesis by (simp add: merged_def leaf_def)
next
  case True
  let ?old = "map_of b p" and ?new = "map_of r p" and ?now = "map_of c p"
  note l = merge_keys_lookup[OF assms[unfolded merge_nested_def], of p, simplified, unfolded Let_def]
  show ?thesis
  proof (cases "is_mapping ?new \<and> is_mapping ?now \<and> (?old = None \<or> is_mapping ?old)")
    case True': True
    with True l obtain d where "merge_flat (obj_of ?old) (obj_of ?new) (obj_of ?now) (touched_of t p) = Inr d" "map_of m p = Some (JObj d)"
      by (cases "merge_flat (obj_of ?old) (obj_of ?new) (obj_of ?now) (touched_of t p)") (auto split: if_splits)
    with merge_flat_leaf[OF this(1), of k] show ?thesis by (simp add: leaf_def)
  next
    case False
    with True l have "merge_value ?old ?new ?now (touched_of t p \<noteq> []) = Inr (map_of m p)"
      by (auto split: if_splits)
    then have w: "merged ?old ?new ?now (touched_of t p \<noteq> []) (map_of m p)" by (rule merge_value_merged)
    show ?thesis unfolding leaf_def
      by (rule merged_image[OF w, where g = "\<lambda>x. map_of (obj_of x) k", OF same_obj]) auto
  qed
qed

text \<open>Whether a plugin is enabled, as a value.\<close>

definition flag :: "string list \<Rightarrow> string \<Rightarrow> json option" where
  "flag ps p = Some (JBool (p \<in> set ps))"

lemma same_flag [simp]: "same (flag ps p) (flag qs p) \<longleftrightarrow> (p \<in> set ps \<longleftrightarrow> p \<in> set qs)"
  by (simp add: same_def flag_def)

lemma merge_enabled_lookup:
  assumes "merge_enabled c disk ps acc = Inr en" "distinct ps"
  shows "if p \<in> set ps
    then merged (flag (se_enabled (cf_baseline c)) p) (flag (cf_enabled c) p) (flag disk p) (p \<in> set (cf_enabled_intents c)) (flag en p)
    else p \<in> set en \<longleftrightarrow> p \<in> set acc"
  using assms
proof (induction c disk ps acc arbitrary: en rule: merge_enabled.induct)
  case (2 c disk q ps acc)
  let ?b = "flag (se_enabled (cf_baseline c)) q" and ?r = "flag (cf_enabled c) q" and ?d = "flag disk q"
  from 2(2) obtain v where v: "merge_value ?b ?r ?d (q \<in> set (cf_enabled_intents c)) = Inr v"
    and rest: "merge_enabled c disk ps (if v = Some (JBool True) then List.insert q acc else removeAll q acc) = Inr en"
    by (auto simp: res_bind_Inr_iff flag_def)
  from v have "v = ?d \<or> v = ?r" by (auto simp: merge_value_def split: if_splits)
  then have fv: "v = Some (JBool (v = Some (JBool True)))" by (auto simp: flag_def)
  note IH = 2(1)[OF rest]
  show ?case
  proof (cases "p = q")
    case True
    with IH 2(3) have "p \<in> set en \<longleftrightarrow> v = Some (JBool True)" by (auto split: if_splits)
    with fv have "flag en q = v" by (simp add: flag_def True)
    with merge_value_merged[OF v] True show ?thesis by simp
  next
    case False
    with IH 2(3) show ?thesis by (auto split: if_splits)
  qed
qed simp

lemma merge_settings_parts:
  assumes "merge_settings c d = Inr m"
  shows "merged (flag (se_enabled (cf_baseline c)) p) (flag (cf_enabled c) p) (flag (cf_enabled d) p)
           (p \<in> set (cf_enabled_intents c)) (flag (se_enabled m) p)"
    and "merge_flat (se_intervals (cf_baseline c)) (cf_intervals c) (cf_intervals d) (cf_interval_intents c) = Inr (se_intervals m)"
    and "merge_nested (se_plugins (cf_baseline c)) (cf_settings c) (cf_settings d) (cf_setting_intents c) = Inr (se_plugins m)"
proof -
  from assms have "merge_enabled c (cf_enabled d) (remdups (se_enabled (cf_baseline c) @ cf_enabled c @ cf_enabled_intents c)) (cf_enabled d)
      = Inr (se_enabled m)"
    and rest: "merge_flat (se_intervals (cf_baseline c)) (cf_intervals c) (cf_intervals d) (cf_interval_intents c) = Inr (se_intervals m)"
      "merge_nested (se_plugins (cf_baseline c)) (cf_settings c) (cf_settings d) (cf_setting_intents c) = Inr (se_plugins m)"
    by (auto simp: merge_settings_def Let_def res_bind_Inr_iff)
  from merge_enabled_lookup[OF this(1), of p]
  show "merged (flag (se_enabled (cf_baseline c)) p) (flag (cf_enabled c) p) (flag (cf_enabled d) p)
           (p \<in> set (cf_enabled_intents c)) (flag (se_enabled m) p)"
    by (auto simp: merged_def split: if_splits)
  from rest show "merge_flat (se_intervals (cf_baseline c)) (cf_intervals c) (cf_intervals d) (cf_interval_intents c) = Inr (se_intervals m)"
    "merge_nested (se_plugins (cf_baseline c)) (cf_settings c) (cf_settings d) (cf_setting_intents c) = Inr (se_plugins m)"
    by blast+
qed

section \<open>What a save does\<close>

lemma save_Inr:
  assumes "save_locked draw pub tr c disk = (Inr c', disk')"
  obtains m e f' where "merge_settings c (load_path disk) = Inr m" "disk' = Some f'" "pub"
    "copy_rotated (cf_epochs c) (cf_rotated c) (fl_epochs (case disk of None \<Rightarrow> empty_file | Some f \<Rightarrow> f)) = Inr e"
    "fl_enabled f' = sort (se_enabled m)" "fl_intervals f' = se_intervals m" "fl_settings f' = se_plugins m"
    "fl_epochs f' = new_epochs draw (case disk of None \<Rightarrow> empty_file | Some f \<Rightarrow> f) m e"
    "fl_gate f' = (case tr of None \<Rightarrow> Option.bind disk fl_gate | Some b \<Rightarrow> Some (JBool b))"
  using assms
  by (cases "res_bind (merge_settings c (load_path disk)) (\<lambda>m.
        res_bind (copy_rotated (cf_epochs c) (cf_rotated c) (fl_epochs (case disk of None \<Rightarrow> empty_file | Some f \<Rightarrow> f))) (\<lambda>e. Inr (m, e)))")
     (auto simp: save_locked_def Let_def res_bind_Inr_iff empty_file_def split: if_splits prod.splits option.splits)

lemma save_Inl: "save_locked draw pub tr c disk = (Inl err, disk') \<Longrightarrow> disk' = disk"
  by (auto simp: save_locked_def Let_def split: sum.splits prod.splits if_splits)

lemma copy_rotated_lookup:
  "copy_rotated from ps e = Inr e' \<Longrightarrow>
     if p \<in> set ps then map_of e' p = map_of from p \<and> map_of from p \<noteq> None else map_of e' p = map_of e p"
proof (induction "from" ps e arbitrary: e' rule: copy_rotated.induct)
  case (2 "from" q ps e)
  then obtain u where u: "map_of from q = Some u" "copy_rotated from ps (dict_set q u e) = Inr e'"
    by (auto split: option.splits)
  from 2(1)[OF u] u(1) show ?case by (auto split: if_splits)
qed simp

lemma fold_dict_set:
  "map_of (fold (\<lambda>p e. if P p then dict_set p (h p) e else e) ps e) p = (if p \<in> set ps \<and> P p then Some (h p) else map_of e p)"
  by (induction ps arbitrary: e) auto

lemma new_epochs_lookup:
  "map_of (new_epochs draw f m e) p
     = (if plugin_changed (fl_enabled f) (fl_settings f) m p then Some (JStr (draw p)) else map_of e p)"
proof -
  have "p \<in> set (fl_enabled f @ se_enabled m @ map fst (fl_settings f) @ map fst (se_plugins m))"
    if "plugin_changed (fl_enabled f) (fl_settings f) m p"
  proof (rule ccontr)
    assume "\<not> ?thesis"
    then have "map_of (fl_settings f) p = None" "map_of (se_plugins m) p = None" "p \<notin> set (fl_enabled f)" "p \<notin> set (se_enabled m)"
      by (auto simp: map_of_eq_None_iff)
    with that show False by (simp add: plugin_changed_def)
  qed
  then show ?thesis unfolding new_epochs_def fold_dict_set by auto
qed

section \<open>Saves of several processes\<close>

text \<open>A save by whoever, with whatever was loaded and edited; the lock makes each of them one step.\<close>

datatype save_action = Save config "string \<Rightarrow> string" bool "bool option"

fun do_save :: "save_action \<Rightarrow> cfg_file option \<Rightarrow> cfg_file option" where
  "do_save (Save c draw pub tr) disk = snd (save_locked draw pub tr c disk)"

definition disk_after :: "save_action list \<Rightarrow> cfg_file option \<Rightarrow> cfg_file option" where
  "disk_after as disk = fold do_save as disk"

text \<open>No uuid is \<open>e\<close>: not one the save draws, not one that was drawn to rotate an epoch.\<close>

fun draws_afresh :: "string \<Rightarrow> string \<Rightarrow> save_action \<Rightarrow> bool" where
  "draws_afresh pid e (Save c draw pub tr) \<longleftrightarrow>
     draw pid \<noteq> e \<and> (pid \<in> set (cf_rotated c) \<longrightarrow> map_of (cf_epochs c) pid \<noteq> Some (JStr e))"

fun ordinary :: "save_action \<Rightarrow> bool" where
  "ordinary (Save c draw pub tr) \<longleftrightarrow> tr = None"

definition file_view :: "string \<Rightarrow> cfg_file option \<Rightarrow> bool \<times> json option" where
  "file_view pid disk =
     (case disk of None \<Rightarrow> (False, None) | Some f \<Rightarrow> (pid \<in> set (fl_enabled f), map_option frozen (map_of (fl_settings f) pid)))"

definition epoch_of :: "string \<Rightarrow> cfg_file option \<Rightarrow> json option" where
  "epoch_of pid disk = Option.bind disk (\<lambda>f. map_of (fl_epochs f) pid)"

definition revoked :: "string \<Rightarrow> string \<Rightarrow> cfg_file option \<Rightarrow> bool" where
  "revoked pid e disk \<longleftrightarrow> (\<exists>u. epoch_of pid disk = Some u \<and> u \<noteq> JStr e)"

lemma save_revokes:
  assumes "draws_afresh pid e a"
  shows "file_view pid (do_save a disk) = file_view pid disk \<and> (revoked pid e disk \<longrightarrow> revoked pid e (do_save a disk))
    \<or> revoked pid e (do_save a disk)"
proof -
  obtain c draw pub tr where a: "a = Save c draw pub tr" by (cases a)
  obtain x disk' where s: "save_locked draw pub tr c disk = (x, disk')" by fastforce
  show ?thesis
  proof (cases x)
    case (Inl err)
    with save_Inl[of draw pub tr c disk err disk'] s a show ?thesis by simp
  next
    case (Inr c')
    let ?f = "case disk of None \<Rightarrow> empty_file | Some f \<Rightarrow> f"
    from s[unfolded Inr] obtain m ep f' where m: "disk' = Some f'"
      "copy_rotated (cf_epochs c) (cf_rotated c) (fl_epochs ?f) = Inr ep" "fl_enabled f' = sort (se_enabled m)" "fl_settings f' = se_plugins m"
      "fl_epochs f' = new_epochs draw ?f m ep"
      by (rule save_Inr)
    have v: "file_view pid disk = (pid \<in> set (fl_enabled ?f), map_option frozen (map_of (fl_settings ?f) pid))"
      by (simp add: file_view_def empty_file_def split: option.split)
    have e: "epoch_of pid disk = map_of (fl_epochs ?f) pid"
      by (simp add: epoch_of_def empty_file_def split: option.split)
    note l = copy_rotated_lookup[OF m(2), of pid] new_epochs_lookup[of draw ?f m ep pid]
    from assms a l m s v e show ?thesis
      by (auto simp: revoked_def file_view_def epoch_of_def plugin_changed_def same_def split: if_splits)
  qed
qed

lemma disk_after_simps [simp]: "disk_after [] disk = disk" "disk_after (a # as) disk = disk_after as (do_save a disk)"
  by (simp_all add: disk_after_def)

lemma disk_after_append [simp]: "disk_after (as @ bs) disk = disk_after bs (disk_after as disk)"
  by (simp add: disk_after_def)

lemma stays_revoked: "list_all (draws_afresh pid e) as \<Longrightarrow> revoked pid e disk \<Longrightarrow> revoked pid e (disk_after as disk)"
proof (induction as arbitrary: disk)
  case (Cons a as)
  from save_revokes[of pid e a disk] Cons show ?case by auto
qed simp

lemma change_revokes:
  "list_all (draws_afresh pid e) as \<Longrightarrow> file_view pid (disk_after as disk) \<noteq> file_view pid disk \<Longrightarrow> revoked pid e (disk_after as disk)"
proof (induction as arbitrary: disk)
  case (Cons a as)
  show ?case
  proof (cases "file_view pid (do_save a disk) = file_view pid disk")
    case True
    with Cons show ?thesis by auto
  next
    case False
    with save_revokes[of pid e a disk] Cons.prems have "revoked pid e (do_save a disk)" by auto
    with Cons.prems stays_revoked show ?thesis by simp
  qed
qed simp

lemma revoked_selection: "revoked REMINDERS_ID e disk \<Longrightarrow> current_selection e disk = Inr s \<Longrightarrow> s = []"
  by (auto simp: revoked_def epoch_of_def current_selection_def get_default_def load_path_def Let_def empty_config_def
      split: option.splits json.splits if_splits)

lemma gate_kept: "ordinary a \<Longrightarrow> Option.bind (do_save a disk) fl_gate = Option.bind disk fl_gate"
proof -
  assume "ordinary a"
  then obtain c draw pub where a: "a = Save c draw pub None" by (cases a) auto
  obtain x disk' where s: "save_locked draw pub None c disk = (x, disk')" by fastforce
  show ?thesis
  proof (cases x)
    case (Inl err)
    with save_Inl[of draw pub None c disk err disk'] s a show ?thesis by simp
  next
    case (Inr c')
    with s a show ?thesis by (auto elim: save_Inr)
  qed
qed

lemma gates_kept: "list_all ordinary as \<Longrightarrow> Option.bind (disk_after as disk) fl_gate = Option.bind disk fl_gate"
  by (induction as arbitrary: disk) (auto simp: gate_kept)

lemma shut_selection: "gate_shut (Option.bind disk fl_gate) \<Longrightarrow> current_selection e disk = Inr s \<Longrightarrow> s = []"
  by (auto simp: current_selection_def load_path_def Let_def empty_config_def gate_shut_def split: option.splits json.splits if_splits)

section \<open>Account transitions\<close>

lemma rotate_lookup:
  "p \<in> set ps \<Longrightarrow> distinct ps \<Longrightarrow>
     map_of (cf_epochs (fold (\<lambda>p. rotate_plugin_epoch (us p) p) ps c)) p = Some (JStr (us p)) \<and>
     p \<in> set (cf_rotated (fold (\<lambda>p. rotate_plugin_epoch (us p) p) ps c))"
proof (induction ps rule: rev_induct)
  case (snoc q ps)
  then show ?case by (auto simp: rotate_plugin_epoch_def)
qed simp

lemma rotated_known:
  assumes "p \<in> set (cf_enabled c @ map fst (cf_settings c) @ map fst (cf_epochs c))"
  shows "map_of (cf_epochs (rotate_all us c)) p = Some (JStr (us p))" "p \<in> set (cf_rotated (rotate_all us c))"
proof -
  from assms have "p \<in> set (remdups (cf_enabled c @ map fst (cf_settings c) @ map fst (cf_epochs c)))" by simp
  from rotate_lookup[OF this] show "map_of (cf_epochs (rotate_all us c)) p = Some (JStr (us p))" "p \<in> set (cf_rotated (rotate_all us c))"
    by (simp_all add: rotate_all_def)
qed

text \<open>The plugins a transition knows of.\<close>

definition known :: "string \<Rightarrow> cfg_file option \<Rightarrow> bool" where
  "known pid disk \<longleftrightarrow> (let c = load_path disk in pid \<in> set (cf_enabled c @ map fst (cf_settings c) @ map fst (cf_epochs c)))"

lemma persist_Inr:
  assumes "persist_account_transition draw pub us b disk = (Inr c, disk')"
  shows "Option.bind disk' fl_gate = Some (JBool b)"
    and "known pid disk \<Longrightarrow> draw pid \<noteq> e \<Longrightarrow> us pid \<noteq> e \<Longrightarrow> revoked pid e disk'"
proof -
  let ?f = "case disk of None \<Rightarrow> empty_file | Some f \<Rightarrow> f" and ?c = "rotate_all us (load_path disk)"
  from assms[unfolded persist_account_transition_def] obtain m ep f' where m: "disk' = Some f'"
    "copy_rotated (cf_epochs ?c) (cf_rotated ?c) (fl_epochs ?f) = Inr ep" "fl_epochs f' = new_epochs draw ?f m ep"
    "fl_gate f' = (case Some b of None \<Rightarrow> Option.bind disk fl_gate | Some b \<Rightarrow> Some (JBool b))"
    by (rule save_Inr)
  then show "Option.bind disk' fl_gate = Some (JBool b)" by simp
  assume "known pid disk" "draw pid \<noteq> e" "us pid \<noteq> e"
  moreover from this(1) rotated_known[of pid "load_path disk" us] copy_rotated_lookup[OF m(2), of pid]
  have "map_of ep pid = Some (JStr (us pid))" by (simp add: known_def Let_def)
  ultimately show "revoked pid e disk'"
    using m by (auto simp: revoked_def epoch_of_def new_epochs_lookup)
qed

lemma persist_save: "snd (persist_account_transition draw pub us b disk) = do_save (Save (rotate_all us (load_path disk)) draw pub (Some b)) disk"
  by (simp add: persist_account_transition_def)

section \<open>Properties\<close>

text \<open>C20. No lost update. A save that fails leaves the file alone. A save that returns writes, for every plugin
  whether it is enabled, for every interval and for every single setting of every plugin: what the file
  held, where the caller did not edit it since loading (whatever others saved in between), and what the
  caller asked for where he did; and in the second case nobody else had changed it to something different.\<close>

theorem save_loses_no_update:
  "case save_locked draw published transition c disk of
     (Inl err, disk') \<Rightarrow> disk' = disk
   | (Inr c', disk') \<Rightarrow> \<exists>f'. disk' = Some f' \<and>
       (\<forall>p. merged (flag (se_enabled (cf_baseline c)) p) (flag (cf_enabled c) p) (flag (cf_enabled (load_path disk)) p)
              (p \<in> set (cf_enabled_intents c)) (flag (fl_enabled f') p)
          \<and> merged (map_of (se_intervals (cf_baseline c)) p) (map_of (cf_intervals c) p) (map_of (cf_intervals (load_path disk)) p)
              (p \<in> set (cf_interval_intents c) \<and> map_of (cf_intervals c) p \<noteq> None) (map_of (fl_intervals f') p)
          \<and> (\<forall>k. merged (leaf (se_plugins (cf_baseline c)) p k) (leaf (cf_settings c) p k) (leaf (cf_settings (load_path disk)) p k)
              (k \<in> set (touched_of (cf_setting_intents c) p) \<and> leaf (cf_settings c) p k \<noteq> None) (leaf (fl_settings f') p k)))"
proof -
  obtain x disk' where s: "save_locked draw published transition c disk = (x, disk')" by fastforce
  show ?thesis
  proof (cases x)
    case (Inl err)
    with save_Inl s show ?thesis by auto
  next
    case (Inr c')
    from s[unfolded Inr] obtain m e f' where m: "merge_settings c (load_path disk) = Inr m" "disk' = Some f'"
      "fl_enabled f' = sort (se_enabled m)" "fl_intervals f' = se_intervals m" "fl_settings f' = se_plugins m"
      by (rule save_Inr)
    have "flag (fl_enabled f') p = flag (se_enabled m) p" for p by (simp add: flag_def m(3))
    with m s Inr merge_settings_parts[OF m(1)] merge_flat_leaf merge_nested_leaf show ?thesis by auto
  qed
qed

text \<open>C18. Revoked work stops. Take a task run of the Reminders plugin that was started under the epoch e and
  any saves by anyone since, whose uuids are not e. If at any point in between the plugin was switched off
  or on, or any of its settings was changed, then from that point on, whatever is saved later - switching
  it back included - the run passes no check of consent any more: neither of the checks before a task nor
  of the one inside a lease, so nothing is written after it.\<close>

theorem revoked_work_stops:
  assumes "list_all (draws_afresh REMINDERS_ID e) (as @ bs)"
    and "file_view REMINDERS_ID (disk_after as disk) \<noteq> file_view REMINDERS_ID disk"
    and "stored (rn_world r) = disk_after (as @ bs) disk"
    and "te_selected (cx_env C) = Some (\<lambda>w. (current_selection e (stored w), w))" "\<not> cx_dry C" "cx_selected C \<noteq> []"
    and "\<And>w. stored (snd (te_clock (cx_env C) w)) = stored w"
  shows "fst (guard C coll r) \<noteq> Inr ()"
proof -
  from assms(1,2) change_revokes stays_revoked have "revoked REMINDERS_ID e (disk_after (as @ bs) disk)" by simp
  then have none: "current_selection e (stored (rn_world r)) = Inr s \<Longrightarrow> s = []" for s
    using assms(3) by (simp add: revoked_selection)
  obtain t w where t: "te_clock (cx_env C) (rn_world r) = (t, w)" by fastforce
  with assms(7)[of "rn_world r"] have w: "stored w = stored (rn_world r)" by simp
  show ?thesis
    using assms(4-6) none t w
    by (cases "current_selection e (stored (rn_world r))") (auto simp: guard_def io_bind_def out_val_def out_def split: prod.splits)
qed

text \<open>C21. Account transitions fail closed. A change of the account that fails, in the middle or at either end,
  either left the configuration as it was or leaves the gate shut: until another change succeeds, and
  whatever is saved in the meantime, no task run is given a selection. A change that succeeds opens the
  gate and has revoked all work of the plugins it knew. (While the token is changed, others may save.)\<close>

theorem transition_fails_closed:
  assumes "\<And>d. \<exists>as. list_all ordinary as \<and> list_all (draws_afresh pid e) as \<and> snd (mutate d) = disk_after as d"
    and "fulcra_account_transition draw opens closes us us' mutate disk = (x, disk')"
  shows "case x of
     Inl err \<Rightarrow> disk' = disk \<or> (\<forall>as ep s. list_all ordinary as \<longrightarrow> current_selection ep (disk_after as disk') = Inr s \<longrightarrow> s = [])
   | Inr _ \<Rightarrow> \<not> gate_shut (Option.bind disk' fl_gate)
       \<and> (known pid disk \<and> draw pid \<noteq> e \<and> us pid \<noteq> e \<and> us' pid \<noteq> e \<longrightarrow> revoked pid e disk')"
proof -
  obtain y d1 where y: "persist_account_transition draw opens us True disk = (y, d1)" by fastforce
  show ?thesis
  proof (cases y)
    case (Inl err)
    with y save_Inl[of draw opens "Some True" _ disk err d1] assms(2) show ?thesis
      by (auto simp: fulcra_account_transition_def io_bind_def persist_account_transition_def)
  next
    case (Inr c)
    note first = persist_Inr[OF y[unfolded Inr]]
    obtain z d2 where z: "mutate d1 = (z, d2)" by fastforce
    with assms(1)[of d1] obtain as where as: "list_all ordinary as" "list_all (draws_afresh pid e) as" "d2 = disk_after as d1" by auto
    with first(1) have shut: "Option.bind d2 fl_gate = Some (JBool True)" by (simp add: gates_kept)
    have closed: "current_selection ep (disk_after bs d2) = Inr s \<Longrightarrow> list_all ordinary bs \<Longrightarrow> s = []" for ep bs s
      using shut_selection[of "disk_after bs d2" ep s] gates_kept[of bs d2] shut by (simp add: gate_shut_def)
    show ?thesis
    proof (cases z)
      case (Inl err)
      with assms(2) y Inr z have "x = Inl err" "disk' = d2" by (auto simp: fulcra_account_transition_def io_bind_def)
      with closed show ?thesis by auto
    next
      case (Inr u)
      obtain v d3 where v: "persist_account_transition draw closes us' False d2 = (v, d3)" by fastforce
      with assms(2) y \<open>y = Inr c\<close> z Inr have x: "disk' = d3" "(\<exists>err. x = Inl err \<and> v = Inl err) \<or> x = Inr () \<and> (\<exists>c. v = Inr c)"
        by (auto simp: fulcra_account_transition_def io_bind_def split: sum.splits)
      show ?thesis
      proof (cases v)
        case (Inl err)
        with v save_Inl[of draw closes "Some False" _ d2 err d3] have "d3 = d2" by (simp add: persist_account_transition_def)
        with x Inl closed show ?thesis by auto
      next
        case (Inr c')
        note closing = persist_Inr(1)[OF v[unfolded Inr]]
        have "revoked pid e d3" if k: "known pid disk" "draw pid \<noteq> e" "us pid \<noteq> e" "us' pid \<noteq> e"
        proof -
          from first(2)[OF k(1-3)] as(2,3) have r: "revoked pid e d2" by (simp add: stays_revoked)
          then have "known pid d2"
            by (auto simp: revoked_def epoch_of_def known_def load_path_def Let_def split: option.splits dest!: map_of_SomeD)
              force+
          from persist_Inr(2)[OF v[unfolded Inr] this k(2,4)] show ?thesis .
        qed
        with x Inr closing show ?thesis by (auto simp: gate_shut_def)
      qed
    qed
  qed
qed

section \<open>Concrete runs\<close>

text \<open>The plugin enabled for one list; somebody switches it off and on again.\<close>

definition demo_file :: cfg_file where
  "demo_file = \<lparr>fl_enabled = [REMINDERS_ID], fl_intervals = [],
     fl_settings = [(REMINDERS_ID, JObj [(''dry_run'', JBool False), (''selected_lists'', JArr [JStr ''L1''])])],
     fl_epochs = [(REMINDERS_ID, JStr ''e0'')], fl_port = None, fl_gate = None\<rparr>"

definition switch_off :: save_action where
  "switch_off = Save (disable REMINDERS_ID (load_path (Some demo_file))) (\<lambda>_. ''e1'') True None"

definition switch_on :: save_action where
  "switch_on = Save (enable REMINDERS_ID (load_path (do_save switch_off (Some demo_file)))) (\<lambda>_. ''e2'') True None"

definition consent_env :: "cfg_file option tenv" where
  "consent_env = \<lparr>pv_name = ''todo'', pv_namespace = Some ''me'', pv_collections = io_return [], pv_tasks = (\<lambda>_. io_return []),
     pv_get_task = (\<lambda>_. io_return None), pv_complete = (\<lambda>_ _ _. io_raise ''Timeout''), vt_namespace = io_return ''vault'',
     vt_set_deadline = (\<lambda>_ w. w), vt_versions = (\<lambda>_. io_return []), vt_read = (\<lambda>_. io_raise ''KeyError''),
     vt_write = (\<lambda>_ _. io_return ''v2''), kv_load = (\<lambda>_. io_return JNull), kv_save = (\<lambda>_ _. io_return True), te_clock = (\<lambda>w. (0, w)),
     te_selected = Some (\<lambda>w. (current_selection ''e0'' w, w)), te_uuid = (\<lambda>w. (''u1'', w)), te_enter = io_return (), te_leave = (\<lambda>w. w),
     te_sha = (\<lambda>_. ''h''), te_sha_text = (\<lambda>s. s), yaml_aliases = (\<lambda>_. Inr False), yaml_node = (\<lambda>_. Inr (YMap [])), yaml_dump = (\<lambda>_. [])\<rparr>"

definition consent_ctx :: "cfg_file option ctx" where
  "consent_ctx = \<lparr>cx_env = consent_env, cx_dry = False, cx_deadline = 600, cx_selected = [''L1'']\<rparr>"

lemma demo_consents: "current_selection ''e0'' (Some demo_file) = Inr [''L1'']"
  by code_simp

lemma demo_switched: "file_view REMINDERS_ID (disk_after [switch_off] (Some demo_file)) \<noteq> file_view REMINDERS_ID (Some demo_file)"
  by code_simp

lemma demo_fresh_saves: "list_all (draws_afresh REMINDERS_ID ''e0'') ([switch_off] @ [switch_on])"
  by code_simp

theorem revoked_work_stops_witness:
  "current_selection ''e0'' (Some demo_file) = Inr [''L1'']
   \<and> fst (guard consent_ctx None (empty_run (disk_after ([switch_off] @ [switch_on]) (Some demo_file)))) \<noteq> Inr ()"
proof -
  have "fst (guard consent_ctx None (empty_run (disk_after ([switch_off] @ [switch_on]) (Some demo_file)))) \<noteq> Inr ()"
    by (rule revoked_work_stops[OF demo_fresh_saves demo_switched, where stored = id])
      (simp_all add: empty_run_def consent_ctx_def consent_env_def)
  with demo_consents show ?thesis by blast
qed

text \<open>The token was changed, and the configuration could not be written afterwards.\<close>

lemma demo_half_transition:
  "fst (fulcra_account_transition (\<lambda>_. ''n'') True False (\<lambda>_. ''u'') (\<lambda>_. ''v'') (io_return ()) (Some demo_file)) = Inl ''OSError''"
  "snd (fulcra_account_transition (\<lambda>_. ''n'') True False (\<lambda>_. ''u'') (\<lambda>_. ''v'') (io_return ()) (Some demo_file)) \<noteq> Some demo_file"
  by code_simp+

theorem transition_fails_closed_witness:
  "\<exists>disk'. fulcra_account_transition (\<lambda>_. ''n'') True False (\<lambda>_. ''u'') (\<lambda>_. ''v'') (io_return ()) (Some demo_file) = (Inl ''OSError'', disk')
     \<and> (\<forall>ep s. current_selection ep disk' = Inr s \<longrightarrow> s = [])"
proof -
  obtain x disk' where r: "fulcra_account_transition (\<lambda>_. ''n'') True False (\<lambda>_. ''u'') (\<lambda>_. ''v'') (io_return ()) (Some demo_file) = (x, disk')"
    by fastforce
  with demo_half_transition have x: "x = Inl ''OSError''" "disk' \<noteq> Some demo_file" by simp_all
  have "\<exists>as. list_all ordinary as \<and> list_all (draws_afresh REMINDERS_ID ''e0'') as \<and> snd (io_return () d) = disk_after as d" for d
    by (intro exI[of _ "[]"]) simp
  from transition_fails_closed[OF this r] x
  have "\<forall>as ep s. list_all ordinary as \<longrightarrow> current_selection ep (disk_after as disk') = Inr s \<longrightarrow> s = []" by simp
  then have "current_selection ep disk' = Inr s \<longrightarrow> s = []" for ep s
    by (auto dest: spec[of _ "[]"])
  with r x show ?thesis by blast
qed

end
