(* ===== verification/Collect_Schedule.thy ===== *)
theory Collect_Schedule
  imports Collect_Config Py_Time
begin

text \<open>
  packages/collect: what the daemon decides at every tick. scheduler.py chooses the scheduled plugins that
  are due, supervisor.py keeps service plugins alive with a backoff and gives up on a crash loop,
  freshness.py judges whether a source still produces, and state.py keeps the record of a plugin's runs.

  Instants of the daemon's own clock are microseconds; a stored time is a datetime with or without an
  offset, and subtracting one without from one with an offset raises TypeError.
\<close>

record expectation =
  ex_yield_silence :: "int option"
  ex_upstream_lag :: "int option"

record plugin =
  pl_id :: string
  pl_kind :: string
  pl_default_interval :: "int option"
  pl_requires_network :: bool
  pl_freshness :: "expectation option"

record plugin_state =
  ps_plugin_id :: string
  ps_last_run :: "pydt option"
  ps_last_outcome :: json
  ps_last_error :: json
  ps_failures :: int
  ps_watermark :: json
  ps_definition_id :: json
  ps_validated_at :: json
  ps_last_yield :: "pydt option"
  ps_newest_item :: "pydt option"

text \<open>\<open>now - t\<close> for a \<open>now\<close> with an offset.\<close>

definition since :: "int \<Rightarrow> pydt \<Rightarrow> string + int" where
  "since now t = (if off t = None then Inl ''TypeError'' else Inr (now - utc_us t))"

section \<open>The scheduler\<close>

definition effective_interval :: "plugin \<Rightarrow> config \<Rightarrow> string + int" where
  "effective_interval p c =
     (case map_of (cf_intervals c) (pl_id p) of
        Some (JNum n) \<Rightarrow> Inr (n * second_us)
      | Some (JBool b) \<Rightarrow> Inr (if b then second_us else 0)
      | Some _ \<Rightarrow> Inl ''TypeError''
      | None \<Rightarrow> (case pl_default_interval p of None \<Rightarrow> Inl ''AssertionError'' | Some d \<Rightarrow> Inr d))"

definition is_due :: "config \<Rightarrow> (string \<times> plugin_state) list \<Rightarrow> int \<Rightarrow> bool \<Rightarrow> string \<Rightarrow> plugin \<Rightarrow> string + bool" where
  "is_due c states now online pid p =
     (if pl_kind p \<noteq> ''scheduled'' \<or> pid \<notin> set (cf_enabled c) then Inr False
      else if pl_requires_network p \<and> \<not> online then Inr False
      else case Option.bind (map_of states pid) ps_last_run of
             None \<Rightarrow> Inr True
           | Some t \<Rightarrow> res_bind (since now t) (\<lambda>age. res_bind (effective_interval p c) (\<lambda>d. Inr (d \<le> age))))"

fun due_among :: "config \<Rightarrow> (string \<times> plugin_state) list \<Rightarrow> int \<Rightarrow> bool \<Rightarrow> (string \<times> plugin) list \<Rightarrow> string + string list" where
  "due_among c states now online [] = Inr []"
| "due_among c states now online ((pid, p) # ps) =
     res_bind (is_due c states now online pid p) (\<lambda>b.
     res_bind (due_among c states now online ps) (\<lambda>rest. Inr (if b then pid # rest else rest)))"

definition due_plugins :: "(string \<times> plugin) list \<Rightarrow> config \<Rightarrow> (string \<times> plugin_state) list \<Rightarrow> int \<Rightarrow> bool \<Rightarrow> string + string list" where
  "due_plugins plugins c states now online = due_among c states now online (sort_key fst plugins)"

section \<open>The supervisor\<close>

definition CRASH_WINDOW :: int where "CRASH_WINDOW = 60 * second_us"
definition CRASH_LOOP_THRESHOLD :: nat where "CRASH_LOOP_THRESHOLD = 6"
definition BASE_BACKOFF :: int where "BASE_BACKOFF = second_us"
definition MAX_BACKOFF :: int where "MAX_BACKOFF = 60 * second_us"
definition DEGRADED_RECOVERY_COOLDOWN :: int where "DEGRADED_RECOVERY_COOLDOWN = 300 * second_us"

record restart_decision =
  should_restart :: bool
  backoff :: int
  degraded_now :: bool

text \<open>The list holds at least the exit that just happened, which is in the window.\<close>

definition decide_restart :: "int list \<Rightarrow> int \<Rightarrow> restart_decision" where
  "decide_restart recent_exits now =
     (let in_window = filter (\<lambda>t. now - t \<le> CRASH_WINDOW) recent_exits in
      if CRASH_LOOP_THRESHOLD \<le> length in_window then \<lparr>should_restart = False, backoff = 0, degraded_now = True\<rparr>
      else \<lparr>should_restart = True, backoff = min (BASE_BACKOFF * 2 ^ (length in_window - 1)) MAX_BACKOFF, degraded_now = False\<rparr>)"

text \<open>
  A worker process is a number. What the operating system answers in one tick is an argument: the return
  code of a process, \<open>None\<close> while it runs, and what starting a worker gives, \<open>None\<close> when it raises OSError.
\<close>

record supervisor =
  sv_procs :: "(string \<times> nat) list"
  sv_exits :: "(string \<times> int list) list"
  sv_backoff :: "(string \<times> int) list"
  sv_degraded :: "string list"

definition new_supervisor :: supervisor where
  "new_supervisor = \<lparr>sv_procs = [], sv_exits = [], sv_backoff = [], sv_degraded = []\<rparr>"

definition exits_of :: "supervisor \<Rightarrow> string \<Rightarrow> int list" where
  "exits_of s pid = (case map_of (sv_exits s) pid of None \<Rightarrow> [] | Some ts \<Rightarrow> ts)"

definition add_exit :: "string \<Rightarrow> int \<Rightarrow> supervisor \<Rightarrow> supervisor" where
  "add_exit pid now s = s\<lparr>sv_exits := dict_set pid (exits_of s pid @ [now]) (sv_exits s)\<rparr>"

definition spawn_worker :: "(string \<Rightarrow> nat option) \<Rightarrow> int \<Rightarrow> string \<Rightarrow> supervisor \<Rightarrow> supervisor" where
  "spawn_worker spawn now pid s =
     (case spawn pid of
        Some proc \<Rightarrow> s\<lparr>sv_procs := dict_set pid proc (sv_procs s)\<rparr>
      | None \<Rightarrow>
          let s = add_exit pid now s; d = decide_restart (exits_of s pid) now in
          if \<not> should_restart d then s\<lparr>sv_degraded := List.insert pid (sv_degraded s), sv_backoff := dict_pop pid (sv_backoff s)\<rparr>
          else s\<lparr>sv_backoff := dict_set pid (now + backoff d) (sv_backoff s)\<rparr>)"

fun drop_disabled :: "string list \<Rightarrow> string list \<Rightarrow> supervisor \<Rightarrow> supervisor" where
  "drop_disabled enabled [] s = s"
| "drop_disabled enabled (pid # pids) s =
     drop_disabled enabled pids
       (if pid \<in> set enabled then s
        else s\<lparr>sv_procs := dict_pop pid (sv_procs s), sv_exits := dict_pop pid (sv_exits s),
               sv_backoff := dict_pop pid (sv_backoff s), sv_degraded := removeAll pid (sv_degraded s)\<rparr>)"

definition wait_or_spawn :: "(string \<Rightarrow> nat option) \<Rightarrow> int \<Rightarrow> string \<Rightarrow> supervisor \<Rightarrow> supervisor" where
  "wait_or_spawn spawn now pid s =
     (if (case map_of (sv_backoff s) pid of None \<Rightarrow> now | Some t \<Rightarrow> t) \<le> now then spawn_worker spawn now pid s else s)"

definition crashed :: "(string \<Rightarrow> nat option) \<Rightarrow> int \<Rightarrow> string \<Rightarrow> supervisor \<Rightarrow> supervisor" where
  "crashed spawn now pid s =
     (let s = add_exit pid now s; d = decide_restart (exits_of s pid) now in
      if \<not> should_restart d then s\<lparr>sv_degraded := List.insert pid (sv_degraded s)\<rparr>
      else wait_or_spawn spawn now pid (s\<lparr>sv_backoff := dict_set pid (now + backoff d) (sv_backoff s)\<rparr>))"

definition observe_worker :: "(nat \<Rightarrow> int option) \<Rightarrow> (string \<Rightarrow> nat option) \<Rightarrow> int \<Rightarrow> string \<Rightarrow> supervisor \<Rightarrow> supervisor" where
  "observe_worker poll spawn now pid s =
     (case map_of (sv_procs s) pid of
        None \<Rightarrow> wait_or_spawn spawn now pid s
      | Some proc \<Rightarrow>
          (case poll proc of
             None \<Rightarrow> s
           | Some rc \<Rightarrow>
               let s = s\<lparr>sv_procs := dict_pop pid (sv_procs s)\<rparr> in
               if rc = 0 then spawn_worker spawn now pid s else crashed spawn now pid s))"

definition cooled_down :: "int \<Rightarrow> string \<Rightarrow> supervisor \<Rightarrow> bool" where
  "cooled_down now pid s \<longleftrightarrow> exits_of s pid \<noteq> [] \<and> DEGRADED_RECOVERY_COOLDOWN < now - Max (set (exits_of s pid))"

definition one_more_chance :: "string \<Rightarrow> supervisor \<Rightarrow> supervisor" where
  "one_more_chance pid s = s\<lparr>sv_degraded := removeAll pid (sv_degraded s), sv_exits := dict_pop pid (sv_exits s)\<rparr>"

definition tick_one :: "(nat \<Rightarrow> int option) \<Rightarrow> (string \<Rightarrow> nat option) \<Rightarrow> int \<Rightarrow> string \<Rightarrow> supervisor \<Rightarrow> supervisor" where
  "tick_one poll spawn now pid s =
     (if pid \<notin> set (sv_degraded s) then observe_worker poll spawn now pid s
      else if cooled_down now pid s then observe_worker poll spawn now pid (one_more_chance pid s)
      else s)"

definition tick :: "(nat \<Rightarrow> int option) \<Rightarrow> (string \<Rightarrow> nat option) \<Rightarrow> int \<Rightarrow> string list \<Rightarrow> supervisor \<Rightarrow> supervisor" where
  "tick poll spawn now enabled s =
     fold (tick_one poll spawn now) (sorted_set enabled) (drop_disabled enabled (map fst (sv_procs s)) s)"

definition shutdown_all :: "supervisor \<Rightarrow> supervisor" where
  "shutdown_all s = s\<lparr>sv_procs := []\<rparr>"

section \<open>Freshness\<close>

datatype freshness = FRESH | STALE | UNKNOWN_FRESHNESS | NOT_CONFIGURED

record freshness_report =
  fr_state :: freshness
  fr_summary :: string
  fr_yield_age :: "int option"
  fr_upstream_age :: "int option"
  fr_clock_skew :: bool

definition is_configured :: "expectation \<Rightarrow> bool" where
  "is_configured e \<longleftrightarrow> ex_yield_silence e \<noteq> None \<or> ex_upstream_lag e \<noteq> None"

text \<open>What \<open>FreshnessExpectation\<close> accepts.\<close>

definition expectation_ok :: "expectation \<Rightarrow> bool" where
  "expectation_ok e \<longleftrightarrow> pred_option (\<lambda>b. 0 < b) (ex_yield_silence e) \<and> pred_option (\<lambda>b. 0 < b) (ex_upstream_lag e)"

definition is_alerting :: "freshness_report \<Rightarrow> bool" where
  "is_alerting r \<longleftrightarrow> fr_state r = STALE"

definition CLOCK_SKEW_TOLERANCE :: int where "CLOCK_SKEW_TOLERANCE = 300 * second_us"

text \<open>\<open>parse_instant\<close>: a datetime without an offset is taken to be UTC.\<close>

definition parse_instant :: "pydt option \<Rightarrow> pydt option" where
  "parse_instant v = map_option (\<lambda>t. if off t = None then t\<lparr>off := Some 0\<rparr> else t) v"

definition text_instant :: "string option \<Rightarrow> pydt option" where
  "text_instant v = parse_instant (Option.bind v fromisoformat)"

definition age :: "int \<Rightarrow> pydt option \<Rightarrow> int option" where
  "age now t = map_option (\<lambda>t. now - utc_us t) (parse_instant t)"

definition humanize :: "int \<Rightarrow> string" where
  "humanize us =
     (let seconds = (if us < 0 then - (- us div second_us) else us div second_us); minutes = seconds div 60; hours = minutes div 60;
          mins = minutes mod 60; days = hours div 24; hrs = hours mod 24 in
      if seconds < 60 then int_str seconds @ ''s''
      else if minutes < 60 then int_str minutes @ ''m''
      else if hours < 24 then (if mins = 0 then int_str hours @ ''h'' else int_str hours @ ''h '' @ int_str mins @ ''m'')
      else (if hrs = 0 then int_str days @ ''d'' else int_str days @ ''d '' @ int_str hrs @ ''h''))"

record judgement =
  jd_age :: "int option"
  jd_breach :: "string option"
  jd_unknown :: "string option"
  jd_skewed :: bool

definition judge :: "int option \<Rightarrow> int option \<Rightarrow> string \<Rightarrow> (string \<Rightarrow> string \<Rightarrow> string) \<Rightarrow> judgement" where
  "judge a bound missing breach =
     (case bound of
        None \<Rightarrow> \<lparr>jd_age = a, jd_breach = None, jd_unknown = None, jd_skewed = False\<rparr>
      | Some b \<Rightarrow>
          (case a of
             None \<Rightarrow> \<lparr>jd_age = None, jd_breach = None, jd_unknown = Some missing, jd_skewed = False\<rparr>
           | Some x \<Rightarrow>
               if x < - CLOCK_SKEW_TOLERANCE
               then \<lparr>jd_age = a, jd_breach = None, jd_unknown = Some ''timestamp is in the future - clock skew'', jd_skewed = True\<rparr>
               else let x = max x 0 in
                 \<lparr>jd_age = Some x, jd_breach = (if b < x then Some (breach (humanize x) (humanize b)) else None),
                  jd_unknown = None, jd_skewed = False\<rparr>))"

definition some_list :: "'a option list \<Rightarrow> 'a list" where
  "some_list xs = map the (filter (\<lambda>x. x \<noteq> None) xs)"

fun join_semi :: "string list \<Rightarrow> string" where
  "join_semi [] = []"
| "join_semi [s] = s"
| "join_semi (s # ss) = s @ ''; '' @ join_semi ss"

definition assess :: "int \<Rightarrow> expectation option \<Rightarrow> pydt option \<Rightarrow> pydt option \<Rightarrow> freshness_report" where
  "assess now e last_yield_at newest_item_at =
     (case e of
        None \<Rightarrow> \<lparr>fr_state = NOT_CONFIGURED, fr_summary = ''no freshness expectation declared - not monitored'',
                 fr_yield_age = None, fr_upstream_age = None, fr_clock_skew = False\<rparr>
      | Some e \<Rightarrow>
          if \<not> is_configured e
          then \<lparr>fr_state = NOT_CONFIGURED, fr_summary = ''no freshness expectation declared - not monitored'',
                fr_yield_age = None, fr_upstream_age = None, fr_clock_skew = False\<rparr>
          else
            let y = judge (age now last_yield_at) (ex_yield_silence e) ''has never accepted a record''
                      (\<lambda>a l. ''collected nothing for '' @ a @ '' (limit '' @ l @ '')'');
                u = judge (age now newest_item_at) (ex_upstream_lag e) ''no source timestamp recorded yet''
                      (\<lambda>a l. ''newest item is '' @ a @ '' old (limit '' @ l @ '')'');
                breaches = some_list [jd_breach y, jd_breach u]; unknowns = some_list [jd_unknown y, jd_unknown u];
                skewed = jd_skewed y \<or> jd_skewed u
            in if breaches \<noteq> []
               then \<lparr>fr_state = STALE, fr_summary = join_semi breaches, fr_yield_age = jd_age y, fr_upstream_age = jd_age u, fr_clock_skew = skewed\<rparr>
               else if unknowns \<noteq> []
               then \<lparr>fr_state = UNKNOWN_FRESHNESS, fr_summary = join_semi unknowns @ '' - nothing proven either way'',
                     fr_yield_age = jd_age y, fr_upstream_age = jd_age u, fr_clock_skew = skewed\<rparr>
               else \<lparr>fr_state = FRESH, fr_summary = ''producing within expectation'', fr_yield_age = jd_age y,
                     fr_upstream_age = jd_age u, fr_clock_skew = False\<rparr>)"

section \<open>The record of runs\<close>

definition new_state :: "string \<Rightarrow> plugin_state" where
  "new_state pid = \<lparr>ps_plugin_id = pid, ps_last_run = None, ps_last_outcome = JNull, ps_last_error = JNull, ps_failures = 0,
     ps_watermark = JNull, ps_definition_id = JNull, ps_validated_at = JNull, ps_last_yield = None, ps_newest_item = None\<rparr>"

definition record_finish :: "json \<Rightarrow> pydt \<Rightarrow> json \<Rightarrow> plugin_state \<Rightarrow> plugin_state" where
  "record_finish outcome w err st =
     st\<lparr>ps_last_run := Some w, ps_last_outcome := outcome, ps_last_error := err,
        ps_failures := (if outcome = JStr ''done'' then 0 else ps_failures st + 1)\<rparr>"

text \<open>\<open>astimezone(utc)\<close> raises OverflowError when the instant lies outside the years 1 to 9999.\<close>

definition MIN_UTC :: int where "MIN_UTC = (1 - epoch_ord) * 24 * hour_us"
definition MAX_UTC :: int where "MAX_UTC = (3652060 - epoch_ord) * 24 * hour_us"

definition to_canonical_utc :: "pydt \<Rightarrow> string + pydt" where
  "to_canonical_utc t =
     (if utc_us t < MIN_UTC \<or> MAX_UTC \<le> utc_us t then Inl ''OverflowError'' else Inr \<lparr>wall = utc_us t, off = Some 0\<rparr>)"

definition record_yield :: "pydt \<Rightarrow> pydt option \<Rightarrow> plugin_state \<Rightarrow> string + plugin_state" where
  "record_yield w observed_at st =
     (let st = st\<lparr>ps_last_yield := Some w\<rparr> in
      case parse_instant observed_at of
        None \<Rightarrow> Inr st
      | Some incoming \<Rightarrow>
          if (case parse_instant (ps_newest_item st) of None \<Rightarrow> True | Some current \<Rightarrow> utc_us current < utc_us incoming)
          then res_bind (to_canonical_utc incoming) (\<lambda>t. Inr (st\<lparr>ps_newest_item := Some t\<rparr>))
          else Inr st)"

end
