(* ===== verification/Collect_Runner.thy ===== *)
theory Collect_Runner
  imports Collect_Schedule Py_IO
begin

text \<open>
  packages/collect: one run of a plugin. runner.py drains the worker's pipes into bounded tails, reads its
  event lines and records the outcome; worker.py is the other end, with the redaction of secrets; activity.py
  is the feed of receipts.

  A line of the worker's output is represented by what \<open>json.loads\<close> makes of it, None when it is blank or
  no JSON. Receipts are kept without their time. The ellipsis is written as three dots.
\<close>

section \<open>Bounded tails\<close>

record 'a tail =
  tl_data :: "'a list"
  tl_total :: nat

definition MAX_STDOUT_CAPTURE_BYTES :: nat where "MAX_STDOUT_CAPTURE_BYTES = 4 * 1024 * 1024"
definition MAX_STDERR_CAPTURE_BYTES :: nat where "MAX_STDERR_CAPTURE_BYTES = 512 * 1024"

definition new_tail :: "'a tail" where
  "new_tail = \<lparr>tl_data = [], tl_total = 0\<rparr>"

definition tail_append :: "nat \<Rightarrow> 'a list \<Rightarrow> 'a tail \<Rightarrow> 'a tail" where
  "tail_append limit chunk t =
     (let all = tl_total t + length chunk in
      if limit \<le> length chunk then \<lparr>tl_data = keep_last limit chunk, tl_total = all\<rparr>
      else let d = tl_data t @ chunk in
        \<lparr>tl_data = (if limit < length d then drop (length d - limit) d else d), tl_total = all\<rparr>)"

definition truncated :: "nat \<Rightarrow> 'a tail \<Rightarrow> bool" where
  "truncated limit t \<longleftrightarrow> limit < tl_total t"

definition drain :: "nat \<Rightarrow> 'a list list \<Rightarrow> 'a tail" where
  "drain limit chunks = fold (tail_append limit) chunks new_tail"

section \<open>Redaction\<close>

definition SECRET_PARAM_NAMES :: "string list" where
  "SECRET_PARAM_NAMES = [''token'', ''key'', ''secret'', ''password'', ''passwd'', ''pwd'', ''auth'', ''access_token'', ''refresh_token'',
     ''api_key'', ''apikey'', ''bearer'', ''sig'', ''signature'']"

definition ascii_alnum :: "char \<Rightarrow> bool" where
  "ascii_alnum c = (let n = of_char c :: nat in 48 \<le> n \<and> n \<le> 57 \<or> 65 \<le> n \<and> n \<le> 90 \<or> 97 \<le> n \<and> n \<le> 122)"

text \<open>\<open>\w\<close>: letters, numbers and the underscore.\<close>

definition word_char :: "char \<Rightarrow> bool" where
  "word_char c = (let n = of_char c :: nat in
     ascii_alnum c \<or> n = 95 \<or> n \<in> {170, 178, 179, 181, 185, 186, 188, 189, 190} \<or> 192 \<le> n \<and> n \<noteq> 215 \<and> n \<noteq> 247)"

text \<open>\<open>[^&\s"']\<close>.\<close>

definition value_char :: "char \<Rightarrow> bool" where
  "value_char c \<longleftrightarrow> c \<noteq> CHR ''&'' \<and> \<not> is_space c \<and> c \<noteq> CHR 0x22 \<and> c \<noteq> CHR 0x27"

text \<open>The name of a parameter whose value begins here, and what follows the equals sign.\<close>

definition secret_here :: "string \<Rightarrow> (string \<times> string) option" where
  "secret_here s =
     (case find (\<lambda>n. lower (take (length n) s) = n \<and> take 1 (drop (length n) s) = ''='') SECRET_PARAM_NAMES of
        None \<Rightarrow> None
      | Some n \<Rightarrow>
          (case drop (Suc (length n)) s of
             [] \<Rightarrow> None | c # r \<Rightarrow> if value_char c then Some (take (length n) s, c # r) else None))"

function redact_params :: "bool \<Rightarrow> string \<Rightarrow> string" where
  "redact_params inside [] = []"
| "redact_params inside (c # s) =
     (case (if inside then None else secret_here (c # s)) of
        Some (name, rest) \<Rightarrow> name @ ''=<redacted>'' @ redact_params False (dropWhile value_char rest)
      | None \<Rightarrow> c # redact_params (word_char c) s)"
  by pat_completeness auto

lemma secret_here_Some:
  assumes "secret_here s = Some (name, rest)"
  shows "s = name @ ''='' @ rest" "lower name \<in> set SECRET_PARAM_NAMES" "rest \<noteq> []" "value_char (hd rest)"
proof -
  from assms obtain n where n: "find (\<lambda>n. lower (take (length n) s) = n \<and> take 1 (drop (length n) s) = ''='') SECRET_PARAM_NAMES = Some n"
    and r: "(case drop (Suc (length n)) s of [] \<Rightarrow> None | c # r \<Rightarrow> if value_char c then Some (take (length n) s, c # r) else None) = Some (name, rest)"
    unfolding secret_here_def by (auto split: option.splits)
  from r have rest: "drop (Suc (length n)) s = rest" "name = take (length n) s" "rest \<noteq> []" "value_char (hd rest)"
    by (cases "drop (Suc (length n)) s"; auto split: if_splits)+
  from n have e: "lower (take (length n) s) = n" "take 1 (drop (length n) s) = ''=''" "n \<in> set SECRET_PARAM_NAMES"
    by (auto simp: find_Some_iff)
  have "s = take (length n) s @ take 1 (drop (length n) s) @ drop (Suc (length n)) s"
    by (metis append_take_drop_id drop_drop plus_1_eq_Suc)
  with e rest show "s = name @ ''='' @ rest" "lower name \<in> set SECRET_PARAM_NAMES" by auto
  from rest show "rest \<noteq> []" "value_char (hd rest)" by auto
qed

termination redact_params
proof (relation "measure (length \<circ> snd)")
  fix inside c s x name rest
  assume "(if inside then None else secret_here (c # s)) = Some x" "(name, rest) = x"
  then have "c # s = name @ ''='' @ rest" by (auto split: if_splits dest: secret_here_Some)
  then have "length (c # s) = length name + 1 + length rest" by simp
  then show "((False, dropWhile value_char rest), inside, c # s) \<in> measure (length \<circ> snd)"
    using length_dropWhile_le[of value_char rest] by simp
qed auto

text \<open>\<open>[A-Za-z0-9._\-+/=]\<close>.\<close>

definition token_char :: "char \<Rightarrow> bool" where
  "token_char c \<longleftrightarrow> ascii_alnum c \<or> c \<in> set ''._-+/=''"

definition bearer_here :: "string \<Rightarrow> string option" where
  "bearer_here s =
     (if lower (take 6 s) = ''bearer'' \<and> takeWhile is_space (drop 6 s) \<noteq> [] then
        (case dropWhile is_space (drop 6 s) of [] \<Rightarrow> None | c # r \<Rightarrow> if token_char c then Some (c # r) else None)
      else None)"

function redact_bearer :: "bool \<Rightarrow> string \<Rightarrow> string" where
  "redact_bearer inside [] = []"
| "redact_bearer inside (c # s) =
     (case (if inside then None else bearer_here (c # s)) of
        Some rest \<Rightarrow> ''Bearer <redacted>'' @
          redact_bearer (case takeWhile token_char rest of [] \<Rightarrow> False | t \<Rightarrow> word_char (last t)) (dropWhile token_char rest)
      | None \<Rightarrow> c # redact_bearer (word_char c) s)"
  by pat_completeness auto

lemma bearer_here_length: "bearer_here s = Some rest \<Longrightarrow> length rest < length s"
proof -
  assume "bearer_here s = Some rest"
  then have "rest = dropWhile is_space (drop 6 s)" "drop 6 s \<noteq> []"
    by (auto simp: bearer_here_def split: if_splits list.splits)
  then show ?thesis using length_dropWhile_le[of is_space "drop 6 s"] by (cases s) auto
qed

termination redact_bearer
proof (relation "measure (length \<circ> snd)")
  fix inside c s rest
  assume "(if inside then None else bearer_here (c # s)) = Some rest"
  then have "length rest < length (c # s)" by (auto split: if_splits dest: bearer_here_length)
  then show "(((case takeWhile token_char rest of [] \<Rightarrow> False | t \<Rightarrow> word_char (last t)), dropWhile token_char rest), inside, c # s)
      \<in> measure (length \<circ> snd)"
    using length_dropWhile_le[of token_char rest] by simp
qed auto

definition MAX_ERROR_LEN :: nat where "MAX_ERROR_LEN = 4000"

definition scrub_secrets :: "string \<Rightarrow> string" where
  "scrub_secrets s =
     (let s = redact_bearer False (redact_params False s) in
      if MAX_ERROR_LEN < length s then take MAX_ERROR_LEN s @ ''... (truncated)'' else s)"

section \<open>The feed of receipts\<close>

record receipt =
  rc_plugin :: string
  rc_summary :: json
  rc_ok :: json

definition BUFFER_SIZE :: nat where "BUFFER_SIZE = 200"

definition add_receipt :: "receipt \<Rightarrow> receipt list \<Rightarrow> receipt list" where
  "add_receipt r buf = keep_last BUFFER_SIZE (buf @ [r])"

text \<open>Newest first.\<close>

definition recent :: "nat \<Rightarrow> receipt list \<Rightarrow> receipt list" where
  "recent limit buf = rev (if limit = 0 then buf else keep_last limit buf)"

section \<open>The worker\<close>

text \<open>
  What the worker writes: for a missing credential one result; otherwise the events of the plugin's run and
  the result, with the state the plugin left, whether it returned or raised.
\<close>

datatype plugin_end = Returned | Raised string

definition result_event :: "json \<Rightarrow> json \<Rightarrow> plugin_state \<Rightarrow> json" where
  "result_event outcome err st =
     JObj [(''type'', JStr ''result''), (''outcome'', outcome), (''error'', err), (''watermark'', ps_watermark st),
       (''definition_id'', ps_definition_id st), (''definition_validated_at'', ps_validated_at st)]"

definition missing_credentials :: "(string \<times> bool) list \<Rightarrow> (string \<Rightarrow> string option) \<Rightarrow> string list" where
  "missing_credentials required creds =
     sort (map fst (filter (\<lambda>(k, needed). needed \<and> (creds k = None \<or> creds k = Some [])) required))"

definition run_plugin :: "string \<Rightarrow> (string \<times> bool) list \<Rightarrow> (string \<Rightarrow> string option) \<Rightarrow> plugin_state
    \<Rightarrow> json list \<times> plugin_state \<times> plugin_end \<Rightarrow> string \<times> json list" where
  "run_plugin pid required creds st plugin_run =
     (let missing = missing_credentials required creds in
      if missing \<noteq> [] then
        (''error'', [result_event (JStr ''error'') (JStr (''missing required credential(s): '' @ join '', '' missing
           @ '' - set with: fulcra-collect set-credential '' @ pid @ '' <key>'')) st])
      else case plugin_run of (events, st', how) \<Rightarrow>
        (case how of
           Returned \<Rightarrow> (''done'', events @ [result_event (JStr ''done'') JNull st'])
         | Raised err \<Rightarrow> (''error'', events @ [result_event (JStr ''error'') (JStr (scrub_secrets err)) st'])))"

section \<open>The runner\<close>

text \<open>How the worker process ended. The lines a worker wrote before it was killed are there, and not read.\<close>

datatype worker_end =
    Captured "doc list" string bool
  | TimedOut "doc list"
  | NotLaunched string
  | BrokeAfterLaunch string

record run_world =
  rw_states :: "(string \<times> plugin_state) list"
  rw_feed :: "receipt list"

record run_acc =
  ra_outcome :: json
  ra_error :: json
  ra_watermark :: json
  ra_definition :: json
  ra_validated :: json
  ra_annotations :: nat
  ra_accepted :: nat
  ra_newest :: "pydt option"

definition NO_RESULT :: json where "NO_RESULT = JStr ''worker emitted no result''"

definition start_acc :: run_acc where
  "start_acc = \<lparr>ra_outcome = JStr ''error'', ra_error = NO_RESULT, ra_watermark = JNull, ra_definition = JNull, ra_validated = JNull,
     ra_annotations = 0, ra_accepted = 0, ra_newest = None\<rparr>"

definition observed_instant :: "json \<Rightarrow> pydt option" where
  "observed_instant v = (case v of JStr s \<Rightarrow> text_instant (Some s) | _ \<Rightarrow> None)"

definition newer :: "pydt option \<Rightarrow> pydt option \<Rightarrow> pydt option" where
  "newer t best =
     (case t of None \<Rightarrow> best
      | Some x \<Rightarrow> (case best of None \<Rightarrow> t | Some b \<Rightarrow> if utc_us b < utc_us x then t else best))"

definition get_or :: "(string \<times> json) list \<Rightarrow> string \<Rightarrow> json \<Rightarrow> json" where
  "get_or d k v = (case map_of d k of None \<Rightarrow> v | Some x \<Rightarrow> x)"

definition event_acc :: "(string \<times> json) list \<Rightarrow> run_acc \<Rightarrow> run_acc" where
  "event_acc d a =
     (if jget d ''type'' = JStr ''result'' then
        a\<lparr>ra_outcome := get_or d ''outcome'' (JStr ''error''), ra_error := jget d ''error'', ra_watermark := jget d ''watermark'',
          ra_definition := jget d ''definition_id'', ra_validated := jget d ''definition_validated_at''\<rparr>
      else if jget d ''type'' = JStr ''annotation'' then
        (let a = a\<lparr>ra_annotations := ra_annotations a + 1\<rparr> in
         if truthy (get_or d ''ok'' (JBool True)) then
           a\<lparr>ra_accepted := ra_accepted a + 1, ra_newest := newer (observed_instant (jget d ''observed_at'')) (ra_newest a)\<rparr>
         else a)
      else a)"

definition event_feed :: "string \<Rightarrow> (string \<times> json) list \<Rightarrow> receipt list \<Rightarrow> receipt list" where
  "event_feed pid d feed =
     (if jget d ''type'' = JStr ''annotation''
      then add_receipt \<lparr>rc_plugin = pid, rc_summary = get_or d ''summary'' (JStr []), rc_ok = get_or d ''ok'' (JBool True)\<rparr> feed
      else feed)"

fun run_events :: "string \<Rightarrow> doc list \<Rightarrow> run_acc \<Rightarrow> (run_world, run_acc) io" where
  "run_events pid [] a w = (Inr a, w)"
| "run_events pid (None # rest) a w = run_events pid rest a w"
| "run_events pid (Some (JObj d) # rest) a w = run_events pid rest (event_acc d a) (w\<lparr>rw_feed := event_feed pid d (rw_feed w)\<rparr>)"
| "run_events pid (Some _ # rest) a w = (Inl ''AttributeError'', w)"

definition collect_output :: "string \<Rightarrow> int \<Rightarrow> worker_end \<Rightarrow> (run_world, run_acc) io" where
  "collect_output pid timeout_s how =
     (case how of
        Captured lines err cut_off \<Rightarrow>
          io_bind (run_events pid lines start_acc) (\<lambda>a.
          let err = (if cut_off then ''[earlier stderr truncated]'' @ [CHR 0x0A] @ err else err) in
          io_return (if ra_error a = NO_RESULT \<and> strip err \<noteq> [] then a\<lparr>ra_error := JStr (scrub_secrets (strip err))\<rparr> else a))
      | TimedOut lines \<Rightarrow> io_return (start_acc\<lparr>ra_outcome := JStr ''timeout'', ra_error := JStr (''worker exceeded '' @ int_str timeout_s @ ''s'')\<rparr>)
      | NotLaunched e \<Rightarrow> io_return (start_acc\<lparr>ra_error := JStr (scrub_secrets (''worker launch failed: '' @ e))\<rparr>)
      | BrokeAfterLaunch e \<Rightarrow> io_raise e)"

definition state_of :: "string \<Rightarrow> run_world \<Rightarrow> plugin_state" where
  "state_of pid w = (case map_of (rw_states w) pid of None \<Rightarrow> new_state pid | Some st \<Rightarrow> st)"

definition finished :: "pydt \<Rightarrow> run_acc \<Rightarrow> plugin_state \<Rightarrow> string + plugin_state" where
  "finished now a st =
     (let st = (if ra_watermark a = JNull then st else st\<lparr>ps_watermark := ra_watermark a\<rparr>);
          st = (if ra_definition a = JNull then st else st\<lparr>ps_definition_id := ra_definition a\<rparr>);
          st = (if ra_validated a = JNull then st else st\<lparr>ps_validated_at := ra_validated a\<rparr>);
          st = record_finish (ra_outcome a) now (ra_error a) st
      in if ra_accepted a = 0 then Inr st else record_yield now (ra_newest a) st)"

definition failure_summary :: "run_acc \<Rightarrow> string + string" where
  "failure_summary a =
     res_bind (if \<not> truthy (ra_error a) then Inr ''Plugin failed.''
               else case ra_error a of JStr s \<Rightarrow> Inr (strip s) | _ \<Rightarrow> Inl ''AttributeError'') (\<lambda>short.
     let short = (if 200 < length short then rstrip_if is_space (take 200 short) @ ''...'' else short);
         label = (if ra_outcome a = JStr ''timeout'' then ''timed out'' else ''failed'');
         first_line = (if short = [] then [] else hd (splitlines short))
     in Inr (if first_line = [] then ''Run '' @ label @ ''.'' else ''Run '' @ label @ '': '' @ first_line))"

definition save_run :: "string \<Rightarrow> pydt \<Rightarrow> run_acc \<Rightarrow> (run_world, unit) io" where
  "save_run pid now a w =
     (case finished now a (state_of pid w) of
        Inl e \<Rightarrow> (Inl e, w) | Inr st \<Rightarrow> (Inr (), w\<lparr>rw_states := dict_set pid st (rw_states w)\<rparr>))"

definition report_run :: "string \<Rightarrow> run_acc \<Rightarrow> (run_world, unit) io" where
  "report_run pid a w =
     (let say = (\<lambda>text ok. w\<lparr>rw_feed := add_receipt \<lparr>rc_plugin = pid, rc_summary = JStr text, rc_ok = JBool ok\<rparr> (rw_feed w)\<rparr>) in
      if ra_outcome a = JStr ''done'' then
        (Inr (), if ra_annotations a = 0 then say ''Ran successfully - no new data.'' True else w)
      else case failure_summary a of Inl e \<Rightarrow> (Inl e, w) | Inr text \<Rightarrow> (Inr (), say text False))"

definition run_once :: "string \<Rightarrow> pydt \<Rightarrow> int \<Rightarrow> worker_end \<Rightarrow> (run_world, json) io" where
  "run_once pid now timeout_s how =
     io_bind (collect_output pid timeout_s how) (\<lambda>a.
     io_bind (save_run pid now a) (\<lambda>_.
     io_bind (report_run pid a) (\<lambda>_. io_return (ra_outcome a))))"

section \<open>One run at a time\<close>

text \<open>The daemon's guard: a plugin in flight is not started again.\<close>

definition trigger :: "string \<Rightarrow> string list \<Rightarrow> bool \<times> string list" where
  "trigger pid inflight = (if pid \<in> set inflight then (False, inflight) else (True, pid # inflight))"

definition run_ended :: "string \<Rightarrow> string list \<Rightarrow> string list" where
  "run_ended pid inflight = removeAll pid inflight"

end
