(* ===== verification/Collect_Schedule_Props.thy ===== *)
theory Collect_Schedule_Props
  imports Collect_Schedule
begin

text \<open>
  What the daemon's decisions guarantee: the due plugins are exactly the due ones, once each; a tick brings
  the services in line with the configuration; how a crash loop is judged at the daemon's own pace; what a
  freshness verdict rests on; and the source watermark only moves forward.
\<close>

section \<open>The scheduler\<close>

lemma due_among_Inr:
  "due_among c states now online ps = Inr ids \<Longrightarrow>
     ids = map fst (filter (\<lambda>(pid, p). is_due c states now online pid p = Inr True) ps)"
  by (induction ps arbitrary: ids) (auto simp: res_bind_Inr_iff)

lemma due_among_Inl: "(pid, p) \<in> set ps \<Longrightarrow> is_due c states now online pid p = Inl e \<Longrightarrow> \<exists>e'. due_among c states now online ps = Inl e'"
proof (induction ps)
  case (Cons x ps)
  then show ?case
    by (cases x; cases "is_due c states now online (fst x) (snd x)"; cases "due_among c states now online ps") auto
qed simp

lemma since_Inr: "since now t = Inr a \<longleftrightarrow> off t \<noteq> None \<and> a = now - utc_us t"
  by (auto simp: since_def)

lemma is_due_True:
  "is_due c states now online pid p = Inr True \<longleftrightarrow>
     pl_kind p = ''scheduled'' \<and> pid \<in> set (cf_enabled c) \<and> (pl_requires_network p \<longrightarrow> online)
     \<and> (case Option.bind (map_of states pid) ps_last_run of None \<Rightarrow> True
        | Some t \<Rightarrow> off t \<noteq> None \<and> (\<exists>d. effective_interval p c = Inr d \<and> d \<le> now - utc_us t))"
  by (auto simp: is_due_def res_bind_Inr_iff since_Inr split: option.split)

lemma is_due_later: "is_due c states t online pid p = Inr True \<Longrightarrow> t \<le> t' \<Longrightarrow> is_due c states t' online pid p = Inr True"
  unfolding is_due_True by (cases "Option.bind (map_of states pid) ps_last_run") (auto intro: order_trans)

lemma strictly_sorted_keys:
  assumes "dict_ok d"
  shows "sorted_wrt (<) (map fst (filter P (sort_key fst d)))"
proof -
  have "sorted (map fst (filter P (sort_key fst d)))" by (rule sorted_filter) simp
  moreover have "distinct (map fst (filter P (sort_key fst d)))"
    using assms by (auto simp: dict_ok_def distinct_map intro: inj_on_subset)
  ultimately show ?thesis by (simp add: strict_sorted_iff)
qed

text \<open>C23. Due exactly once. When the scheduler answers, it names, in strictly increasing order and so once
  each however many intervals were missed, exactly the registered plugins that are scheduled and enabled,
  need no network while there is none, and never ran or ran at least their interval ago, the user's
  interval before the plugin's own.\<close>

theorem due_plugins_exact:
  assumes "due_plugins plugins c states now online = Inr ids" and "dict_ok plugins"
  shows "sorted_wrt (<) ids \<and> (\<forall>pid. pid \<in> set ids \<longleftrightarrow>
     (\<exists>p. map_of plugins pid = Some p \<and> pl_kind p = ''scheduled'' \<and> pid \<in> set (cf_enabled c) \<and> (pl_requires_network p \<longrightarrow> online)
       \<and> (case Option.bind (map_of states pid) ps_last_run of None \<Rightarrow> True
          | Some t \<Rightarrow> off t \<noteq> None \<and> (\<exists>d. effective_interval p c = Inr d \<and> d \<le> now - utc_us t))))"
proof -
  let ?due = "\<lambda>(pid, p). is_due c states now online pid p = Inr True"
  from assms(1) have ids: "ids = map fst (filter ?due (sort_key fst plugins))"
    unfolding due_plugins_def by (rule due_among_Inr)
  have "pid \<in> set ids \<longleftrightarrow> (\<exists>p. map_of plugins pid = Some p \<and> is_due c states now online pid p = Inr True)" for pid
    using dict_mem_map_of[OF assms(2)] by (force simp: ids)
  with ids strictly_sorted_keys[OF assms(2)] show ?thesis by (simp add: is_due_True)
qed

text \<open>One naive row stops the daemon. If the stored time of the last run of one enabled scheduled plugin has
  no offset, the scheduler raises, whatever the other plugins are, and at every tick again; the loop of the
  daemon does not catch it.\<close>

theorem naive_row_raises:
  assumes "dict_ok plugins" "map_of plugins pid = Some p" "pl_kind p = ''scheduled''" "pid \<in> set (cf_enabled c)"
    and "pl_requires_network p \<longrightarrow> online" "map_of states pid = Some st" "ps_last_run st = Some t" "off t = None"
  shows "\<exists>e. due_plugins plugins c states now online = Inl e"
proof -
  from assms(3-) have "is_due c states now online pid p = Inl ''TypeError''" by (simp add: is_due_def since_def)
  moreover from assms(1,2) have "(pid, p) \<in> set (sort_key fst plugins)" by (simp add: dict_mem_map_of)
  ultimately show ?thesis unfolding due_plugins_def by (rule due_among_Inl[rotated])
qed

section \<open>One service in one tick\<close>

lemma exits_of_simps [simp]:
  "exits_of (s\<lparr>sv_procs := x\<rparr>) pid = exits_of s pid" "exits_of (s\<lparr>sv_backoff := y\<rparr>) pid = exits_of s pid"
  "exits_of (s\<lparr>sv_degraded := z\<rparr>) pid = exits_of s pid"
  "exits_of (s\<lparr>sv_exits := dict_pop q (sv_exits s)\<rparr>) pid = (if pid = q then [] else exits_of s pid)"
  "exits_of (add_exit q t s) pid = (if pid = q then exits_of s pid @ [t] else exits_of s pid)"
  by (auto simp: exits_of_def add_exit_def)

lemma add_exit_simps [simp]:
  "sv_procs (add_exit q t s) = sv_procs s" "sv_backoff (add_exit q t s) = sv_backoff s" "sv_degraded (add_exit q t s) = sv_degraded s"
  by (simp_all add: add_exit_def)

text \<open>The supervision of one service by itself, as a state machine: what the policy is about.\<close>

record service =
  sc_proc :: "nat option"
  sc_exits :: "int list"
  sc_wait :: "int option"
  sc_degraded :: bool

definition idle :: service where
  "idle = \<lparr>sc_proc = None, sc_exits = [], sc_wait = None, sc_degraded = False\<rparr>"

definition launch :: "nat option \<Rightarrow> int \<Rightarrow> service \<Rightarrow> service" where
  "launch started now v =
     (case started of
        Some proc \<Rightarrow> v\<lparr>sc_proc := Some proc\<rparr>
      | None \<Rightarrow>
          let ex = sc_exits v @ [now]; d = decide_restart ex now in
          if should_restart d then v\<lparr>sc_exits := ex, sc_wait := Some (now + backoff d)\<rparr>
          else v\<lparr>sc_exits := ex, sc_wait := None, sc_degraded := True\<rparr>)"

definition crash :: "int \<Rightarrow> service \<Rightarrow> service" where
  "crash now v =
     (let ex = sc_exits v @ [now]; d = decide_restart ex now in
      if should_restart d then v\<lparr>sc_proc := None, sc_exits := ex, sc_wait := Some (now + backoff d)\<rparr>
      else v\<lparr>sc_proc := None, sc_exits := ex, sc_degraded := True\<rparr>)"

definition supervise :: "(nat \<Rightarrow> int option) \<Rightarrow> nat option \<Rightarrow> int \<Rightarrow> service \<Rightarrow> service" where
  "supervise poll started now v =
     (case sc_proc v of
        None \<Rightarrow> if pred_option (\<lambda>t. t \<le> now) (sc_wait v) then launch started now v else v
      | Some proc \<Rightarrow>
          (case poll proc of None \<Rightarrow> v | Some rc \<Rightarrow> if rc = 0 then launch started now (v\<lparr>sc_proc := None\<rparr>) else crash now v))"

definition service_step :: "(nat \<Rightarrow> int option) \<Rightarrow> nat option \<Rightarrow> int \<Rightarrow> service \<Rightarrow> service" where
  "service_step poll started now v =
     (if \<not> sc_degraded v then supervise poll started now v
      else if sc_exits v \<noteq> [] \<and> DEGRADED_RECOVERY_COOLDOWN < now - Max (set (sc_exits v))
      then supervise poll started now (v\<lparr>sc_degraded := False, sc_exits := []\<rparr>) else v)"

text \<open>One service's part of the supervisor.\<close>

definition part :: "supervisor \<Rightarrow> string \<Rightarrow> service" where
  "part s pid = \<lparr>sc_proc = map_of (sv_procs s) pid, sc_exits = exits_of s pid, sc_wait = map_of (sv_backoff s) pid,
     sc_degraded = (pid \<in> set (sv_degraded s))\<rparr>"

lemma spawn_other: "q \<noteq> pid \<Longrightarrow> part (spawn_worker spawn now pid s) q = part s q"
  by (auto simp: spawn_worker_def part_def Let_def split: option.split)

lemma wait_other: "q \<noteq> pid \<Longrightarrow> part (wait_or_spawn spawn now pid s) q = part s q"
  by (simp add: wait_or_spawn_def spawn_other)

lemma crashed_other:
  assumes "q \<noteq> pid"
  shows "part (crashed spawn now pid s) q = part s q"
  using assms wait_other[OF assms] by (auto simp: crashed_def Let_def part_def)

lemma observe_other:
  assumes "q \<noteq> pid"
  shows "part (observe_worker poll spawn now pid s) q = part s q"
proof -
  have "part (s\<lparr>sv_procs := dict_pop pid (sv_procs s)\<rparr>) q = part s q" using assms by (simp add: part_def)
  with wait_other[OF assms] spawn_other[OF assms] crashed_other[OF assms] show ?thesis
    by (simp add: observe_worker_def Let_def split: option.split)
qed

lemma tick_other:
  assumes "q \<noteq> pid"
  shows "part (tick_one poll spawn now pid s) q = part s q"
proof -
  have "part (one_more_chance pid s) q = part s q" using assms by (simp add: part_def one_more_chance_def exits_of_def)
  with observe_other[OF assms] show ?thesis by (simp add: tick_one_def)
qed

lemma ticks_other: "q \<notin> set pids \<Longrightarrow> part (fold (tick_one poll spawn now) pids s) q = part s q"
  by (induction pids arbitrary: s) (auto simp: tick_other)

lemma drop_disabled_part:
  "part (drop_disabled enabled pids s) q = (if q \<in> set pids \<and> q \<notin> set enabled then idle else part s q)"
proof (induction enabled pids s rule: drop_disabled.induct)
  case (2 enabled pid pids s)
  then show ?case by (auto simp: part_def exits_of_def idle_def)
qed simp

lemma backoff_bounds: "should_restart (decide_restart ts now) \<Longrightarrow>
    backoff (decide_restart ts now) \<ge> BASE_BACKOFF \<and> backoff (decide_restart ts now) \<le> MAX_BACKOFF"
  by (auto simp: decide_restart_def Let_def BASE_BACKOFF_def MAX_BACKOFF_def second_us_def)

lemma spawn_same: "part (spawn_worker spawn now pid s) pid = launch (spawn pid) now (part s pid)"
  by (auto simp: spawn_worker_def launch_def part_def Let_def split: option.split)

lemma wait_same: "part (wait_or_spawn spawn now pid s) pid =
    (if pred_option (\<lambda>t. t \<le> now) (map_of (sv_backoff s) pid) then launch (spawn pid) now (part s pid) else part s pid)"
  by (auto simp: wait_or_spawn_def spawn_same split: option.split)

lemma part_fields [simp]:
  "sc_proc (part s q) = map_of (sv_procs s) q" "sc_exits (part s q) = exits_of s q" "sc_wait (part s q) = map_of (sv_backoff s) q"
  "sc_degraded (part s q) \<longleftrightarrow> q \<in> set (sv_degraded s)"
  by (simp_all add: part_def)

lemma crashed_same:
  assumes "map_of (sv_procs s) pid = None"
  shows "part (crashed spawn now pid s) pid = crash now (part s pid)"
proof -
  let ?d = "decide_restart (exits_of s pid @ [now]) now"
  show ?thesis
  proof (cases "should_restart ?d")
    case True
    with backoff_bounds[OF True] have "\<not> now + backoff ?d \<le> now" by (simp add: BASE_BACKOFF_def second_us_def)
    with True show ?thesis by (simp add: crashed_def crash_def wait_same Let_def) (simp add: part_def assms)
  next
    case False
    then show ?thesis by (simp add: crashed_def crash_def Let_def) (simp add: part_def assms)
  qed
qed

lemma observe_same: "part (observe_worker poll spawn now pid s) pid = supervise poll (spawn pid) now (part s pid)"
proof (cases "map_of (sv_procs s) pid")
  case None
  then show ?thesis by (simp add: observe_worker_def supervise_def wait_same)
next
  case (Some proc)
  let ?t = "s\<lparr>sv_procs := dict_pop pid (sv_procs s)\<rparr>"
  have p: "part ?t pid = (part s pid)\<lparr>sc_proc := None\<rparr>" by (simp add: part_def)
  have "crash now ((part s pid)\<lparr>sc_proc := None\<rparr>) = crash now (part s pid)" by (simp add: crash_def Let_def)
  with Some crashed_same[of ?t pid spawn now, unfolded p] spawn_same[of spawn now pid ?t, unfolded p] show ?thesis
    by (simp add: observe_worker_def supervise_def Let_def split: option.split)
qed

lemma tick_same: "part (tick_one poll spawn now pid s) pid = service_step poll (spawn pid) now (part s pid)"
proof -
  have "part (one_more_chance pid s) pid = (part s pid)\<lparr>sc_degraded := False, sc_exits := []\<rparr>"
    by (simp add: part_def one_more_chance_def exits_of_def)
  then show ?thesis
    by (simp add: tick_one_def service_step_def observe_same cooled_down_def)
qed

lemma tick_part:
  "part (tick poll spawn now enabled s) q =
     (if q \<in> set enabled then service_step poll (spawn q) now (part s q)
      else if map_of (sv_procs s) q \<noteq> None then idle else part s q)"
proof -
  let ?ps = "sorted_set enabled" and ?d = "drop_disabled enabled (map fst (sv_procs s)) s"
  show ?thesis
  proof (cases "q \<in> set enabled")
    case True
    define before where "before = takeWhile (\<lambda>x. x \<noteq> q) ?ps"
    from True have "dropWhile (\<lambda>x. x \<noteq> q) ?ps \<noteq> []" "hd (dropWhile (\<lambda>x. x \<noteq> q) ?ps) = q"
      using hd_dropWhile[of "\<lambda>x. x \<noteq> q" ?ps] by (auto simp: dropWhile_eq_Nil_conv)
    then obtain after where "dropWhile (\<lambda>x. x \<noteq> q) ?ps = q # after" by (metis list.collapse)
    then have split: "?ps = before @ q # after" using takeWhile_dropWhile_id[of "\<lambda>x. x \<noteq> q" ?ps] by (simp add: before_def)
    then have "distinct (before @ q # after)" by (metis sorted_sorted_set(2))
    then have q: "q \<notin> set after" "q \<notin> set before" by auto
    have "part (fold (tick_one poll spawn now) ?ps ?d) q
        = service_step poll (spawn q) now (part (fold (tick_one poll spawn now) before ?d) q)"
      unfolding split using ticks_other[OF q(1)] by (simp add: tick_same)
    also have "part (fold (tick_one poll spawn now) before ?d) q = part s q"
      using ticks_other[OF q(2), of poll spawn now ?d] True by (simp add: drop_disabled_part)
    finally show ?thesis using True by (simp add: tick_def)
  next
    case False
    then have "q \<notin> set ?ps" by simp
    from ticks_other[OF this, of poll spawn now ?d] False show ?thesis
      by (auto simp: tick_def drop_disabled_part map_of_eq_None_iff image_iff)
  qed
qed

section \<open>Crash loops at the pace of the daemon\<close>

text \<open>Times that are more than \<open>g\<close> apart, one after the other.\<close>

abbreviation spaced :: "int \<Rightarrow> int list \<Rightarrow> bool" where
  "spaced g \<equiv> sorted_wrt (\<lambda>a b. a + g < b)"

lemma spaced_span:
  assumes "spaced g ts" "Suc n \<le> length ts" "0 \<le> g"
  shows "hd ts + int n * g \<le> last ts"
  using assms
proof (induction ts arbitrary: n)
  case (Cons a ts)
  show ?case
  proof (cases n)
    case 0
    with Cons.prems show ?thesis by (cases ts rule: rev_cases) auto
  next
    case (Suc m)
    with Cons.prems have "ts \<noteq> []" by auto
    with Cons Suc have "hd ts + int m * g \<le> last ts" "a + g < hd ts" by auto
    with Suc \<open>ts \<noteq> []\<close> show ?thesis by (simp add: algebra_simps)
  qed
qed simp

text \<open>The window of a minute holds at most five exits that are more than twelve seconds apart.\<close>

definition twelve :: int where "twelve = 12 * second_us"

lemma few_in_window:
  assumes "spaced twelve ts" "\<forall>t \<in> set ts. t \<le> now"
  shows "should_restart (decide_restart ts now)"
proof (rule ccontr)
  let ?w = "filter (\<lambda>t. now - t \<le> CRASH_WINDOW) ts"
  assume "\<not> ?thesis"
  then have l: "CRASH_LOOP_THRESHOLD \<le> length ?w" by (auto simp: decide_restart_def Let_def split: if_splits)
  then obtain t u us where w: "?w = t # u # us"
    by (cases ?w; cases "tl ?w") (auto simp: CRASH_LOOP_THRESHOLD_def)
  from assms(1) have sp: "spaced twelve (t # u # us)" unfolding w[symmetric] by (rule sorted_wrt_filter)
  from l w have "Suc 4 \<le> length (u # us)" by (simp add: CRASH_LOOP_THRESHOLD_def)
  from spaced_span[OF _ this, of twelve] sp have "u + 4 * twelve \<le> last (u # us)" by (simp add: twelve_def second_us_def)
  moreover from sp have "t + twelve < u" by simp
  moreover have "last (u # us) \<in> set ?w" unfolding w by simp
  then have "last (u # us) \<le> now" using assms(2) by auto
  moreover have "t \<in> set ?w" unfolding w by simp
  then have "now - t \<le> 5 * twelve" by (auto simp: CRASH_WINDOW_def twelve_def)
  ultimately show False by simp
qed

definition calm :: "int \<Rightarrow> service \<Rightarrow> bool" where
  "calm t v \<longleftrightarrow> \<not> sc_degraded v \<and> spaced twelve (sc_exits v) \<and> (\<forall>x \<in> set (sc_exits v). x \<le> t)"

lemma calm_exit:
  assumes "calm t v" "t + twelve < now"
  shows "should_restart (decide_restart (sc_exits v @ [now]) now)" "spaced twelve (sc_exits v @ [now])" "\<forall>x \<in> set (sc_exits v @ [now]). x \<le> now"
proof -
  have "0 < twelve" by (simp add: twelve_def second_us_def)
  with assms show "spaced twelve (sc_exits v @ [now])" "\<forall>x \<in> set (sc_exits v @ [now]). x \<le> now"
    by (force simp: calm_def sorted_wrt_append)+
  then show "should_restart (decide_restart (sc_exits v @ [now]) now)" by (rule few_in_window)
qed

lemma calm_step:
  assumes "calm t v" "t + twelve < now"
  shows "calm now (service_step poll started now v)"
proof -
  have n: "calm now v" using assms by (auto simp: calm_def twelve_def second_us_def)
  moreover have "calm now (v\<lparr>sc_proc := x\<rparr>)" for x using n by (simp add: calm_def)
  moreover have "calm now (launch started now (v\<lparr>sc_proc := x\<rparr>))" "calm now (launch started now v)" "calm now (crash now v)" for x
    using n calm_exit[OF assms] by (auto simp: launch_def crash_def calm_def Let_def split: option.split)
  ultimately show ?thesis
    using assms(1) by (auto simp: service_step_def supervise_def calm_def split: option.split)
qed

text \<open>A run of the daemon: at each tick the time, what the system answers and the enabled services.\<close>

datatype tick_input = Tick (tick_at: int) "nat \<Rightarrow> int option" "string \<Rightarrow> nat option" "string list"

fun run_tick :: "tick_input \<Rightarrow> supervisor \<Rightarrow> supervisor" where
  "run_tick (Tick now poll spawn enabled) s = tick poll spawn now enabled s"

lemma calm_ticks:
  assumes "spaced twelve (t # map tick_at ts)" "\<forall>q. calm t (part s q)"
  shows "\<exists>t'. \<forall>q. calm t' (part (fold run_tick ts s) q)"
  using assms
proof (induction ts arbitrary: t s)
  case (Cons x ts)
  obtain now poll spawn enabled where x: "x = Tick now poll spawn enabled" by (cases x)
  have "calm now (part (run_tick x s) q)" for q
  proof -
    have "t + twelve < now" using Cons.prems(1) x by simp
    with Cons.prems(2) calm_step have "calm now (service_step poll (spawn q) now (part s q))" by blast
    moreover have "calm now (part s q)" using Cons.prems(2) \<open>t + twelve < now\<close> by (force simp: calm_def twelve_def second_us_def)
    moreover have "calm now idle" by (simp add: calm_def idle_def)
    ultimately show ?thesis by (simp add: x tick_part)
  qed
  moreover have "spaced twelve (now # map tick_at ts)" using Cons.prems(1) x by simp
  ultimately have "\<exists>t'. \<forall>q. calm t' (part (fold run_tick ts (run_tick x s)) q)" by (intro Cons.IH) auto
  then show ?case by simp
qed auto

section \<open>Properties\<close>

text \<open>C22. Every service for itself. A tick treats each enabled service exactly as the policy for one service
  treats its own process, exits, backoff and mark, whatever the others do and in whatever order they are
  visited. A service that is not enabled is terminated and forgotten if it has a process; without one -
  while it waits out a backoff, or is marked degraded - nothing of it is forgotten, so enabling it again is
  no clean slate.\<close>

theorem tick_refines_policy:
  "part (tick poll spawn now enabled s) q =
     (if q \<in> set enabled then service_step poll (spawn q) now (part s q)
      else if map_of (sv_procs s) q \<noteq> None then idle else part s q)"
  by (rule tick_part)

text \<open>A crash loop goes unnoticed. However the workers behave, and whichever services are enabled, ticks that
  are more than twelve seconds apart never mark a service as degraded: at most five of its exits fall into
  the window of a minute, and six are asked for. The daemon sleeps thirty seconds between ticks.\<close>

theorem crash_loop_never_degraded:
  assumes "spaced twelve (map tick_at ts)"
  shows "sv_degraded (fold run_tick ts new_supervisor) = []"
proof (cases ts)
  case Nil
  then show ?thesis by (simp add: new_supervisor_def)
next
  case (Cons x xs)
  let ?t = "tick_at x - twelve - 1"
  have "?t + twelve < t" if "t \<in> set (map tick_at ts)" for t
    using that assms Cons by (auto simp: twelve_def second_us_def)
  with assms have "spaced twelve (?t # map tick_at ts)" by simp
  moreover have "\<forall>q. calm ?t (part new_supervisor q)" by (simp add: calm_def new_supervisor_def exits_of_def)
  ultimately obtain t' where "\<forall>q. calm t' (part (fold run_tick ts new_supervisor) q)" using calm_ticks by blast
  then have "q \<notin> set (sv_degraded (fold run_tick ts new_supervisor))" for q by (auto simp: calm_def)
  then show ?thesis by (metis hd_in_set)
qed

text \<open>A worker that dies at once, watched for eight ticks, every thirty seconds and every ten seconds.\<close>

definition crashing :: "int \<Rightarrow> nat \<Rightarrow> tick_input list" where
  "crashing secs n = map (\<lambda>i. Tick (int i * secs * second_us) (\<lambda>_. Some 1) (\<lambda>_. None) [''p'']) [0..<n]"

lemma crashing_noticed_at_ten_seconds: "sv_degraded (fold run_tick (crashing 10 7) new_supervisor) = [''p'']"
  by code_simp

theorem crash_loop_never_degraded_witness:
  "length (exits_of (fold run_tick (crashing 30 8) new_supervisor) ''p'') = 8 \<and> sv_degraded (fold run_tick (crashing 30 8) new_supervisor) = []"
proof -
  have "spaced twelve (map tick_at (crashing 30 8))" by code_simp
  from crash_loop_never_degraded[OF this] show ?thesis by (simp; code_simp)
qed

text \<open>The two dimensions of a source: the declared bound, if any, and the age, if there is one.\<close>

definition dimensions :: "int \<Rightarrow> expectation option \<Rightarrow> pydt option \<Rightarrow> pydt option \<Rightarrow> (int option \<times> int option) list" where
  "dimensions now e y n = (case e of None \<Rightarrow> [] | Some x \<Rightarrow> [(ex_yield_silence x, age now y), (ex_upstream_lag x, age now n)])"

definition exceeded :: "int option \<times> int option \<Rightarrow> bool" where
  "exceeded d \<longleftrightarrow> (\<exists>b a. d = (Some b, Some a) \<and> b < a)"

definition unjudged :: "int option \<times> int option \<Rightarrow> bool" where
  "unjudged d \<longleftrightarrow> (\<exists>b. fst d = Some b) \<and> \<not> (\<exists>a. snd d = Some a \<and> - CLOCK_SKEW_TOLERANCE \<le> a)"

lemma judge_simps:
  assumes "pred_option (\<lambda>b. 0 < b) bound"
  shows "jd_breach (judge a bound m f) \<noteq> None \<longleftrightarrow> exceeded (bound, a)" "jd_unknown (judge a bound m f) \<noteq> None \<longleftrightarrow> unjudged (bound, a)"
proof -
  have "0 < CLOCK_SKEW_TOLERANCE" by (simp add: CLOCK_SKEW_TOLERANCE_def second_us_def)
  with assms show "jd_breach (judge a bound m f) \<noteq> None \<longleftrightarrow> exceeded (bound, a)" "jd_unknown (judge a bound m f) \<noteq> None \<longleftrightarrow> unjudged (bound, a)"
    by (auto simp: judge_def exceeded_def unjudged_def Let_def split: option.splits)
qed

lemma some_list_two: "some_list [x, y] \<noteq> [] \<longleftrightarrow> x \<noteq> None \<or> y \<noteq> None"
  by (simp add: some_list_def)

lemma verdict_cases:
  assumes "B \<Longrightarrow> A" "\<not> B \<and> \<not> U \<longleftrightarrow> F" "v = (if \<not> A then NOT_CONFIGURED else if B then STALE else if U then UNKNOWN_FRESHNESS else FRESH)"
  shows "(v = STALE \<longleftrightarrow> B) \<and> (v = FRESH \<longleftrightarrow> A \<and> F) \<and> (v = NOT_CONFIGURED \<longleftrightarrow> \<not> A)"
  using assms by auto

lemma assess_state:
  assumes "expectation_ok x"
  shows "fr_state (assess now (Some x) y n) =
     (if \<not> is_configured x then NOT_CONFIGURED
      else if list_ex exceeded (dimensions now (Some x) y n) then STALE
      else if list_ex unjudged (dimensions now (Some x) y n) then UNKNOWN_FRESHNESS else FRESH)"
proof -
  from assms have ok: "pred_option (\<lambda>b. 0 < b) (ex_yield_silence x)" "pred_option (\<lambda>b. 0 < b) (ex_upstream_lag x)"
    by (simp_all add: expectation_ok_def)
  show ?thesis
    unfolding assess_def Let_def option.case some_list_two judge_simps[OF ok(1)] judge_simps[OF ok(2)]
    by (simp add: dimensions_def)
qed

text \<open>C27. Verdicts rest on evidence. A source is reported stale exactly when one of its declared bounds is
  exceeded by the age of a time that is not in the future; fresh exactly when it declares a bound and for
  every bound it declares the age is known, not in the future beyond the tolerance, and within the bound;
  and not configured exactly when it declares none. In particular a bound that is proven broken is not
  hidden by another that cannot be judged, and neither a missing nor a future time passes for fresh.\<close>

theorem freshness_verdict:
  assumes "\<forall>x. e = Some x \<longrightarrow> expectation_ok x"
  shows "(fr_state (assess now e y n) = STALE \<longleftrightarrow> (\<exists>b a. (Some b, Some a) \<in> set (dimensions now e y n) \<and> b < a))
    \<and> (fr_state (assess now e y n) = FRESH \<longleftrightarrow> (\<exists>b a. (Some b, a) \<in> set (dimensions now e y n))
         \<and> (\<forall>b a. (Some b, a) \<in> set (dimensions now e y n) \<longrightarrow> (\<exists>x. a = Some x \<and> - CLOCK_SKEW_TOLERANCE \<le> x \<and> x \<le> b)))
    \<and> (fr_state (assess now e y n) = NOT_CONFIGURED \<longleftrightarrow> (\<forall>b a. (Some b, a) \<notin> set (dimensions now e y n)))"
proof (cases e)
  case None
  then show ?thesis by (simp add: dimensions_def assess_def)
next
  case (Some x)
  let ?d = "dimensions now (Some x) y n"
  have ok: "expectation_ok x" using assms Some by simp
  have conf: "is_configured x \<longleftrightarrow> (\<exists>b a. (Some b, a) \<in> set ?d)"
    by (cases "ex_yield_silence x"; cases "ex_upstream_lag x") (auto simp: dimensions_def is_configured_def)
  have ex: "list_ex exceeded ?d \<longleftrightarrow> (\<exists>b a. (Some b, Some a) \<in> set ?d \<and> b < a)"
    by (auto simp: list_ex_iff exceeded_def)
  have fresh: "\<not> list_ex exceeded ?d \<and> \<not> list_ex unjudged ?d
      \<longleftrightarrow> (\<forall>b a. (Some b, a) \<in> set ?d \<longrightarrow> (\<exists>x. a = Some x \<and> - CLOCK_SKEW_TOLERANCE \<le> x \<and> x \<le> b))"
    by (fastforce simp: list_ex_iff exceeded_def unjudged_def)
  have "(\<forall>b a. (Some b, a) \<notin> set ?d) \<longleftrightarrow> \<not> (\<exists>b a. (Some b, a) \<in> set ?d)" by blast
  then show ?thesis
    unfolding Some using verdict_cases[OF _ fresh[unfolded ex] assess_state[OF ok, of now y n, unfolded conf ex]] by blast
qed

theorem freshness_verdict_witness:
  "fr_state (assess (7200 * second_us) (Some \<lparr>ex_yield_silence = Some hour_us, ex_upstream_lag = Some hour_us\<rparr>)
      (Some \<lparr>wall = 0, off = Some 0\<rparr>) None) = STALE"
  using freshness_verdict[of "Some \<lparr>ex_yield_silence = Some hour_us, ex_upstream_lag = Some hour_us\<rparr>" "7200 * second_us"
      "Some \<lparr>wall = 0, off = Some 0\<rparr>" None]
  by (auto simp: expectation_ok_def dimensions_def age_def parse_instant_def utc_us_def hour_us_def second_us_def)

text \<open>The later of two instants, either of which may be missing.\<close>

definition later :: "int option \<Rightarrow> int option \<Rightarrow> int option" where
  "later x y = (case (x, y) of (None, _) \<Rightarrow> y | (_, None) \<Rightarrow> x | (Some a, Some b) \<Rightarrow> Some (max a b))"

definition instant_of :: "pydt option \<Rightarrow> int option" where
  "instant_of t = map_option utc_us t"

lemma instant_parse [simp]: "instant_of (parse_instant t) = instant_of t"
  by (cases t) (auto simp: instant_of_def parse_instant_def utc_us_def)

lemma record_yield_later:
  assumes "record_yield w observed st = Inr st'"
  shows "instant_of (ps_newest_item st') = later (instant_of (ps_newest_item st)) (instant_of observed)
    \<and> st' = st\<lparr>ps_last_yield := Some w, ps_newest_item := ps_newest_item st'\<rparr>"
proof (cases "parse_instant observed")
  case None
  with instant_parse[of observed] have "instant_of observed = None" by (simp add: instant_of_def)
  with None assms show ?thesis by (auto simp: record_yield_def Let_def later_def split: option.split)
next
  case (Some t)
  with instant_parse[of observed] have o: "instant_of observed = Some (utc_us t)" by (simp add: instant_of_def)
  have c: "to_canonical_utc t = Inr t' \<Longrightarrow> utc_us t' = utc_us t" for t' by (auto simp: to_canonical_utc_def utc_us_def split: if_splits)
  show ?thesis
  proof (cases "parse_instant (ps_newest_item st)")
    case None
    with instant_parse[of "ps_newest_item st"] have "instant_of (ps_newest_item st) = None" by (simp add: instant_of_def)
    with None Some assms o c show ?thesis
      by (auto simp: record_yield_def Let_def later_def res_bind_Inr_iff instant_of_def split: option.splits)
  next
    case (Some u)
    with instant_parse[of "ps_newest_item st"] have "instant_of (ps_newest_item st) = Some (utc_us u)" by (simp add: instant_of_def)
    with Some \<open>parse_instant observed = Some t\<close> assms o c show ?thesis
      by (auto simp: record_yield_def Let_def later_def res_bind_Inr_iff instant_of_def max_def split: if_splits option.splits)
  qed
qed

text \<open>The watermark only moves forward. When recording a yield returns, the instant of the newest item is the
  later of the one before and the one reported (one that is missing or unreadable counts for nothing),
  whatever offsets they are written with; the time of the yield is the present, and nothing else changed.\<close>

theorem watermark_only_forward:
  assumes "record_yield w observed st = Inr st'"
  shows "instant_of (ps_newest_item st') = later (instant_of (ps_newest_item st)) (instant_of observed)
    \<and> st' = st\<lparr>ps_last_yield := Some w, ps_newest_item := ps_newest_item st'\<rparr>"
  using assms by (rule record_yield_later)

theorem watermark_only_forward_witness:
  "\<exists>st'. record_yield \<lparr>wall = 0, off = Some 0\<rparr> (Some \<lparr>wall = 12 * hour_us, off = Some (5 * hour_us)\<rparr>)
       ((new_state ''p'')\<lparr>ps_newest_item := Some \<lparr>wall = 8 * hour_us, off = Some 0\<rparr>\<rparr>) = Inr st'
     \<and> instant_of (ps_newest_item st') = Some (8 * hour_us)"
proof -
  let ?st = "(new_state ''p'')\<lparr>ps_newest_item := Some \<lparr>wall = 8 * hour_us, off = Some 0\<rparr>\<rparr>"
    and ?o = "Some \<lparr>wall = 12 * hour_us, off = Some (5 * hour_us)\<rparr>"
  obtain st' where r: "record_yield \<lparr>wall = 0, off = Some 0\<rparr> ?o ?st = Inr st'"
    by (simp add: record_yield_def parse_instant_def utc_us_def hour_us_def second_us_def)
  from watermark_only_forward[OF r] have "instant_of (ps_newest_item st') = Some (8 * hour_us)"
    by (simp add: instant_of_def later_def utc_us_def hour_us_def second_us_def)
  with r show ?thesis by blast
qed

section \<open>Concrete schedules\<close>

definition demo_plugin :: plugin where
  "demo_plugin = \<lparr>pl_id = ''p'', pl_kind = ''scheduled'', pl_default_interval = Some hour_us, pl_requires_network = True, pl_freshness = None\<rparr>"

definition demo_config :: config where
  "demo_config = empty_config\<lparr>cf_enabled := [''p'']\<rparr>"

theorem due_plugins_exact_witness:
  "\<exists>ids. due_plugins [(''p'', demo_plugin)] demo_config [(''p'', (new_state ''p'')\<lparr>ps_last_run := Some \<lparr>wall = 0, off = Some 0\<rparr>\<rparr>)]
     (5 * hour_us) True = Inr ids \<and> ''p'' \<in> set ids \<and> sorted_wrt (<) ids"
proof -
  let ?st = "[(''p'', (new_state ''p'')\<lparr>ps_last_run := Some \<lparr>wall = 0, off = Some 0\<rparr>\<rparr>)]"
  have r: "due_plugins [(''p'', demo_plugin)] demo_config ?st (5 * hour_us) True = Inr [''p'']" by code_simp
  have "dict_ok [(''p'', demo_plugin)]" by (simp add: dict_ok_def)
  from due_plugins_exact[OF r this] r show ?thesis by (intro exI[of _ "[''p'']"]) simp
qed

theorem naive_row_raises_witness:
  "\<exists>e. due_plugins [(''p'', demo_plugin)] demo_config [(''p'', (new_state ''p'')\<lparr>ps_last_run := Some \<lparr>wall = 0, off = None\<rparr>\<rparr>)]
     (5 * hour_us) True = Inl e"
  by (rule naive_row_raises[where pid = "''p''" and p = demo_plugin and st = "(new_state ''p'')\<lparr>ps_last_run := Some \<lparr>wall = 0, off = None\<rparr>\<rparr>"
        and t = "\<lparr>wall = 0, off = None\<rparr>"])
    (simp_all add: dict_ok_def demo_plugin_def demo_config_def)

end
