(* ===== verification/Collect_Runner_Props.thy ===== *)
theory Collect_Runner_Props
  imports Collect_Runner Collect_Schedule_Props
begin

text \<open>
  What a run of a plugin leaves behind: the tails keep the end of the output, the value of a secret parameter
  does not influence what is stored of an error, the last result line decides the record, freshness moves only
  with accepted records, and a run whose output cannot be walked through is never recorded.
\<close>

section \<open>Tails\<close>

lemma drain_append:
  "tl_data (fold (tail_append limit) chunks t) = keep_last limit (tl_data t @ concat chunks)
    \<and> tl_total (fold (tail_append limit) chunks t) = tl_total t + length (concat chunks)"
  if "length (tl_data t) \<le> limit"
  using that
proof (induction chunks arbitrary: t)
  case (Cons c cs)
  have d: "tl_data (tail_append limit c t) = keep_last limit (tl_data t @ c)"
    by (auto simp: tail_append_def Let_def keep_last_def)
  then have "length (tl_data (tail_append limit c t)) \<le> limit" by simp
  from Cons.IH[OF this] d show ?case by (simp add: tail_append_def Let_def)
qed simp

text \<open>C39. The end of the output survives. Whatever pieces the output of a worker comes in, the bounded buffer holds
  exactly the last bytes of it up to its limit, and says that it is cut exactly when something is missing;
  so a last line that fits, the result, is whole, however much was written before it.\<close>

theorem tail_keeps_the_end:
  "tl_data (drain limit chunks) = keep_last limit (concat chunks)
    \<and> (truncated limit (drain limit chunks) \<longleftrightarrow> tl_data (drain limit chunks) \<noteq> concat chunks)
    \<and> (length line \<le> limit \<and> concat chunks = before @ line \<longrightarrow> suffix line (tl_data (drain limit chunks)))"
proof -
  let ?t = "drain limit chunks"
  have t: "tl_data ?t = keep_last limit (concat chunks)" "tl_total ?t = length (concat chunks)"
    using drain_append[of new_tail limit chunks] by (simp_all add: drain_def new_tail_def)
  moreover have "keep_last limit xs = xs \<longleftrightarrow> length xs \<le> limit" for xs :: "'a list"
    using length_keep_last[of limit xs] by (metis keep_last_short min.cobounded1)
  moreover have "suffix line (keep_last limit (before @ line))" if "length line \<le> limit"
    using that by (simp add: keep_last_def suffix_def)
  ultimately show ?thesis by (auto simp: truncated_def not_le)
qed

theorem tail_keeps_the_end_witness:
  "suffix ''done'' (tl_data (drain 6 [''some noise '', ''and do'', ''ne'']))"
proof -
  have "length ''done'' \<le> 6 \<and> concat [''some noise '', ''and do'', ''ne''] = ''some noise and '' @ ''done''" by simp
  with tail_keeps_the_end[of 6 "[''some noise '', ''and do'', ''ne'']" "''done''" "''some noise and ''"] show ?thesis by blast
qed

section \<open>Secrets\<close>

lemma names_are_words: "n \<in> set SECRET_PARAM_NAMES \<Longrightarrow> c \<in> set n \<Longrightarrow> word_char c \<and> value_char c \<and> c \<noteq> CHR ''='' \<and> c \<noteq> CHR ''A''"
proof -
  have "\<forall>n \<in> set SECRET_PARAM_NAMES. \<forall>c \<in> set n. word_char c \<and> value_char c \<and> c \<noteq> CHR ''='' \<and> c \<noteq> CHR ''A''"
    unfolding SECRET_PARAM_NAMES_def by code_simp
  then show "n \<in> set SECRET_PARAM_NAMES \<Longrightarrow> c \<in> set n \<Longrightarrow> word_char c \<and> value_char c \<and> c \<noteq> CHR ''='' \<and> c \<noteq> CHR ''A''" by blast
qed

lemma names_nonempty: "n \<in> set SECRET_PARAM_NAMES \<Longrightarrow> n \<noteq> []"
  by (auto simp: SECRET_PARAM_NAMES_def)

lemma lower_char_fix: "\<not> word_char c \<Longrightarrow> lower_char c = c"
  by (auto simp: lower_char_def word_char_def ascii_alnum_def Let_def)

lemma value_char_word: "word_char c \<Longrightarrow> value_char c"
  by (auto simp: word_char_def ascii_alnum_def value_char_def is_space_def Let_def)

lemma lower_word: "word_char (lower_char c) \<Longrightarrow> word_char c"
  using lower_char_fix[of c] by (cases "word_char c") auto

lemma lower_equals: "lower_char c = CHR ''='' \<longleftrightarrow> c = CHR ''=''"
proof
  assume l: "lower_char c = CHR ''=''"
  show "c = CHR ''=''"
  proof (cases "c = lower_char c")
    case False
    then have "lower_char c = char_of ((of_char c :: nat) + 32)" "65 \<le> (of_char c :: nat)" "(of_char c :: nat) \<le> 222"
      by (auto simp: lower_char_def Let_def split: if_splits)
    then have "of_char (lower_char c) = (of_char c :: nat) + 32" by simp
    with l \<open>65 \<le> (of_char c :: nat)\<close> show ?thesis by simp
  qed (use l in simp)
qed (simp add: lower_char_def)

lemma secret_name_words: "lower u \<in> set SECRET_PARAM_NAMES \<Longrightarrow> c \<in> set u \<Longrightarrow> word_char c"
  using names_are_words[of "lower u" "lower_char c"] lower_word by (simp add: lower_def)

lemma length_lower [simp]: "length (lower u) = length u"
  by (simp add: lower_def)

lemma no_equals_in_name:
  assumes "lower u \<in> set SECRET_PARAM_NAMES"
  shows "CHR ''='' \<notin> set u"
proof
  assume "CHR ''='' \<in> set u"
  then have "lower_char (CHR ''='') \<in> set (lower u)" unfolding lower_def by (simp only: set_map image_eqI)
  with names_are_words[OF assms, of "CHR ''=''"] lower_equals[of "CHR ''=''"] show False by simp
qed

lemma first_split: "x \<notin> set a \<Longrightarrow> x \<notin> set b \<Longrightarrow> a @ x # r = b @ x # t \<Longrightarrow> a = b \<and> r = t"
proof (induction a arbitrary: b)
  case Nil
  then show ?case by (cases b) auto
next
  case (Cons y a)
  then show ?case by (cases b) auto
qed

lemma find_unique:
  assumes "x \<in> set xs" "P x" "\<And>y. y \<in> set xs \<Longrightarrow> P y \<Longrightarrow> y = x"
  shows "find P xs = Some x"
proof (cases "find P xs")
  case None
  with assms(1,2) show ?thesis by (auto simp: find_None_iff)
next
  case (Some y)
  then have "y \<in> set xs" "P y" by (auto simp: find_Some_iff)
  then have "y = x" by (rule assms(3))
  with Some show ?thesis by (simp only:)
qed

text \<open>The name is what stands before the first equals sign.\<close>

lemma secret_here_none: "CHR ''='' \<notin> set s \<Longrightarrow> secret_here s = None"
proof (rule ccontr)
  assume n: "CHR ''='' \<notin> set s" "secret_here s \<noteq> None"
  then obtain name rest where "secret_here s = Some (name, rest)" by auto
  from secret_here_Some(1)[OF this] n(1) show False by simp
qed

lemma name_before_equals:
  assumes "CHR ''='' \<notin> set u" "n \<in> set SECRET_PARAM_NAMES"
    and "lower (take (length n) (u @ CHR ''='' # r)) = n" "take 1 (drop (length n) (u @ CHR ''='' # r)) = ''=''"
  shows "n = lower u"
proof -
  let ?s = "u @ CHR ''='' # r"
  have "CHR ''='' \<notin> set (take (length n) ?s)" by (rule no_equals_in_name) (use assms in simp)
  moreover have "?s = take (length n) ?s @ CHR ''='' # drop 1 (drop (length n) ?s)"
    using assms(4) by (metis append_Cons append_Nil append_take_drop_id)
  ultimately have "u = take (length n) ?s" using first_split[OF assms(1)] by blast
  with assms(3) show ?thesis by simp
qed

lemma secret_here_at:
  assumes "CHR ''='' \<notin> set u"
  shows "secret_here (u @ CHR ''='' # r) =
    (if lower u \<in> set SECRET_PARAM_NAMES \<and> r \<noteq> [] \<and> value_char (hd r) then Some (u, r) else None)"
proof (cases "lower u \<in> set SECRET_PARAM_NAMES")
  case True
  have "find (\<lambda>n. lower (take (length n) (u @ CHR ''='' # r)) = n \<and> take 1 (drop (length n) (u @ CHR ''='' # r)) = ''='') SECRET_PARAM_NAMES
      = Some (lower u)"
    by (rule find_unique[OF True]) (use name_before_equals[OF assms] in auto)
  with True show ?thesis by (cases r) (simp_all add: secret_here_def)
next
  case False
  have "secret_here (u @ CHR ''='' # r) = None"
  proof (rule ccontr)
    assume "secret_here (u @ CHR ''='' # r) \<noteq> None"
    then obtain name rest where x: "secret_here (u @ CHR ''='' # r) = Some (name, rest)" by auto
    note s = secret_here_Some[OF this]
    from first_split[OF assms no_equals_in_name[OF s(2)], of r rest] s(1) have "name = u" by simp
    with s(2) False show False by simp
  qed
  with False show ?thesis by simp
qed

declare redact_params.simps(2) [simp del]

lemma redact_step:
  "redact_params inside (c # s) =
     (if \<not> inside \<and> secret_here (c # s) \<noteq> None
      then fst (the (secret_here (c # s))) @ ''=<redacted>'' @ redact_params False (dropWhile value_char (snd (the (secret_here (c # s)))))
      else c # redact_params (word_char c) s)"
  by (subst redact_params.simps(2)) (auto split: option.split)

text \<open>A secret parameter after some text that does not end in the middle of a word.\<close>

definition secret_text :: "string \<Rightarrow> string \<Rightarrow> string \<Rightarrow> string \<Rightarrow> string" where
  "secret_text before name v after = before @ name @ CHR ''='' # v @ after"

definition stops :: "string \<Rightarrow> bool" where
  "stops s \<longleftrightarrow> s = [] \<or> \<not> value_char (hd s)"

lemma drop_value: "list_all value_char v \<Longrightarrow> stops after \<Longrightarrow> dropWhile value_char (v @ after) = after"
  by (cases after) (auto simp: stops_def list_all_iff dropWhile_append2)

lemma redact_same:
  assumes "lower name \<in> set SECRET_PARAM_NAMES" "stops after"
    and v: "v \<noteq> []" "list_all value_char v" "w \<noteq> []" "list_all value_char w"
    and "before = [] \<longrightarrow> \<not> inside" "before \<noteq> [] \<longrightarrow> \<not> word_char (last before)"
  shows "redact_params inside (secret_text before name v after) = redact_params inside (secret_text before name w after)"
  using assms(7,8)
proof (induction "length before" arbitrary: before inside rule: less_induct)
  case less
  have words: "c \<in> set name \<Longrightarrow> word_char c" for c using secret_name_words[OF assms(1)] .
  obtain d ds where name: "name = d # ds" using names_nonempty[OF assms(1)] by (cases name) (auto simp: lower_def)
  show ?case
  proof (cases before)
    case Nil
    have "redact_params inside (secret_text before name x after) = name @ ''=<redacted>'' @ redact_params False after"
      if "x \<noteq> []" "list_all value_char x" for x
    proof -
      from that have "secret_here (name @ CHR ''='' # x @ after) = Some (name, x @ after)"
        using secret_here_at[OF no_equals_in_name[OF assms(1)], of "x @ after"] assms(1) by (cases x) auto
      then show ?thesis
        using Nil less.prems redact_step[of inside d "ds @ CHR ''='' # x @ after"] drop_value[OF that(2) assms(2)]
        by (simp add: secret_text_def name)
    qed
    with v show ?thesis by simp
  next
    case (Cons c p)
    let ?t = "\<lambda>x. secret_text p name x after"
    have last: "\<not> word_char (last before)" using less.prems Cons by simp
    have next_char: "redact_params (word_char c) (?t v) = redact_params (word_char c) (?t w)"
      by (rule less.hyps) (use Cons last in auto)
    have split: "secret_text before name x after = c # ?t x" for x by (simp add: secret_text_def Cons)
    show ?thesis
    proof (cases "\<not> inside \<and> CHR ''='' \<in> set before")
      case True
      then obtain u q where u: "before = u @ CHR ''='' # q" "CHR ''='' \<notin> set u" by (meson split_list_first)
      let ?r = "\<lambda>x. secret_text q name x after"
      have at: "secret_here (c # ?t x) = (if lower u \<in> set SECRET_PARAM_NAMES \<and> value_char (hd (q @ name)) then Some (u, ?r x) else None)" for x
      proof -
        have "c # ?t x = u @ CHR ''='' # ?r x" using u(1) Cons by (simp add: secret_text_def)
        moreover have "hd (?r x) = hd (q @ name)" "?r x \<noteq> []" by (simp_all add: secret_text_def name hd_append)
        ultimately show ?thesis using secret_here_at[OF u(2), of "?r x"] by simp
      qed
      have rest: "redact_params False (dropWhile value_char (?r v)) = redact_params False (dropWhile value_char (?r w))"
      proof (cases "list_all value_char q")
        case True
        have "dropWhile value_char (?r x) = after" if "list_all value_char x" for x
        proof -
          have "list_all value_char (q @ name @ CHR ''='' # x)"
            using True that words value_char_word by (auto simp: list_all_iff) (simp_all add: value_char_def is_space_def)
          from drop_value[OF this assms(2)] show ?thesis by (simp add: secret_text_def)
        qed
        with v show ?thesis by simp
      next
        case False
        let ?q = "dropWhile value_char q"
        have q: "?q \<noteq> []" using False by (auto simp: list_all_iff dropWhile_eq_Nil_conv)
        have "dropWhile value_char (?r x) = secret_text ?q name x after" for x
          using False by (auto simp: secret_text_def list_all_iff dropWhile_append1)
        moreover have "last ?q = last before"
          using q u(1) by (metis last_appendR last_ConsR list.distinct(1) takeWhile_dropWhile_id append_is_Nil_conv)
        moreover have "length ?q < length before" using u(1) length_dropWhile_le[of value_char q] by simp
        ultimately show ?thesis using less.hyps[of ?q False] q last by simp
      qed
      show ?thesis unfolding split redact_step at using rest next_char by simp
    next
      case False
      have "inside \<or> secret_here (c # ?t x) = None" for x
      proof (cases inside)
        case False
        with \<open>\<not> (\<not> inside \<and> _)\<close> have "CHR ''='' \<notin> set (before @ name)" using no_equals_in_name[OF assms(1)] by simp
        moreover have "lower (before @ name) \<notin> set SECRET_PARAM_NAMES"
        proof
          assume "lower (before @ name) \<in> set SECRET_PARAM_NAMES"
          moreover have "last before \<in> set (before @ name)" using Cons by (metis Un_iff last_in_set list.distinct(1) set_append)
          ultimately have "word_char (last before)" by (rule secret_name_words)
          with last show False by contradiction
        qed
        ultimately have "secret_here ((before @ name) @ CHR ''='' # x @ after) = None"
          using secret_here_at[of "before @ name" "x @ after"] by (simp only: if_False simp_thms)
        then show ?thesis by (simp add: secret_text_def Cons)
      qed simp
      then show ?thesis unfolding split redact_step using next_char by auto
    qed
  qed
qed

text \<open>C25. Secrets do not reach the record. Take any text with a parameter of a secret name in it, in whatever case,
  that does not begin in the middle of a word. What is stored of the text as an error, and shown, is the
  same whatever the value of that parameter was: it depends on nothing of the secret, not even its length.\<close>

theorem secrets_do_not_leak:
  assumes "lower name \<in> set SECRET_PARAM_NAMES" "before = [] \<or> \<not> word_char (last before)" "after = [] \<or> \<not> value_char (hd after)"
    and "v \<noteq> [] \<and> list_all value_char v" "w \<noteq> [] \<and> list_all value_char w"
  shows "scrub_secrets (before @ name @ ''='' @ v @ after) = scrub_secrets (before @ name @ ''='' @ w @ after)"
proof -
  have "redact_params False (secret_text before name v after) = redact_params False (secret_text before name w after)"
    by (rule redact_same) (use assms in \<open>auto simp: stops_def\<close>)
  then show ?thesis by (simp add: scrub_secrets_def secret_text_def)
qed

theorem secrets_do_not_leak_witness:
  "scrub_secrets ''GET /x?Token=abc123&page=2'' = scrub_secrets ''GET /x?Token=s&page=2'' \<and> scrub_secrets ''GET /x?Token=s&page=2'' = ''GET /x?Token=<redacted>&page=2''"
proof -
  have "lower ''Token'' \<in> set SECRET_PARAM_NAMES" by code_simp
  moreover have "''GET /x?'' = [] \<or> \<not> word_char (last ''GET /x?'')" by code_simp
  moreover have "''&page=2'' = [] \<or> \<not> value_char (hd ''&page=2'')" by code_simp
  moreover have "''abc123'' \<noteq> [] \<and> list_all value_char ''abc123''" by code_simp
  moreover have "''s'' \<noteq> [] \<and> list_all value_char ''s''" by code_simp
  ultimately have "scrub_secrets (''GET /x?'' @ ''Token'' @ ''='' @ ''abc123'' @ ''&page=2'') = scrub_secrets (''GET /x?'' @ ''Token'' @ ''='' @ ''s'' @ ''&page=2'')"
    by (rule secrets_do_not_leak)
  moreover have "scrub_secrets ''GET /x?Token=s&page=2'' = ''GET /x?Token=<redacted>&page=2''" by code_simp
  ultimately show ?thesis by simp
qed

text \<open>What the redaction does not see: a secret whose name continues a word, and a bearer token that is the value
  of a parameter, of which only the word \<open>Bearer\<close> is redacted.\<close>

lemma client_secret_leaks: "scrub_secrets ''POST client_secret=s3cr3t'' = ''POST client_secret=s3cr3t''"
  by code_simp

lemma bearer_value_leaks: "scrub_secrets ''auth=Bearer s3cr3t'' = ''auth=<redacted> s3cr3t''"
  by code_simp

section \<open>The record of a run\<close>

text \<open>The event lines of an output.\<close>

fun event_lines :: "doc list \<Rightarrow> (string \<times> json) list list" where
  "event_lines [] = []"
| "event_lines (Some (JObj d) # rest) = d # event_lines rest"
| "event_lines (_ # rest) = event_lines rest"

lemma event_lines_append [simp]: "event_lines (xs @ ys) = event_lines xs @ event_lines ys"
  by (induction xs rule: event_lines.induct) auto

lemma event_lines_mem: "d \<in> set (event_lines lines) \<longleftrightarrow> Some (JObj d) \<in> set lines"
  by (induction lines rule: event_lines.induct) auto

lemma run_events_Inr:
  "run_events pid lines a w = (Inr a', w') \<Longrightarrow> a' = fold event_acc (event_lines lines) a \<and> rw_states w' = rw_states w"
  by (induction pid lines a w rule: run_events.induct) auto

lemma run_events_Inl: "run_events pid lines a w = (Inl e, w') \<Longrightarrow> rw_states w' = rw_states w"
  by (induction pid lines a w rule: run_events.induct) auto

lemma report_states: "report_run pid a w = (x, w') \<Longrightarrow> rw_states w' = rw_states w"
  by (auto simp: report_run_def Let_def split: sum.splits if_splits)

lemma run_once_Inr:
  assumes "run_once pid now timeout_s how w = (Inr out, w')"
  obtains a w1 st where "collect_output pid timeout_s how w = (Inr a, w1)" "out = ra_outcome a"
    "finished now a (state_of pid w1) = Inr st" "state_of pid w' = st"
proof -
  from assms obtain a w1 where a: "collect_output pid timeout_s how w = (Inr a, w1)"
    and rest: "io_bind (save_run pid now a) (\<lambda>_. io_bind (report_run pid a) (\<lambda>_. io_return (ra_outcome a))) w1 = (Inr out, w')"
    unfolding run_once_def by (auto simp: io_bind_Inr)
  from rest obtain w2 where s: "save_run pid now a w1 = (Inr (), w2)" and r: "report_run pid a w2 = (Inr (), w')" "out = ra_outcome a"
    by (auto simp: io_bind_Inr)
  from s obtain st where st: "finished now a (state_of pid w1) = Inr st" "w2 = w1\<lparr>rw_states := dict_set pid st (rw_states w1)\<rparr>"
    by (auto simp: save_run_def split: sum.splits)
  with report_states[OF r(1)] have "state_of pid w' = st" by (simp add: state_of_def)
  with a r(2) st that show ?thesis by blast
qed

text \<open>The fields of the record that the run decides, apart from freshness.\<close>

lemma finished_fields:
  assumes "finished now a st = Inr st'"
  shows "ps_last_run st' = Some now" "ps_last_outcome st' = ra_outcome a" "ps_last_error st' = ra_error a"
    "ps_failures st' = (if ra_outcome a = JStr ''done'' then 0 else ps_failures st + 1)"
    "ps_watermark st' = (if ra_watermark a = JNull then ps_watermark st else ra_watermark a)"
    "ps_definition_id st' = (if ra_definition a = JNull then ps_definition_id st else ra_definition a)"
    "ps_validated_at st' = (if ra_validated a = JNull then ps_validated_at st else ra_validated a)"
proof -
  define s1 where "s1 = (if ra_watermark a = JNull then st else st\<lparr>ps_watermark := ra_watermark a\<rparr>)"
  define s2 where "s2 = (if ra_definition a = JNull then s1 else s1\<lparr>ps_definition_id := ra_definition a\<rparr>)"
  define s3 where "s3 = (if ra_validated a = JNull then s2 else s2\<lparr>ps_validated_at := ra_validated a\<rparr>)"
  define s4 where "s4 = record_finish (ra_outcome a) now (ra_error a) s3"
  have "finished now a st = (if ra_accepted a = 0 then Inr s4 else record_yield now (ra_newest a) s4)"
    by (simp add: finished_def Let_def s1_def s2_def s3_def s4_def)
  with assms have "st' = s4 \<or> record_yield now (ra_newest a) s4 = Inr st'" by (auto split: if_splits)
  then obtain y n where "st' = s4\<lparr>ps_last_yield := y, ps_newest_item := n\<rparr>"
    by (auto simp: record_yield_def Let_def res_bind_Inr_iff split: option.splits if_splits)
       (metis plugin_state.surjective plugin_state.update_convs(9,10))+
  then show "ps_last_run st' = Some now" "ps_last_outcome st' = ra_outcome a" "ps_last_error st' = ra_error a"
    "ps_failures st' = (if ra_outcome a = JStr ''done'' then 0 else ps_failures st + 1)"
    "ps_watermark st' = (if ra_watermark a = JNull then ps_watermark st else ra_watermark a)"
    "ps_definition_id st' = (if ra_definition a = JNull then ps_definition_id st else ra_definition a)"
    "ps_validated_at st' = (if ra_validated a = JNull then ps_validated_at st else ra_validated a)"
    by (simp_all add: s4_def s3_def s2_def s1_def record_finish_def)
qed

lemma finished_yield:
  assumes "finished now a st = Inr st'"
  shows "ps_last_yield st' = (if ra_accepted a = 0 then ps_last_yield st else Some now)"
    "instant_of (ps_newest_item st') = (if ra_accepted a = 0 then instant_of (ps_newest_item st)
       else later (instant_of (ps_newest_item st)) (instant_of (ra_newest a)))"
proof -
  obtain s4 where s4: "finished now a st = (if ra_accepted a = 0 then Inr s4 else record_yield now (ra_newest a) s4)"
    "ps_last_yield s4 = ps_last_yield st" "ps_newest_item s4 = ps_newest_item st"
    by (simp add: finished_def Let_def record_finish_def)
  show "ps_last_yield st' = (if ra_accepted a = 0 then ps_last_yield st else Some now)"
    "instant_of (ps_newest_item st') = (if ra_accepted a = 0 then instant_of (ps_newest_item st)
       else later (instant_of (ps_newest_item st)) (instant_of (ra_newest a)))"
    using assms s4 record_yield_later[of now "ra_newest a" s4 st'] by (auto split: if_splits) (metis plugin_state.select_convs(9) plugin_state.surjective plugin_state.update_convs(9,10))
qed

text \<open>The events that report an accepted record, and those of an output the runner reads.\<close>

definition accepts :: "(string \<times> json) list \<Rightarrow> bool" where
  "accepts d \<longleftrightarrow> jget d ''type'' = JStr ''annotation'' \<and> truthy (get_or d ''ok'' (JBool True))"

definition heard :: "worker_end \<Rightarrow> (string \<times> json) list list" where
  "heard how = (case how of Captured lines _ _ \<Rightarrow> filter accepts (event_lines lines) | _ \<Rightarrow> [])"

lemma later_assoc: "later (later x y) z = later x (later y z)"
  by (auto simp: later_def split: option.splits)

lemma later_None [simp]: "later None x = x" "later x None = x"
  by (auto simp: later_def split: option.splits)

lemma instant_newer: "instant_of (newer t best) = later (instant_of best) (instant_of t)"
  by (auto simp: newer_def later_def instant_of_def split: option.splits)

lemma fold_events:
  "ra_accepted (fold event_acc ds a) = ra_accepted a + length (filter accepts ds)
    \<and> instant_of (ra_newest (fold event_acc ds a))
      = fold (\<lambda>d x. later x (instant_of (observed_instant (jget d ''observed_at'')))) (filter accepts ds) (instant_of (ra_newest a))"
  by (induction ds arbitrary: a) (auto simp: event_acc_def accepts_def Let_def instant_newer)

lemma later_fold: "later x (fold (\<lambda>d x. later x (f d)) ds y) = fold (\<lambda>d x. later x (f d)) ds (later x y)"
  by (induction ds arbitrary: y) (simp_all add: later_assoc[symmetric])

text \<open>The error of an output: the reported one, or what the worker left on its standard error when nothing
  was reported.\<close>

definition shown_error :: "string \<Rightarrow> bool \<Rightarrow> json \<Rightarrow> json" where
  "shown_error err cut_off e =
     (let err = (if cut_off then ''[earlier stderr truncated]'' @ [CHR 0x0A] @ err else err) in
      if e = JStr ''worker emitted no result'' \<and> strip err \<noteq> [] then JStr (scrub_secrets (strip err)) else e)"

lemma collected_output:
  assumes "collect_output pid timeout_s (Captured lines err cut_off) w = (Inr a, w')"
  shows "rw_states w' = rw_states w"
    "a = (let b = fold event_acc (event_lines lines) start_acc in b\<lparr>ra_error := shown_error err cut_off (ra_error b)\<rparr>)"
proof -
  let ?err = "if cut_off then ''[earlier stderr truncated]'' @ [CHR 0x0A] @ err else err"
  from assms obtain b w2 where b: "run_events pid lines start_acc w = (Inr b, w2)"
    and rest: "io_return (if ra_error b = NO_RESULT \<and> strip ?err \<noteq> [] then b\<lparr>ra_error := JStr (scrub_secrets (strip ?err))\<rparr> else b) w2 = (Inr a, w')"
    unfolding collect_output_def worker_end.case io_bind_Inr Let_def by blast
  define e' where "e' = ?err"
  have shown: "shown_error err cut_off x = (if x = NO_RESULT \<and> strip e' \<noteq> [] then JStr (scrub_secrets (strip e')) else x)" for x
    unfolding shown_error_def Let_def NO_RESULT_def e'_def by (rule refl)
  from rest have w: "w2 = w'" and a: "a = b\<lparr>ra_error := shown_error err cut_off (ra_error b)\<rparr>"
    unfolding shown e'_def [symmetric] io_return_def by (cases "ra_error b = NO_RESULT \<and> strip e' \<noteq> []"; auto)+
  note b = b[unfolded w]
  with a run_events_Inr [OF b] show "rw_states w' = rw_states w"
    "a = (let b = fold event_acc (event_lines lines) start_acc in b\<lparr>ra_error := shown_error err cut_off (ra_error b)\<rparr>)"
    by (simp_all add: Let_def)
qed

lemma collected:
  assumes "collect_output pid timeout_s how w = (Inr a, w')"
  shows "rw_states w' = rw_states w" "ra_accepted a = length (heard how)"
    "instant_of (ra_newest a) = fold (\<lambda>d x. later x (instant_of (observed_instant (jget d ''observed_at'')))) (heard how) None"
proof -
  have start: "ra_accepted start_acc = 0" "instant_of (ra_newest start_acc) = None" by (simp_all add: start_acc_def instant_of_def)
  have "rw_states w' = rw_states w \<and> ra_accepted a = length (heard how) \<and>
      instant_of (ra_newest a) = fold (\<lambda>d x. later x (instant_of (observed_instant (jget d ''observed_at'')))) (heard how) None"
  proof (cases how)
    case (Captured ls er cu)
    with assms collected_output [of pid timeout_s ls er cu w a w'] start fold_events [of "event_lines ls" start_acc] show ?thesis
      by (simp add: heard_def Let_def)
  qed (use assms start in \<open>auto simp: collect_output_def heard_def\<close>)
  then show "rw_states w' = rw_states w" "ra_accepted a = length (heard how)"
    "instant_of (ra_newest a) = fold (\<lambda>d x. later x (instant_of (observed_instant (jget d ''observed_at'')))) (heard how) None"
    by blast+
qed

lemma fold_result:
  "fold event_acc (ds @ [[(''type'', JStr ''result''), (''outcome'', oc), (''error'', er), (''watermark'', wm), (''definition_id'', di),
       (''definition_validated_at'', va)]]) a
     = (fold event_acc ds a)\<lparr>ra_outcome := oc, ra_error := er, ra_watermark := wm, ra_definition := di, ra_validated := va\<rparr>"
  by (simp add: event_acc_def jget_def get_or_def)

text \<open>A required credential that is not there, and what the worker says of its run.\<close>

definition lacking :: "(string \<times> bool) list \<Rightarrow> (string \<Rightarrow> string option) \<Rightarrow> bool" where
  "lacking required creds \<longleftrightarrow> (\<exists>k. (k, True) \<in> set required \<and> (creds k = None \<or> creds k = Some []))"

definition reported_error :: "string \<Rightarrow> (string \<times> bool) list \<Rightarrow> (string \<Rightarrow> string option) \<Rightarrow> plugin_end \<Rightarrow> json" where
  "reported_error pid required creds how =
     (if lacking required creds
      then JStr (''missing required credential(s): '' @ join '', '' (missing_credentials required creds)
             @ '' - set with: fulcra-collect set-credential '' @ pid @ '' <key>'')
      else case how of Returned \<Rightarrow> JNull | Raised x \<Rightarrow> JStr (scrub_secrets x))"

lemma missing_lacking: "missing_credentials required creds = [] \<longleftrightarrow> \<not> lacking required creds"
proof -
  have "sort xs = [] \<longleftrightarrow> xs = []" for xs :: "string list" by (metis length_0_conv length_sort)
  then show ?thesis by (auto simp: missing_credentials_def lacking_def filter_empty_conv)
qed

lemma run_plugin_result:
  assumes "run_plugin pid required creds st (evs, left, how) = (outcome, events)"
  shows "\<exists>before. events = before @ [result_event (JStr outcome) (reported_error pid required creds how)
      (if lacking required creds then st else left)]"
    and "outcome = (if \<not> lacking required creds \<and> how = Returned then ''done'' else ''error'')"
  using assms missing_lacking [of required creds]
  by (auto simp: run_plugin_def Let_def reported_error_def split: if_splits plugin_end.splits)

text \<open>C24. What the worker reports is what is recorded. When a run's output ends with what the worker wrote for it,
  whatever was printed before, and the run is recorded, then the record names this time and outcome - done
  when every required credential was there and the plugin returned, error otherwise - and its error: none
  after done, the redacted message of the exception, or the missing credentials (and should that message be
  the very one that stands for no result, what the worker left on its standard error, if anything). The
  failures in a row are counted on or reset by the outcome, and the watermark, the definition and the time
  of its validation are those the plugin left - also when it raised after moving them - or, where it left
  none, the ones before. A plugin whose required credentials are missing leaves its state untouched.\<close>

theorem worker_result_is_recorded:
  assumes "run_plugin pid required creds st (evs, left, how) = (outcome, events)"
    and "run_once pid now timeout_s (Captured (noise @ map Some events) err cut_off) w = (Inr reply, w')"
  defines "kept \<equiv> (if lacking required creds then st else left)"
  shows "reply = JStr outcome \<and> outcome = (if \<not> lacking required creds \<and> how = Returned then ''done'' else ''error'')
    \<and> ps_last_run (state_of pid w') = Some now \<and> ps_last_outcome (state_of pid w') = JStr outcome
    \<and> ps_last_error (state_of pid w') = shown_error err cut_off (reported_error pid required creds how)
    \<and> ps_failures (state_of pid w') = (if outcome = ''done'' then 0 else ps_failures (state_of pid w) + 1)
    \<and> ps_watermark (state_of pid w') = (if ps_watermark kept = JNull then ps_watermark (state_of pid w) else ps_watermark kept)
    \<and> ps_definition_id (state_of pid w') = (if ps_definition_id kept = JNull then ps_definition_id (state_of pid w) else ps_definition_id kept)
    \<and> ps_validated_at (state_of pid w') = (if ps_validated_at kept = JNull then ps_validated_at (state_of pid w) else ps_validated_at kept)"
proof -
  define er where "er = reported_error pid required creds how"
  obtain before where ev: "events = before @ [result_event (JStr outcome) er kept]"
    using run_plugin_result(1)[OF assms(1)] by (auto simp: kept_def er_def)
  obtain a w1 s where r: "collect_output pid timeout_s (Captured (noise @ map Some events) err cut_off) w = (Inr a, w1)" "reply = ra_outcome a"
    "finished now a (state_of pid w1) = Inr s" "state_of pid w' = s"
    using assms(2) by (rule run_once_Inr)
  have "event_lines (noise @ map Some events) =
      event_lines (noise @ map Some before) @ [[(''type'', JStr ''result''), (''outcome'', JStr outcome), (''error'', er),
        (''watermark'', ps_watermark kept), (''definition_id'', ps_definition_id kept), (''definition_validated_at'', ps_validated_at kept)]]"
    by (simp add: ev result_event_def)
  with collected_output(2)[OF r(1)] have a: "ra_outcome a = JStr outcome" "ra_error a = shown_error err cut_off er"
      "ra_watermark a = ps_watermark kept" "ra_definition a = ps_definition_id kept" "ra_validated a = ps_validated_at kept"
    by (simp_all only: fold_result Let_def) simp_all
  have "state_of pid w1 = state_of pid w" using collected(1)[OF r(1)] by (simp add: state_of_def)
  with finished_fields[OF r(3)] a r(2,4) run_plugin_result(2)[OF assms(1)] show ?thesis by (simp add: er_def)
qed

text \<open>C26. Freshness counts only records that were heard of. When the output of a run was read to its end and
  the run recorded, the time of the last yield moves exactly when the worker reported an accepted record,
  and the newest source instant is the latest of the one before and those of the accepted records, whatever
  the outcome. When the run timed out, neither moves, even if the worker had reported accepted records
  before it was killed: the runner throws that output away. Nor do they when the worker was not launched.\<close>

theorem freshness_needs_records:
  assumes "run_once pid now timeout_s how w = (Inr reply, w')"
  shows "(\<forall>lines err cut_off. how = Captured lines err cut_off \<longrightarrow>
        ps_last_yield (state_of pid w') =
          (if \<exists>d. Some (JObj d) \<in> set lines \<and> accepts d then Some now else ps_last_yield (state_of pid w))
      \<and> instant_of (ps_newest_item (state_of pid w')) =
          fold (\<lambda>d x. later x (instant_of (observed_instant (jget d ''observed_at'')))) (filter accepts (event_lines lines))
            (instant_of (ps_newest_item (state_of pid w))))
    \<and> (\<forall>lines. how = TimedOut lines \<longrightarrow> ps_last_yield (state_of pid w') = ps_last_yield (state_of pid w)
        \<and> instant_of (ps_newest_item (state_of pid w')) = instant_of (ps_newest_item (state_of pid w)))
    \<and> (\<forall>e. how = NotLaunched e \<longrightarrow> ps_last_yield (state_of pid w') = ps_last_yield (state_of pid w)
        \<and> instant_of (ps_newest_item (state_of pid w')) = instant_of (ps_newest_item (state_of pid w)))"
proof -
  obtain a w1 s where r: "collect_output pid timeout_s how w = (Inr a, w1)" "finished now a (state_of pid w1) = Inr s" "state_of pid w' = s"
    using assms by (rule run_once_Inr)
  have "state_of pid w1 = state_of pid w" using collected(1)[OF r(1)] by (simp add: state_of_def)
  with finished_yield[OF r(2)] collected(2,3)[OF r(1)] r(3) have
    "ps_last_yield (state_of pid w') = (if heard how = [] then ps_last_yield (state_of pid w) else Some now)"
    "instant_of (ps_newest_item (state_of pid w'))
      = fold (\<lambda>d x. later x (instant_of (observed_instant (jget d ''observed_at'')))) (heard how) (instant_of (ps_newest_item (state_of pid w)))"
    by (simp_all add: later_fold)
  then show ?thesis by (auto simp: heard_def filter_empty_conv event_lines_mem)
qed

text \<open>C40. An output that is no list of objects is never recorded. If one line of a worker's output is JSON but no
  object - a number or a list that a helper process printed - the run raises instead of skipping the line:
  no state is written, whatever the worker reported, and a plugin that was due is still due at every later
  tick, so it is started again every time instead of once per interval.\<close>

theorem unwalkable_output_unrecorded:
  assumes "list_all (\<lambda>l. l = None \<or> (\<exists>d. l = Some (JObj d))) before" "\<And>d. j \<noteq> JObj d"
    and "run_once pid now timeout_s (Captured (before @ Some j # after) err cut_off) w = (x, w')"
  shows "x = Inl ''AttributeError'' \<and> rw_states w' = rw_states w
    \<and> (is_due c (rw_states w) t online pid p = Inr True \<longrightarrow> (\<forall>t' \<ge> t. is_due c (rw_states w') t' online pid p = Inr True))"
proof -
  have "fst (run_events pid (before @ Some j # after) a v) = Inl ''AttributeError''" for a v
    using assms(1)
  proof (induction before arbitrary: a v)
    case Nil
    with assms(2) show ?case by (cases j) auto
  next
    case (Cons l ls)
    then show ?case by auto
  qed
  then obtain v where v: "run_events pid (before @ Some j # after) start_acc w = (Inl ''AttributeError'', v)" by (metis prod.collapse)
  from assms(3) v have "x = Inl ''AttributeError''" "w' = v" by (simp_all add: run_once_def collect_output_def io_bind_def)
  moreover have "rw_states v = rw_states w" using v by (rule run_events_Inl)
  ultimately show ?thesis using is_due_later[of c "rw_states w" t online pid p] by simp
qed

section \<open>A run\<close>

text \<open>A worker that reports one accepted record, moves its watermark and then raises, on a machine that had
  collected nothing before; and the same output with the line of a helper process in it.\<close>

definition demo_world :: run_world where
  "demo_world = \<lparr>rw_states = [(''p'', new_state ''p'')], rw_feed = []\<rparr>"

definition demo_now :: pydt where "demo_now = \<lparr>wall = 0, off = Some 0\<rparr>"

definition demo_event :: json where
  "demo_event = JObj [(''type'', JStr ''annotation''), (''summary'', JStr ''one''), (''ok'', JBool True)]"

definition demo_left :: plugin_state where
  "demo_left = (new_state ''p'')\<lparr>ps_watermark := JStr ''w1''\<rparr>"

lemma demo_worker:
  "run_plugin ''p'' [] (\<lambda>_. None) (new_state ''p'') ([demo_event], demo_left, Raised ''boom'')
     = (''error'', [demo_event, result_event (JStr ''error'') (JStr ''boom'') demo_left])"
  by code_simp

lemma demo_run:
  "fst (run_once ''p'' demo_now 900 (Captured ([None] @ map Some [demo_event, result_event (JStr ''error'') (JStr ''boom'') demo_left]) [] False) demo_world)
     = Inr (JStr ''error'')"
  by code_simp

theorem worker_result_is_recorded_witness:
  "\<exists>w'. run_once ''p'' demo_now 900 (Captured ([None] @ map Some [demo_event, result_event (JStr ''error'') (JStr ''boom'') demo_left]) [] False) demo_world
       = (Inr (JStr ''error''), w')
     \<and> ps_watermark (state_of ''p'' w') = JStr ''w1'' \<and> ps_failures (state_of ''p'' w') = 1
     \<and> ps_last_error (state_of ''p'' w') = JStr ''boom''"
proof -
  obtain w' where r: "run_once ''p'' demo_now 900 (Captured ([None] @ map Some [demo_event, result_event (JStr ''error'') (JStr ''boom'') demo_left]) [] False)
      demo_world = (Inr (JStr ''error''), w')"
    using demo_run by (metis prod.collapse)
  have "\<not> lacking [] (\<lambda>_. None)" by (simp add: lacking_def)
  moreover have "scrub_secrets ''boom'' = ''boom''" by code_simp
  ultimately have "ps_watermark (state_of ''p'' w') = JStr ''w1''" "ps_failures (state_of ''p'' w') = 1" "ps_last_error (state_of ''p'' w') = JStr ''boom''"
    using worker_result_is_recorded[OF demo_worker r]
    by (simp_all add: demo_left_def demo_world_def state_of_def new_state_def shown_error_def reported_error_def)
  with r show ?thesis by blast
qed

lemma demo_timeout: "fst (run_once ''p'' demo_now 900 (TimedOut [Some demo_event]) demo_world) = Inr (JStr ''timeout'')"
  by code_simp

theorem freshness_needs_records_witness:
  "(\<exists>w'. run_once ''p'' demo_now 900 (Captured ([None] @ map Some [demo_event, result_event (JStr ''error'') (JStr ''boom'') demo_left]) [] False) demo_world
       = (Inr (JStr ''error''), w') \<and> ps_last_yield (state_of ''p'' w') = Some demo_now)
   \<and> (\<exists>w'. run_once ''p'' demo_now 900 (TimedOut [Some demo_event]) demo_world = (Inr (JStr ''timeout''), w')
       \<and> ps_last_yield (state_of ''p'' w') = None)"
proof (rule conjI)
  obtain w' where r: "run_once ''p'' demo_now 900 (Captured ([None] @ map Some [demo_event, result_event (JStr ''error'') (JStr ''boom'') demo_left]) [] False)
      demo_world = (Inr (JStr ''error''), w')"
    using demo_run by (metis prod.collapse)
  have "accepts [(''type'', JStr ''annotation''), (''summary'', JStr ''one''), (''ok'', JBool True)]"
    by (simp add: accepts_def jget_def get_or_def)
  then have "\<exists>d. Some (JObj d) \<in> set ([None] @ map Some [demo_event, result_event (JStr ''error'') (JStr ''boom'') demo_left]) \<and> accepts d"
    by (auto simp: demo_event_def)
  note accepted = if_P[OF this]
  have "ps_last_yield (state_of ''p'' w') =
      (if \<exists>d. Some (JObj d) \<in> set ([None] @ map Some [demo_event, result_event (JStr ''error'') (JStr ''boom'') demo_left]) \<and> accepts d
       then Some demo_now else ps_last_yield (state_of ''p'' demo_world))"
    by (rule freshness_needs_records[OF r, THEN conjunct1, rule_format, OF refl, THEN conjunct1])
  from trans[OF this accepted] have "ps_last_yield (state_of ''p'' w') = Some demo_now" .
  with r show "\<exists>w'. run_once ''p'' demo_now 900 (Captured ([None] @ map Some [demo_event, result_event (JStr ''error'') (JStr ''boom'') demo_left]) [] False)
      demo_world = (Inr (JStr ''error''), w') \<and> ps_last_yield (state_of ''p'' w') = Some demo_now" by blast
  obtain w'' where t: "run_once ''p'' demo_now 900 (TimedOut [Some demo_event]) demo_world = (Inr (JStr ''timeout''), w'')"
    using demo_timeout by (metis prod.collapse)
  with freshness_needs_records[OF t] show "\<exists>w'. run_once ''p'' demo_now 900 (TimedOut [Some demo_event]) demo_world = (Inr (JStr ''timeout''), w')
       \<and> ps_last_yield (state_of ''p'' w') = None"
    by (simp add: demo_world_def state_of_def new_state_def)
qed

theorem unwalkable_output_unrecorded_witness:
  "\<exists>w'. run_once ''p'' demo_now 900 (Captured ([None] @ Some (JNum 5) # map Some [demo_event, result_event (JStr ''done'') JNull demo_left]) [] False) demo_world
       = (Inl ''AttributeError'', w') \<and> rw_states w' = rw_states demo_world
     \<and> is_due demo_config (rw_states w') 7 True ''p'' demo_plugin = Inr True"
proof -
  obtain x w' where r: "run_once ''p'' demo_now 900 (Captured ([None] @ Some (JNum 5) # map Some [demo_event, result_event (JStr ''done'') JNull demo_left])
      [] False) demo_world = (x, w')"
    by fastforce
  have d: "is_due demo_config (rw_states demo_world) 0 True ''p'' demo_plugin = Inr True" by code_simp
  have "list_all (\<lambda>l. l = None \<or> (\<exists>d. l = Some (JObj d))) [None]" "\<And>d. JNum 5 \<noteq> JObj d" by simp_all
  note u = unwalkable_output_unrecorded[OF this r, where c = demo_config and t = 0 and online = True and p = demo_plugin]
  with d have "\<forall>t' \<ge> 0. is_due demo_config (rw_states w') t' True ''p'' demo_plugin = Inr True" by blast
  then have "is_due demo_config (rw_states w') 7 True ''p'' demo_plugin = Inr True" by simp
  with u r show ?thesis by blast
qed

end
