(* ===== verification/Media_Import.thy ===== *)
theory Media_Import
  imports Py_IO
begin

text \<open>
  packages/media-helpers: fulcra.py, the import of normalized events. Readback and dedup per chunk, claims
  before the batch is posted and their release when it fails, and the delayed verification of what landed.

  The service, the clock and the claim store are operations over an arbitrary world. Sets are lists; times
  are microseconds. The events of an importer are already validated (importers/base.py).
\<close>

section \<open>Events\<close>

record nevent =
  ne_service :: string
  ne_category :: string
  ne_note :: string
  ne_start :: int
  ne_end :: int
  ne_det :: string
  ne_confidence :: string
  ne_external :: "(string \<times> json) list"
  ne_extra :: "string list"

record media_state =
  ms_watched :: "string option"
  ms_listened :: "string option"
  ms_read :: "string option"
  ms_tags :: "(string \<times> string) list"

text \<open>A typed record of the wire; the dash of the marker is written as two hyphens.\<close>

record typed_record =
  ty_start :: int
  ty_end :: int
  ty_sources :: "string list"
  ty_tags :: "string list"
  ty_note :: string

definition LOW_CONFIDENCE_NOTE_MARKER :: string where
  "LOW_CONFIDENCE_NOTE_MARKER = '' [time unreliable]''"

definition BULK_IMPORT_NOTE_MARKER :: string where
  "BULK_IMPORT_NOTE_MARKER = '' [bulk import '' @ em_dash @ '' time unreliable]''"

definition mark_if_low_confidence :: "string \<Rightarrow> string \<Rightarrow> (string \<times> json) list \<Rightarrow> string" where
  "mark_if_low_confidence txt confidence ext =
     (if confidence \<noteq> ''low'' \<or> find_text txt BULK_IMPORT_NOTE_MARKER \<noteq> None \<or> find_text txt LOW_CONFIDENCE_NOTE_MARKER \<noteq> None then txt
      else txt @ (if truthy (jget ext ''timestamp_cluster_size'') then BULK_IMPORT_NOTE_MARKER else LOW_CONFIDENCE_NOTE_MARKER))"

definition ANNOTATION_PREFIX :: string where "ANNOTATION_PREFIX = ''com.fulcradynamics.annotation.''"

definition build_typed_record :: "nevent \<Rightarrow> string \<Rightarrow> string list \<Rightarrow> typed_record" where
  "build_typed_record e def_id tags =
     \<lparr>ty_start = ne_start e, ty_end = ne_end e,
      ty_sources = ne_det e # ne_extra e @ (if def_id \<noteq> [] then [ANNOTATION_PREFIX @ def_id] else []),
      ty_tags = tags, ty_note = mark_if_low_confidence (ne_note e) (ne_confidence e) (ne_external e)\<rparr>"

definition definition_of :: "media_state \<Rightarrow> string \<Rightarrow> string option" where
  "definition_of st category =
     (if category = ''watched'' then ms_watched st else if category = ''listened'' then ms_listened st
      else if category = ''read'' then ms_read st else None)"

definition tag_of :: "media_state \<Rightarrow> string \<Rightarrow> string list" where
  "tag_of st service = (case map_of (ms_tags st) service of Some t \<Rightarrow> if t \<noteq> [] then [t] else [] | None \<Rightarrow> [])"

fun typed_records :: "media_state \<Rightarrow> nevent list \<Rightarrow> string + typed_record list" where
  "typed_records st [] = Inr []"
| "typed_records st (e # es) =
     (case definition_of st (ne_category e) of
        None \<Rightarrow> Inl ''RuntimeError''
      | Some d \<Rightarrow> map_sum id (\<lambda>rs. build_typed_record e d (tag_of st (ne_service e)) # rs) (typed_records st es))"

definition MEDIA_NAMESPACE :: string where "MEDIA_NAMESPACE = ''com.fulcra.media.''"

definition importer_namespace_prefix :: "string \<Rightarrow> string option" where
  "importer_namespace_prefix det_id =
     (if \<not> startswith det_id MEDIA_NAMESPACE then None
      else case partition_char (CHR ''.'') (drop (length MEDIA_NAMESPACE) det_id) of
             (seg, _, rest) \<Rightarrow> if seg = [] \<or> rest = [] then None else Some (MEDIA_NAMESPACE @ seg @ ''.''))"

definition without_sources :: "string list \<Rightarrow> nevent \<Rightarrow> nevent" where
  "without_sources drop_ids e = e\<lparr>ne_extra := filter (\<lambda>s. s \<notin> set drop_ids) (ne_extra e)\<rparr>"

definition keyset :: "nevent \<Rightarrow> string list" where
  "keyset e = remdups (ne_det e # ne_extra e)"

section \<open>The surroundings\<close>

record 'w menv =
  me_now :: "'w \<Rightarrow> int \<times> 'w"
  me_summary :: "int \<Rightarrow> int \<Rightarrow> ('w, int) io"
  me_groups :: "int \<Rightarrow> int \<Rightarrow> string list option \<Rightarrow> ('w, string list list) io"
  me_ingest :: "typed_record list \<Rightarrow> ('w, unit) io"
  me_visible :: "string list \<Rightarrow> int \<Rightarrow> int \<Rightarrow> ('w, string list) io"
  me_sleep :: "'w \<Rightarrow> 'w"
  me_claim :: "(string list \<Rightarrow> ('w, bool) io) option"
  me_unclaim :: "(string list \<Rightarrow> ('w, unit) io) option"

definition minute_us :: int where "minute_us = 60000000"
definition UPDATES_GATE_MAX_SPAN :: int where "UPDATES_GATE_MAX_SPAN = 48 * 60 * minute_us"
definition LANDED_VERIFY_ATTEMPTS :: nat where "LANDED_VERIFY_ATTEMPTS = 4"

text \<open>\<open>fetch_existing_source_ids\<close>: the flat union of the groups.\<close>

definition fetch_existing_source_ids :: "'w menv \<Rightarrow> int \<Rightarrow> int \<Rightarrow> string list option \<Rightarrow> ('w, string list) io" where
  "fetch_existing_source_ids E a b defs = io_bind (me_groups E a b defs) (\<lambda>gs. io_return (concat gs))"

definition ingest_batch_typed :: "'w menv \<Rightarrow> media_state \<Rightarrow> nevent list \<Rightarrow> ('w, unit) io" where
  "ingest_batch_typed E st events =
     (if events = [] then io_return () else io_bind (io_of (typed_records st events)) (\<lambda>rs. me_ingest E rs))"

definition current_defs :: "media_state \<Rightarrow> string list option" where
  "current_defs st =
     (let ds = map (\<lambda>d. ANNOTATION_PREFIX @ d) (filter (\<lambda>d. d \<noteq> []) (concat (map (\<lambda>d. case d of None \<Rightarrow> [] | Some x \<Rightarrow> [x])
         [ms_watched st, ms_listened st, ms_read st]))) in
      if ds = [] then None else Some (remdups ds))"

section \<open>One chunk\<close>

definition read_existing :: "'w menv \<Rightarrow> media_state \<Rightarrow> int \<Rightarrow> int \<Rightarrow> ('w, string list list) io" where
  "read_existing E st win_start win_end =
     io_bind (\<lambda>w. case me_now E w of (t, w') \<Rightarrow> (Inr t, w')) (\<lambda>now.
     io_bind (if 0 \<le> now - win_start \<and> now - win_start \<le> UPDATES_GATE_MAX_SPAN
              then io_catch (io_bind (me_summary E win_start (max win_end now)) (\<lambda>n. io_return (n = 0))) (\<lambda>_. io_return False)
              else io_return False) (\<lambda>skip.
     if skip then io_return [] else me_groups E win_start win_end (current_defs st)))"

definition same_source :: "string list list \<Rightarrow> string list \<Rightarrow> nevent \<Rightarrow> bool" where
  "same_source groups fps e =
     (case importer_namespace_prefix (ne_det e) of
        None \<Rightarrow> False
      | Some p \<Rightarrow> list_all (\<lambda>g. set g \<inter> set fps = {} \<or> list_ex (\<lambda>s. startswith s p) g) groups)"

fun survivors :: "string list list \<Rightarrow> nevent list \<Rightarrow> nevent list" where
  "survivors groups [] = []"
| "survivors groups (e # es) =
     (let fps = filter (\<lambda>f. f \<in> set (concat groups)) (ne_extra e) in
      if ne_det e \<in> set (concat groups) then survivors groups es
      else if fps = [] then e # survivors groups es
      else if same_source groups fps e then without_sources fps e # survivors groups es
      else survivors groups es)"

text \<open>The events whose claim was granted, and the keys this run holds.\<close>

fun claim_events :: "(string list \<Rightarrow> ('w, bool) io) \<Rightarrow> string list \<Rightarrow> nevent list \<Rightarrow> ('w, nevent list \<times> string list) io" where
  "claim_events claim ours [] = io_return ([], ours)"
| "claim_events claim ours (e # es) =
     (let e = without_sources ours e in
      io_bind (claim (keyset e)) (\<lambda>granted.
      if granted then io_bind (claim_events claim (keyset e @ ours) es) (\<lambda>(ok, ours). io_return (e # ok, ours))
      else claim_events claim ours es))"

definition release :: "'w menv \<Rightarrow> string list \<Rightarrow> ('w, unit) io" where
  "release E keys =
     (case me_unclaim E of
        None \<Rightarrow> io_return ()
      | Some un \<Rightarrow> if keys = [] then io_return () else io_catch (un keys) (\<lambda>_. io_return ()))"

record import_acc =
  ia_posted :: nat
  ia_skipped :: nat
  ia_verified :: nat
  ia_ours :: "string list"
  ia_pending :: "(int \<times> int \<times> (string \<times> string list) list) list"

definition all_keys :: "nevent list \<Rightarrow> string list" where
  "all_keys es = concat (map keyset es)"

definition post_chunk :: "'w menv \<Rightarrow> media_state \<Rightarrow> int \<Rightarrow> int \<Rightarrow> nevent list \<Rightarrow> import_acc \<Rightarrow> ('w, import_acc) io" where
  "post_chunk E st win_start win_end new_events a =
     io_bind (io_catch (ingest_batch_typed E st new_events) (\<lambda>err.
       io_bind (if me_claim E = None then io_return () else release E (all_keys new_events)) (\<lambda>_. io_raise err))) (\<lambda>_.
     io_bind (fetch_existing_source_ids E win_start win_end (current_defs st)) (\<lambda>seen.
     let missing = fold (\<lambda>e d. dict_set (ne_det e) (keyset e) d) (filter (\<lambda>e. ne_det e \<notin> set seen) new_events) [] in
     io_return (a\<lparr>ia_posted := ia_posted a + length new_events,
                  ia_verified := ia_verified a + length (filter (\<lambda>e. ne_det e \<in> set seen) new_events),
                  ia_pending := ia_pending a @ (if me_claim E \<noteq> None \<and> missing \<noteq> [] then [(win_start, win_end, missing)] else [])\<rparr>)))"

definition import_chunk :: "'w menv \<Rightarrow> media_state \<Rightarrow> int \<Rightarrow> bool \<Rightarrow> nevent list \<Rightarrow> import_acc \<Rightarrow> ('w, import_acc) io" where
  "import_chunk E st pad check_only chunk a =
     (let win_start = Min (set (map ne_start chunk)) - pad * minute_us; win_end = Max (set (map ne_end chunk)) + pad * minute_us in
      io_bind (read_existing E st win_start win_end) (\<lambda>groups.
      let new_events = survivors groups chunk; a = a\<lparr>ia_skipped := ia_skipped a + (length chunk - length new_events)\<rparr> in
      io_bind (case me_claim E of
           Some claim \<Rightarrow> if check_only then io_return (new_events, ia_ours a) else claim_events claim (ia_ours a) new_events
         | None \<Rightarrow> io_return (new_events, ia_ours a)) (\<lambda>(granted, ours).
      let a = a\<lparr>ia_skipped := ia_skipped a + (length new_events - length granted), ia_ours := ours\<rparr> in
      if granted = [] then io_return a
      else if check_only then io_return (a\<lparr>ia_posted := ia_posted a + length granted\<rparr>)
      else post_chunk E st win_start win_end granted a)))"

fun import_chunks :: "'w menv \<Rightarrow> media_state \<Rightarrow> int \<Rightarrow> bool \<Rightarrow> nevent list list \<Rightarrow> import_acc \<Rightarrow> ('w, import_acc) io" where
  "import_chunks E st pad check_only [] a = io_return a"
| "import_chunks E st pad check_only (c # cs) a =
     io_bind (import_chunk E st pad check_only c a) (\<lambda>a. import_chunks E st pad check_only cs a)"

section \<open>The delayed verification\<close>

type_synonym pending = "(int \<times> int \<times> (string \<times> string list) list) list"

text \<open>\<open>del missing[det_id]\<close> for every id found: whether all of them were there.\<close>

fun drop_found :: "string list \<Rightarrow> (string \<times> string list) list \<Rightarrow> (string \<times> string list) list \<times> bool" where
  "drop_found [] m = (m, True)"
| "drop_found (x # xs) m = (if map_of m x = None then (m, False) else drop_found xs (dict_pop x m))"

fun verify_pass :: "'w menv \<Rightarrow> pending \<Rightarrow> 'w \<Rightarrow> (pending \<times> nat \<times> bool) \<times> 'w" where
  "verify_pass E [] w = (([], 0, True), w)"
| "verify_pass E ((a, b, missing) # rest) w =
     (if missing = [] then (case verify_pass E rest w of ((p, n, ok), w') \<Rightarrow> (((a, b, missing) # p, n, ok), w'))
      else case me_visible E (map fst missing) a b w of
        (Inl err, w') \<Rightarrow> (((a, b, missing) # rest, 0, False), w')
      | (Inr found, w') \<Rightarrow>
          (case drop_found found missing of
             (m, False) \<Rightarrow> (((a, b, m) # rest, 0, False), w')
           | (m, True) \<Rightarrow> (case verify_pass E rest w' of ((p, n, ok), w'') \<Rightarrow> (((a, b, m) # p, length found + n, ok), w''))))"

fun verify_attempts :: "'w menv \<Rightarrow> nat \<Rightarrow> pending \<Rightarrow> nat \<Rightarrow> 'w \<Rightarrow> (pending \<times> nat \<times> bool) \<times> 'w" where
  "verify_attempts E 0 p v w = ((p, v, True), w)"
| "verify_attempts E (Suc n) p v w =
     (case verify_pass E p (me_sleep E w) of
        ((p', k, ok), w') \<Rightarrow>
          if \<not> ok \<or> list_all (\<lambda>(a, b, m). m = []) p' then ((p', v + k, ok), w') else verify_attempts E n p' (v + k) w')"

definition still_missing :: "pending \<Rightarrow> (string \<times> string list) list" where
  "still_missing p = fold (\<lambda>(a, b, m) d. fold (\<lambda>(k, ks). dict_set k ks) m d) p []"

definition verify_landed :: "'w menv \<Rightarrow> pending \<Rightarrow> ('w, nat) io" where
  "verify_landed E p w =
     (case verify_attempts E LANDED_VERIFY_ATTEMPTS p 0 w of
        ((p', v, ok), w') \<Rightarrow>
          if \<not> ok \<or> still_missing p' = [] then (Inr v, w')
          else io_bind (release E (remdups (concat (map snd (still_missing p'))))) (\<lambda>_. io_return v) w')"

section \<open>The import\<close>

record import_result =
  ir_total :: nat
  ir_skipped_existing :: nat
  ir_posted :: nat
  ir_verified :: nat

function chunked :: "nat \<Rightarrow> 'a list \<Rightarrow> 'a list list" where
  "chunked n xs = (if xs = [] \<or> n = 0 then [] else take n xs # chunked n (drop n xs))"
  by pat_completeness auto
termination by (relation "measure (length \<circ> snd)") auto

declare chunked.simps [simp del]

definition empty_acc :: import_acc where
  "empty_acc = \<lparr>ia_posted = 0, ia_skipped = 0, ia_verified = 0, ia_ours = [], ia_pending = []\<rparr>"

definition run_import :: "'w menv \<Rightarrow> media_state \<Rightarrow> nat \<Rightarrow> int \<Rightarrow> bool \<Rightarrow> nevent list \<Rightarrow> ('w, import_result) io" where
  "run_import E st chunk_size pad check_only events =
     (if events = [] then io_return \<lparr>ir_total = 0, ir_skipped_existing = 0, ir_posted = 0, ir_verified = 0\<rparr>
      else if chunk_size = 0 then io_raise ''ValueError''
      else
        io_bind (import_chunks E st pad check_only (chunked chunk_size (sort_key ne_start events)) empty_acc) (\<lambda>a.
        io_bind (if ia_pending a \<noteq> [] \<and> \<not> check_only then verify_landed E (ia_pending a) else io_return 0) (\<lambda>v.
        io_return \<lparr>ir_total = length events, ir_skipped_existing = ia_skipped a, ir_posted = ia_posted a, ir_verified = ia_verified a + v\<rparr>)))"

end
