(* ===== verification/Media_Props.thy ===== *)
theory Media_Props
  imports Media_Import Collect_Store
begin

text \<open>
  The import writes down what it does to the claim store and to the service: every record written was claimed
  first, no claim outlives a record that was not written, the counts add up, the verification is bounded, and
  a dry run touches neither.
\<close>

section \<open>A log of effects\<close>

datatype import_effect = Granted "string list" | Refused "string list" | Wrote "typed_record list" | Released "string list" | Slept

definition noting :: "('r \<Rightarrow> 'e list) \<Rightarrow> ('w \<Rightarrow> 'r \<times> 'w) \<Rightarrow> 'w \<times> 'e list \<Rightarrow> 'r \<times> ('w \<times> 'e list)" where
  "noting f m = (\<lambda>(w, l). case m w of (r, w') \<Rightarrow> (r, (w', l @ f r)))"

definition claim_entry :: "string list \<Rightarrow> string + bool \<Rightarrow> import_effect list" where
  "claim_entry ks r = (case r of Inr True \<Rightarrow> [Granted ks] | Inr False \<Rightarrow> [Refused ks] | Inl _ \<Rightarrow> [])"

definition done_entry :: "import_effect \<Rightarrow> string + unit \<Rightarrow> import_effect list" where
  "done_entry x r = (case r of Inr _ \<Rightarrow> [x] | Inl _ \<Rightarrow> [])"

definition watched_import :: "'w menv \<Rightarrow> ('w \<times> import_effect list) menv" where
  "watched_import E = \<lparr>me_now = noting (\<lambda>_. []) (me_now E), me_summary = (\<lambda>a b. noting (\<lambda>_. []) (me_summary E a b)),
     me_groups = (\<lambda>a b d. noting (\<lambda>_. []) (me_groups E a b d)), me_ingest = (\<lambda>rs. noting (done_entry (Wrote rs)) (me_ingest E rs)),
     me_visible = (\<lambda>ks a b. noting (\<lambda>_. []) (me_visible E ks a b)), me_sleep = (\<lambda>(w, l). (me_sleep E w, l @ [Slept])),
     me_claim = map_option (\<lambda>c ks. noting (claim_entry ks) (c ks)) (me_claim E),
     me_unclaim = map_option (\<lambda>u ks. noting (done_entry (Released ks)) (u ks)) (me_unclaim E)\<rparr>"

text \<open>\<open>logs Q m\<close>: what \<open>m\<close> appends to the log, with how it ends, satisfies \<open>Q\<close>.\<close>

definition logs :: "('r \<Rightarrow> 'e list \<Rightarrow> bool) \<Rightarrow> ('w \<times> 'e list \<Rightarrow> 'r \<times> ('w \<times> 'e list)) \<Rightarrow> bool" where
  "logs Q m \<longleftrightarrow> (\<forall>w l. \<exists>r w' l'. m (w, l) = (r, (w', l @ l')) \<and> Q r l')"

lemma logsI: "(\<And>w l. \<exists>r w' l'. m (w, l) = (r, (w', l @ l')) \<and> Q r l') \<Longrightarrow> logs Q m"
  by (simp add: logs_def)

lemma logsD: "logs Q m \<Longrightarrow> \<exists>r w' l'. m (w, l) = (r, (w', l @ l')) \<and> Q r l'"
  by (simp add: logs_def)

lemma logs_result: "logs Q m \<Longrightarrow> m (w, l) = (r, (w', l'')) \<Longrightarrow> \<exists>l'. l'' = l @ l' \<and> Q r l'"
  by (drule logsD[of Q m w l]) auto

lemma logs_mono: "logs P m \<Longrightarrow> (\<And>r l. P r l \<Longrightarrow> Q r l) \<Longrightarrow> logs Q m"
  unfolding logs_def by meson

lemma logs_noting [intro]: "(\<And>r. Q r (f r)) \<Longrightarrow> logs Q (noting f m)"
  by (auto simp: logs_def noting_def split: prod.splits)

lemma logs_return: "Q (Inr a) [] \<Longrightarrow> logs Q (io_return a)"
  by (auto simp: logs_def)

lemma logs_raise: "Q (Inl e) [] \<Longrightarrow> logs Q (io_raise e)"
  by (auto simp: logs_def)

lemma logs_of: "Q r [] \<Longrightarrow> logs Q (io_of r)"
  by (auto simp: logs_def)

lemma logs_bind:
  assumes "logs P m" "\<And>a l. P (Inr a) l \<Longrightarrow> logs (\<lambda>r l'. Q r (l @ l')) (f a)" "\<And>e l. P (Inl e) l \<Longrightarrow> Q (Inl e) l"
  shows "logs Q (io_bind m f)"
proof (rule logsI)
  fix w l
  from logsD[OF assms(1), of w l] obtain r w1 l1 where m: "m (w, l) = (r, (w1, l @ l1))" "P r l1" by blast
  show "\<exists>r w' l'. io_bind m f (w, l) = (r, (w', l @ l')) \<and> Q r l'"
  proof (cases r)
    case (Inl e)
    with m assms(3) show ?thesis by (auto simp: io_bind_def)
  next
    case (Inr a)
    with m assms(2) have "logs (\<lambda>r l'. Q r (l1 @ l')) (f a)" by blast
    from logsD[OF this, of w1 "l @ l1"] m Inr show ?thesis by (auto simp: io_bind_def)
  qed
qed

lemma logs_catch:
  assumes "logs P m" "\<And>e l. P (Inl e) l \<Longrightarrow> logs (\<lambda>r l'. Q r (l @ l')) (h e)" "\<And>a l. P (Inr a) l \<Longrightarrow> Q (Inr a) l"
  shows "logs Q (io_catch m h)"
proof (rule logsI)
  fix w l
  from logsD[OF assms(1), of w l] obtain r w1 l1 where m: "m (w, l) = (r, (w1, l @ l1))" "P r l1" by blast
  show "\<exists>r w' l'. io_catch m h (w, l) = (r, (w', l @ l')) \<and> Q r l'"
  proof (cases r)
    case (Inr a)
    with m assms(3) show ?thesis by (auto simp: io_catch_def)
  next
    case (Inl e)
    with m assms(2) have "logs (\<lambda>r l'. Q r (l1 @ l')) (h e)" by blast
    from logsD[OF this, of w1 "l @ l1"] m Inl show ?thesis by (auto simp: io_catch_def)
  qed
qed

abbreviation silent :: "'r \<Rightarrow> 'e list \<Rightarrow> bool" where
  "silent \<equiv> \<lambda>_ l. l = []"

lemma logs_silent_bind: "logs silent m \<Longrightarrow> (\<And>a. logs Q (f a)) \<Longrightarrow> (\<And>e. Q (Inl e) []) \<Longrightarrow> logs Q (io_bind m f)"
  by (rule logs_bind[where P = silent]) auto

section \<open>What survives the readback\<close>

lemma survivors_new: "e \<in> set (survivors groups es) \<Longrightarrow> set (keyset e) \<inter> set (concat groups) = {}"
proof (induction groups es rule: survivors.induct)
  case (2 groups x es)
  let ?f = "filter (\<lambda>f. f \<in> set (concat groups)) (ne_extra x)"
  have "set (keyset x) \<inter> set (concat groups) = {}" if "ne_det x \<notin> set (concat groups)" "?f = []"
    using that by (auto simp: keyset_def filter_empty_conv)
  moreover have "set (keyset (without_sources ?f x)) \<inter> set (concat groups) = {}" if "ne_det x \<notin> set (concat groups)"
    using that by (auto simp: keyset_def without_sources_def)
  ultimately show ?case using 2 by (auto simp: Let_def simp del: set_concat split: if_splits)
qed simp

lemma survivors_kept: "e \<in> set es \<Longrightarrow> set (keyset e) \<inter> set (concat groups) = {} \<Longrightarrow> e \<in> set (survivors groups es)"
proof (induction groups es rule: survivors.induct)
  case (2 groups x es)
  show ?case
  proof (cases "e = x")
    case True
    with 2(6) have "ne_det x \<notin> set (concat groups)" "filter (\<lambda>f. f \<in> set (concat groups)) (ne_extra x) = []"
      by (auto simp: keyset_def filter_empty_conv)
    with True show ?thesis by simp
  next
    case False
    with 2(5) have "e \<in> set es" by simp
    with 2 show ?thesis by (auto simp: Let_def)
  qed
qed simp

lemma survivors_length: "length (survivors groups es) \<le> length es"
  by (induction es) (auto simp: Let_def)

section \<open>The ledger of a run\<close>

fun held :: "import_effect list \<Rightarrow> string set \<Rightarrow> string set" where
  "held [] H = H"
| "held (Granted ks # l) H = held l (H \<union> set ks)"
| "held (Released ks # l) H = held l (H - set ks)"
| "held (x # l) H = held l H"

text \<open>The keys of a record, as it is written: its sources but the one that binds it to its definition.\<close>

definition wire_keys :: "typed_record \<Rightarrow> string set" where
  "wire_keys r = {s \<in> set (ty_sources r). \<not> startswith s ANNOTATION_PREFIX}"

fun written :: "import_effect list \<Rightarrow> string set" where
  "written [] = {}"
| "written (Wrote rs # l) = (\<Union>r \<in> set rs. set (ty_sources r)) \<union> written l"
| "written (x # l) = written l"

fun claimed_first :: "import_effect list \<Rightarrow> string set \<Rightarrow> bool" where
  "claimed_first [] H = True"
| "claimed_first (Granted ks # l) H = claimed_first l (H \<union> set ks)"
| "claimed_first (Released ks # l) H = claimed_first l (H - set ks)"
| "claimed_first (Wrote rs # l) H = ((\<forall>r \<in> set rs. wire_keys r \<subseteq> H) \<and> claimed_first l H)"
| "claimed_first (x # l) H = claimed_first l H"

lemma held_append [simp]: "held (l @ l') H = held l' (held l H)"
  by (induction l H rule: held.induct) auto

lemma claimed_first_append [simp]: "claimed_first (l @ l') H \<longleftrightarrow> claimed_first l H \<and> claimed_first l' (held l H)"
  by (induction l H rule: claimed_first.induct) auto

lemma written_append [simp]: "written (l @ l') = written l \<union> written l'"
  by (induction l rule: written.induct) auto

text \<open>A stretch of the log that keeps the discipline from whatever is held before it.\<close>

definition disciplined_import :: "import_effect list \<Rightarrow> bool" where
  "disciplined_import l \<longleftrightarrow> (\<forall>H. claimed_first l H \<and> held l H \<subseteq> H \<union> written l) \<and> Slept \<notin> set l"

lemma disciplined_Nil [simp]: "disciplined_import []"
  by (simp add: disciplined_import_def)

lemma disciplined_both: "disciplined_import l \<Longrightarrow> disciplined_import l' \<Longrightarrow> disciplined_import (l @ l')"
  unfolding disciplined_import_def by (simp add: Un_assoc) blast

definition claims_only :: "nevent list \<Rightarrow> import_effect list \<Rightarrow> bool" where
  "claims_only es l \<longleftrightarrow> (\<forall>H. claimed_first l H \<and> held l H = H \<union> set (all_keys es)) \<and> written l = {} \<and> Slept \<notin> set l"

lemma all_keys_simps [simp]: "all_keys [] = []" "all_keys (e # es) = keyset e @ all_keys es"
  by (simp_all add: all_keys_def)

text \<open>A claim store that always answers.\<close>

definition answers_always :: "(string list \<Rightarrow> ('w, 'a) io) \<Rightarrow> bool" where
  "answers_always m \<longleftrightarrow> (\<forall>ks w. \<exists>b w'. m ks w = (Inr b, w'))"

lemma logs_claim:
  assumes "answers_always cl"
  shows "logs (\<lambda>r l. \<exists>b. r = Inr b \<and> l = (if b then [Granted ks] else [Refused ks])) (noting (claim_entry ks) (cl ks))"
proof (rule logsI)
  fix w and l :: "import_effect list"
  from assms obtain b w' where "cl ks w = (Inr b, w')" unfolding answers_always_def by blast
  then show "\<exists>r w' l'. noting (claim_entry ks) (cl ks) (w, l) = (r, (w', l @ l')) \<and> (\<exists>b. r = Inr b \<and> l' = (if b then [Granted ks] else [Refused ks]))"
    by (simp add: noting_def claim_entry_def)
qed

lemma logs_claims:
  assumes "answers_always cl"
  shows "logs (\<lambda>r l. \<exists>ok ours'. r = Inr (ok, ours') \<and> claims_only ok l \<and> length ok \<le> length es)
    (claim_events (\<lambda>ks. noting (claim_entry ks) (cl ks)) ours es)"
proof (induction es arbitrary: ours)
  case Nil
  show ?case by (simp only: claim_events.simps) (rule logs_return, simp add: claims_only_def)
next
  case (Cons e es)
  let ?e = "without_sources ours e"
  show ?case unfolding claim_events.simps Let_def
  proof (rule logs_bind[OF logs_claim[OF assms]], goal_cases)
    case (1 b l)
    show ?case
    proof (cases b)
      case True
      with 1 have l: "l = [Granted (keyset ?e)]" by fastforce
      show ?thesis unfolding l using True
        by (simp only: if_True) (rule logs_bind[OF Cons.IH[of "keyset ?e @ ours"]], auto simp: claims_only_def Un_assoc simp del: io_run intro!: logs_return)
    next
      case False
      with 1 have l: "l = [Refused (keyset ?e)]" by fastforce
      show ?thesis unfolding l using False
        by (simp only: if_False) (rule logs_mono[OF Cons.IH[of ours]], auto simp: claims_only_def)
    qed
  qed simp
qed

section \<open>What a run notes\<close>

lemma watched_import_simps [simp]:
  "me_now (watched_import E) = noting (\<lambda>_. []) (me_now E)"
  "me_summary (watched_import E) a b = noting (\<lambda>_. []) (me_summary E a b)"
  "me_groups (watched_import E) a b d = noting (\<lambda>_. []) (me_groups E a b d)"
  "me_ingest (watched_import E) rs = noting (done_entry (Wrote rs)) (me_ingest E rs)"
  "me_visible (watched_import E) ks a b = noting (\<lambda>_. []) (me_visible E ks a b)"
  "me_sleep (watched_import E) (w, l) = (me_sleep E w, l @ [Slept])"
  "me_claim (watched_import E) = map_option (\<lambda>c ks. noting (claim_entry ks) (c ks)) (me_claim E)"
  "me_unclaim (watched_import E) = map_option (\<lambda>u ks. noting (done_entry (Released ks)) (u ks)) (me_unclaim E)"
  by (simp_all add: watched_import_def)

lemma logs_now: "logs silent (\<lambda>w. case noting (\<lambda>_. []) m w of (t, w') \<Rightarrow> (Inr t :: string + 'a, w'))"
  by (auto simp: logs_def noting_def split: prod.splits)

lemma logs_read_existing: "logs silent (read_existing (watched_import E) st a b)"
proof -
  have gate: "logs silent (io_catch (io_bind (me_summary (watched_import E) a t) (\<lambda>n. io_return (n = 0))) (\<lambda>_. io_return False))" for t
    by (rule logs_catch[where P = silent], rule logs_silent_bind) (auto simp del: io_run intro!: logs_return)
  show ?thesis unfolding read_existing_def watched_import_simps(1)
  proof (rule logs_silent_bind[OF logs_now], rule logs_silent_bind, goal_cases)
    case (1 t)
    then show ?case using gate[of "max b t"] by (auto simp del: io_run watched_import_simps intro!: logs_return)
  next
    case (2 t skip)
    then show ?case by (auto simp del: io_run intro!: logs_return)
  qed auto
qed

lemma logs_fetch: "logs silent (fetch_existing_source_ids (watched_import E) a b d)"
  unfolding fetch_existing_source_ids_def by (rule logs_silent_bind) (auto simp del: io_run intro!: logs_return)

definition releases :: "string list \<Rightarrow> import_effect list \<Rightarrow> bool" where
  "releases ks l \<longleftrightarrow> (\<forall>H. claimed_first l H \<and> held l H = H - set ks) \<and> Slept \<notin> set l \<and> written l = {}"

text \<open>What an import relies on: a claim store that answers both calls, whatever it answers.\<close>

locale import_claims =
  fixes E :: "'w menv" and cl :: "string list \<Rightarrow> ('w, bool) io" and un :: "string list \<Rightarrow> ('w, unit) io"
  assumes claim: "me_claim E = Some cl" and claim_answers: "answers_always cl"
    and unclaim: "me_unclaim E = Some un" and unclaim_answers: "answers_always un"
begin

lemma logs_release: "logs (\<lambda>r l. r = Inr () \<and> releases ks l) (release (watched_import E) ks)"
proof (cases "ks = []")
  case True
  then show ?thesis using unclaim by (auto simp: release_def releases_def simp del: io_run intro!: logs_return)
next
  case False
  have once: "logs (\<lambda>r l. r = Inr () \<and> l = [Released ks]) (noting (done_entry (Released ks)) (un ks))"
  proof (rule logsI)
    fix w and l :: "import_effect list"
    from unclaim_answers obtain b w' where "un ks w = (Inr b, w')" unfolding answers_always_def by blast
    then show "\<exists>r w' l'. noting (done_entry (Released ks)) (un ks) (w, l) = (r, (w', l @ l')) \<and> r = Inr () \<and> l' = [Released ks]"
      by (simp add: noting_def done_entry_def)
  qed
  then show ?thesis using False unclaim unfolding release_def
    by (simp del: io_run) (rule logs_catch[OF once], auto simp: releases_def)
qed

end

lemma typed_records_sources: "typed_records st es = Inr rs \<Longrightarrow>
   (\<forall>r \<in> set rs. wire_keys r \<subseteq> set (all_keys es)) \<and> set (all_keys es) \<subseteq> (\<Union>r \<in> set rs. set (ty_sources r))"
proof (induction es arbitrary: rs)
  case (Cons e es)
  from Cons.prems obtain d rs' where d: "typed_records st es = Inr rs'" "rs = build_typed_record e d (tag_of st (ne_service e)) # rs'"
    by (auto split: option.splits simp: map_sum_def split: sum.splits)
  have "wire_keys (build_typed_record e d t) \<subseteq> set (keyset e)" for t
    by (auto simp: wire_keys_def build_typed_record_def keyset_def startswith_def)
  moreover have "set (keyset e) \<subseteq> set (ty_sources (build_typed_record e d t))" for t
    by (auto simp: build_typed_record_def keyset_def)
  ultimately show ?case using Cons.IH[OF d(1)] d(2) by fastforce
qed simp

lemma keyset_nonempty: "es \<noteq> [] \<Longrightarrow> all_keys es \<noteq> []"
  by (cases es) (auto simp: keyset_def)

text \<open>A posting, once its events are claimed: the claims of what was not written are given back.\<close>

definition settles :: "nevent list \<Rightarrow> import_effect list \<Rightarrow> bool" where
  "settles es l \<longleftrightarrow> (\<forall>H. set (all_keys es) \<subseteq> H \<longrightarrow> claimed_first l H \<and> held l H \<subseteq> (H - set (all_keys es)) \<union> written l) \<and> Slept \<notin> set l"

lemma logs_ingest:
  "logs (\<lambda>r l. case r of Inl _ \<Rightarrow> l = [] | Inr _ \<Rightarrow> es \<noteq> [] \<longrightarrow> settles es l) (ingest_batch_typed (watched_import E) st es)"
proof (cases "es = []")
  case True
  then show ?thesis by (auto simp: ingest_batch_typed_def simp del: io_run intro!: logs_return)
next
  case False
  show ?thesis
  proof (cases "typed_records st es")
    case (Inl e)
    with False show ?thesis by (auto simp: ingest_batch_typed_def logs_def io_bind_def)
  next
    case (Inr rs)
    from typed_records_sources[OF Inr] have "settles es [Wrote rs]" by (auto simp: settles_def)
    with Inr False show ?thesis
      by (auto simp: ingest_batch_typed_def done_entry_def simp del: io_run intro!: logs_noting split: sum.splits)
  qed
qed

context import_claims
begin

lemma logs_post_chunk:
  assumes some: "es \<noteq> []"
  shows "logs (\<lambda>r l. settles es l \<and> (\<forall>a'. r = Inr a' \<longrightarrow> ia_posted a' = ia_posted a + length es \<and> ia_skipped a' = ia_skipped a))
    (post_chunk (watched_import E) st ws we es a)"
proof -
  let ?handler = "\<lambda>err. io_bind (if me_claim (watched_import E) = None then io_return () else release (watched_import E) (all_keys es)) (\<lambda>_. io_raise err :: (_, unit) io)"
  have handler: "logs (\<lambda>_ l. settles es l) (?handler err)" for err :: string
  proof -
    have "logs (\<lambda>_ l. settles es l) (io_bind (release (watched_import E) (all_keys es)) (\<lambda>_. io_raise err :: (_, unit) io))"
      by (rule logs_bind[OF logs_release]) (auto simp: releases_def settles_def simp del: io_run intro!: logs_raise)
    with claim show ?thesis by (auto simp del: io_run)
  qed
  have caught: "logs (\<lambda>_ l. settles es l) (io_catch (ingest_batch_typed (watched_import E) st es) ?handler)"
    using handler some by (intro logs_catch[OF logs_ingest]) (auto simp: logs_def)
  show ?thesis unfolding post_chunk_def Let_def
  proof (rule logs_bind[OF caught], rule logs_silent_bind[OF logs_fetch], goal_cases)
    case (1 b l seen)
    then show ?case by (intro logs_return) simp
  qed simp_all
qed

end

text \<open>The log of a chunk, with what it counts.\<close>

definition counted :: "nat \<Rightarrow> import_acc \<Rightarrow> string + import_acc \<Rightarrow> bool" where
  "counted n a r \<longleftrightarrow> (\<forall>a'. r = Inr a' \<longrightarrow> ia_posted a' + ia_skipped a' = ia_posted a + ia_skipped a + n)"

lemma claims_then_settles:
  assumes "claims_only es l" "settles es l'"
  shows "disciplined_import (l @ l')"
proof -
  have "claimed_first (l @ l') H \<and> held (l @ l') H \<subseteq> H \<union> written (l @ l')" for H
  proof -
    from assms(1) have l: "claimed_first l H" "held l H = H \<union> set (all_keys es)" "written l = {}" by (auto simp: claims_only_def)
    from assms(2) have "claimed_first l' (H \<union> set (all_keys es)) \<and> held l' (H \<union> set (all_keys es)) \<subseteq> (H \<union> set (all_keys es) - set (all_keys es)) \<union> written l'"
      unfolding settles_def by blast
    with l show ?thesis by auto
  qed
  moreover have "Slept \<notin> set (l @ l')" using assms by (simp add: claims_only_def settles_def)
  ultimately show ?thesis unfolding disciplined_import_def by blast
qed

context import_claims
begin

lemma logs_import_chunk: "logs (\<lambda>r l. disciplined_import l \<and> counted (length c) a r) (import_chunk (watched_import E) st pad False c a)"
proof -
  show ?thesis unfolding import_chunk_def Let_def watched_import_simps claim option.map option.case if_False
  proof (rule logs_silent_bind[OF logs_read_existing], rule logs_bind[OF logs_claims[OF claim_answers]], goal_cases)
    case (1 groups p l)
    then obtain ok ours where p: "p = (ok, ours)" and l: "claims_only ok l" and len: "length ok \<le> length (survivors groups c)" by auto
    note le = len survivors_length[of groups c]
    show ?case
    proof (cases "ok = []")
      case True
      then have "disciplined_import l" using l by (auto simp: claims_only_def disciplined_import_def)
      with True le show ?thesis unfolding p prod.case by (simp only: if_True simp_thms list.size) (rule logs_return, simp add: counted_def)
    next
      case False
      show ?thesis unfolding p prod.case using False
      proof (simp only: if_False simp_thms, intro logs_mono[OF logs_post_chunk[OF False]] conjI, goal_cases)
        case (1 r l')
        then show ?case using claims_then_settles[OF l] by blast
      next
        case (2 r l')
        with le show ?case unfolding counted_def by fastforce
      qed
    qed
  qed (simp_all add: counted_def)
qed

lemma logs_import_chunks: "logs (\<lambda>r l. disciplined_import l \<and> counted (length (concat cs)) a r) (import_chunks (watched_import E) st pad False cs a)"
proof (induction cs arbitrary: a)
  case Nil
  show ?case by (simp only: import_chunks.simps) (rule logs_return, simp add: counted_def)
next
  case (Cons c cs)
  show ?case unfolding import_chunks.simps
  proof (rule logs_bind[OF logs_import_chunk], goal_cases)
    case (1 a' l)
    then show ?case by (intro logs_mono[OF Cons.IH]) (auto simp: counted_def intro: disciplined_both)
  qed (simp_all add: counted_def)
qed

end

section \<open>The verification at the end\<close>

definition landed :: "pending \<Rightarrow> bool" where
  "landed p \<longleftrightarrow> list_all (\<lambda>(a, b, m). m = []) p"

definition left_over :: "pending \<Rightarrow> nat" where
  "left_over p = sum_list (map (\<lambda>(a, b, m). length m) p)"

lemma left_over_simps [simp]: "left_over [] = 0" "left_over ((a, b, m) # p) = length m + left_over p"
  by (simp_all add: left_over_def)

definition keyed :: "pending \<Rightarrow> bool" where
  "keyed p \<longleftrightarrow> list_all (\<lambda>(a, b, m). dict_ok m) p"

lemma keyed_simps [simp]: "keyed []" "keyed ((a, b, m) # p) \<longleftrightarrow> dict_ok m \<and> keyed p"
  by (simp_all add: keyed_def)

lemma length_dict_pop_present: "dict_ok d \<Longrightarrow> map_of d k \<noteq> None \<Longrightarrow> length d = Suc (length (dict_pop k d))"
proof (induction d)
  case (Cons x d)
  show ?case
  proof (cases "fst x = k")
    case True
    with Cons.prems have "k \<notin> fst ` set d" by (auto simp: dict_ok_def)
    then have "filter (\<lambda>p. fst p \<noteq> k) d = d" by (force simp: filter_id_conv)
    with True show ?thesis by (simp add: dict_pop_def)
  next
    case False
    with Cons show ?thesis by (cases x) (auto simp: dict_pop_def dict_ok_def)
  qed
qed simp

lemma drop_found_counts:
  "drop_found xs m = (m', True) \<Longrightarrow> dict_ok m \<Longrightarrow> length m' + length xs = length m \<and> dict_ok m'"
proof (induction xs m rule: drop_found.induct)
  case (2 x xs m)
  then have "map_of m x \<noteq> None" "drop_found xs (dict_pop x m) = (m', True)" by (auto split: if_splits)
  with 2 length_dict_pop_present[of m x] show ?case by auto
qed simp

lemma verify_pass_notes:
  assumes "verify_pass (watched_import E) p (w, l) = ((p', n, ok), w1)"
  shows "\<exists>w'. w1 = (w', l) \<and> (ok \<longrightarrow> keyed p \<longrightarrow> keyed p' \<and> n + left_over p' = left_over p)"
  using assms
proof (induction p arbitrary: w p' n ok)
  case Nil
  then have "w1 = (w, l) \<and> p' = [] \<and> n = 0" by auto
  then show ?case by simp
next
  case (Cons x rest)
  obtain a b m where x: "x = (a, b, m)" by (cases x)
  show ?case
  proof (cases "m = []")
    case True
    with Cons.prems x obtain q where q: "verify_pass (watched_import E) rest (w, l) = ((q, n, ok), w1)" "p' = (a, b, m) # q"
      by (auto split: prod.splits)
    from Cons.IH[OF q(1)] q(2) x True show ?thesis by auto
  next
    case False
    obtain r w2 where v: "me_visible E (map fst m) a b w = (r, w2)" by fastforce
    then have vis: "me_visible (watched_import E) (map fst m) a b (w, l) = (r, (w2, l))" by (simp add: noting_def)
    show ?thesis
    proof (cases r)
      case (Inl e)
      with Cons.prems x False vis show ?thesis by auto
    next
      case (Inr found)
      obtain m' b' where d: "drop_found found m = (m', b')" by fastforce
      show ?thesis
      proof (cases b')
        case True
        with Cons.prems x False vis Inr d obtain q k where q: "verify_pass (watched_import E) rest (w2, l) = ((q, k, ok), w1)"
          "p' = (a, b, m') # q" "n = length found + k" by (auto split: prod.splits)
        from Cons.IH[OF q(1)] q x True d drop_found_counts[of found m m'] show ?thesis by auto
      next
        case False
        with Cons.prems x \<open>m \<noteq> []\<close> vis Inr d show ?thesis by auto
      qed
    qed
  qed
qed

lemma verify_attempts_notes:
  assumes "verify_attempts (watched_import E) n p v (w, l) = ((p', v', ok), w1)"
  shows "\<exists>k w'. k \<le> n \<and> w1 = (w', l @ replicate k Slept) \<and> (n > 0 \<longrightarrow> k > 0) \<and> (k < n \<longrightarrow> \<not> ok \<or> landed p')
    \<and> (ok \<longrightarrow> keyed p \<longrightarrow> keyed p' \<and> v' + left_over p' = v + left_over p)"
  using assms
proof (induction n arbitrary: p v w l)
  case 0
  then show ?case by auto
next
  case (Suc n)
  obtain q j b w2 where pass: "verify_pass (watched_import E) p (me_sleep E w, l @ [Slept]) = ((q, j, b), w2)" by (metis prod.exhaust)
  from verify_pass_notes[OF pass] obtain w3 where w3: "w2 = (w3, l @ [Slept])"
    and cnt: "b \<longrightarrow> keyed p \<longrightarrow> keyed q \<and> j + left_over q = left_over p" by blast
  show ?case
  proof (cases "\<not> b \<or> landed q")
    case True
    with Suc.prems pass w3 have "p' = q" "v' = v + j" "ok = b" "w1 = (w3, l @ [Slept])" by (auto simp: landed_def)
    with True cnt show ?thesis by (intro exI[of _ "Suc 0"] exI[of _ w3]) auto
  next
    case False
    with Suc.prems pass w3 have "verify_attempts (watched_import E) n q (v + j) (w3, l @ [Slept]) = ((p', v', ok), w1)" by (auto simp: landed_def)
    from Suc.IH[OF this] obtain k w' where k: "k \<le> n" "w1 = (w', (l @ [Slept]) @ replicate k Slept)" "k < n \<longrightarrow> \<not> ok \<or> landed p'"
      "ok \<longrightarrow> keyed q \<longrightarrow> keyed p' \<and> v' + left_over p' = v + j + left_over q" by blast
    with cnt False show ?thesis by (intro exI[of _ "Suc k"] exI[of _ w']) auto
  qed
qed

text \<open>What the verification notes: a bounded number of naps, then at most a release.\<close>

definition verifying :: "import_effect list \<Rightarrow> bool" where
  "verifying l \<longleftrightarrow> (\<exists>k l'. l = replicate k Slept @ l' \<and> k \<le> LANDED_VERIFY_ATTEMPTS \<and> (\<forall>H. claimed_first l' H \<and> held l' H \<subseteq> H) \<and> Slept \<notin> set l')"

lemma verify_landed_notes:
  assumes claims: "import_claims E cl un"
  shows "\<exists>v w' l'. verify_landed (watched_import E) p (w, l) = (Inr v, (w', l @ l')) \<and> verifying l'"
proof -
  obtain q v ok w2 where att: "verify_attempts (watched_import E) LANDED_VERIFY_ATTEMPTS p 0 (w, l) = ((q, v, ok), w2)" by (metis prod.exhaust)
  from verify_attempts_notes[OF att] obtain k w3 where k: "k \<le> LANDED_VERIFY_ATTEMPTS" "w2 = (w3, l @ replicate k Slept)" by blast
  show ?thesis
  proof (cases "\<not> ok \<or> still_missing q = []")
    case True
    with att k have "verify_landed (watched_import E) p (w, l) = (Inr v, (w3, l @ replicate k Slept))" by (simp add: verify_landed_def)
    moreover have "verifying (replicate k Slept)" unfolding verifying_def using k(1) by (intro exI[of _ k] exI[of _ "[]"]) simp
    ultimately show ?thesis by blast
  next
    case False
    let ?ks = "remdups (concat (map snd (still_missing q)))"
    from logsD[OF import_claims.logs_release[OF claims], of ?ks w3 "l @ replicate k Slept"] obtain w4 l' where
      "release (watched_import E) ?ks (w3, l @ replicate k Slept) = (Inr (), (w4, (l @ replicate k Slept) @ l'))" "releases ?ks l'" by blast
    then have "verify_landed (watched_import E) p (w, l) = (Inr v, (w4, l @ (replicate k Slept @ l')))"
      using False att k by (simp add: verify_landed_def io_bind_def)
    moreover have "verifying (replicate k Slept @ l')"
      unfolding verifying_def using k(1) \<open>releases ?ks l'\<close> by (intro exI[of _ k] exI[of _ l']) (auto simp: releases_def)
    ultimately show ?thesis by blast
  qed
qed

lemma held_replicate_Slept [simp]: "held (replicate k Slept) H = H" "claimed_first (replicate k Slept) H" "written (replicate k Slept) = {}"
  by (induction k) auto

lemma length_concat_chunked: "n > 0 \<Longrightarrow> length (concat (chunked n xs)) = length xs"
proof (induction n xs rule: chunked.induct)
  case (1 n xs)
  show ?case
  proof (cases "xs = []")
    case True
    then show ?thesis by (simp add: chunked.simps[of n "[]"])
  next
    case False
    with 1 show ?thesis by (simp add: chunked.simps[of n xs] del: length_concat)
  qed
qed

lemma disciplined_then_verifying:
  assumes "disciplined_import l" "verifying l'"
  shows "claimed_first (l @ l') {} \<and> held (l @ l') {} \<subseteq> written (l @ l') \<and> length (filter (\<lambda>x. x = Slept) (l @ l')) \<le> LANDED_VERIFY_ATTEMPTS"
proof -
  from assms(2) obtain k l2 where l': "l' = replicate k Slept @ l2" "k \<le> LANDED_VERIFY_ATTEMPTS" "\<And>H. claimed_first l2 H" "\<And>H. held l2 H \<subseteq> H" "Slept \<notin> set l2"
    unfolding verifying_def by blast
  from assms(1) have l: "claimed_first l {}" "held l {} \<subseteq> written l" "Slept \<notin> set l" by (auto simp: disciplined_import_def)
  have "filter (\<lambda>x. x = Slept) l = []" "filter (\<lambda>x. x = Slept) l2 = []" using l(3) l'(5) by (auto simp: filter_empty_conv)
  then have few: "length (filter (\<lambda>x. x = Slept) (l @ l')) \<le> LANDED_VERIFY_ATTEMPTS" using l'(2) by (simp add: l'(1))
  have "held (l @ l') {} \<subseteq> held l {}" using l'(4) by (simp add: l'(1))
  then have "held (l @ l') {} \<subseteq> written (l @ l')" using l(2) by auto
  moreover have "claimed_first (l @ l') {}" using l(1) l'(3) by (simp add: l'(1))
  ultimately show ?thesis using few by blast
qed

lemma run_import_notes:
  assumes claims: "import_claims E cl un"
  shows "logs (\<lambda>r l. claimed_first l {} \<and> held l {} \<subseteq> written l \<and> length (filter (\<lambda>x. x = Slept) l) \<le> LANDED_VERIFY_ATTEMPTS
      \<and> (case r of Inl _ \<Rightarrow> Slept \<notin> set l | Inr res \<Rightarrow> ir_total res = length events \<and> ir_posted res + ir_skipped_existing res = length events))
    (run_import (watched_import E) st n pad False events)"
proof -
  have filt: "Slept \<notin> set l \<Longrightarrow> filter (\<lambda>x. x = Slept) l = []" for l by (auto simp: filter_empty_conv)
  consider "events = []" | "events \<noteq> []" "n = 0" | "events \<noteq> []" "n > 0" by auto
  then show ?thesis
  proof cases
    case 1
    then show ?thesis by (simp add: run_import_def del: io_run) (rule logs_return, simp)
  next
    case 2
    then show ?thesis by (simp add: run_import_def del: io_run) (rule logs_raise, simp)
  next
    case 3
    let ?cs = "chunked n (sort_key ne_start events)"
    have len: "length (concat ?cs) = length events" using 3 length_concat_chunked[of n "sort_key ne_start events"] by simp
    have verify: "logs (\<lambda>r l. isl r = False \<and> verifying l)
      (if ia_pending a \<noteq> [] \<and> \<not> False then verify_landed (watched_import E) (ia_pending a) else io_return 0)" for a
    proof (cases "ia_pending a = []")
      case True
      have "verifying []" unfolding verifying_def by (intro exI[of _ 0] exI[of _ "[]"]) simp
      with True show ?thesis by (simp del: io_run) (rule logs_return, simp)
    next
      case False
      show ?thesis
      proof (rule logsI, goal_cases)
        case (1 w l)
        from verify_landed_notes[OF claims, of "ia_pending a" w l] False show ?case by fastforce
      qed
    qed
    show ?thesis unfolding run_import_def if_not_P[OF 3(1)] if_not_P[OF gr_implies_not0[OF 3(2)]]
    proof (rule logs_bind[OF import_claims.logs_import_chunks[OF claims]], goal_cases)
      case (1 a l)
      then have l: "disciplined_import l" and cnt: "ia_posted a + ia_skipped a = length events" by (simp_all add: counted_def len empty_acc_def)
      show ?case
      proof (rule logs_bind[OF verify], goal_cases)
        case (1 v l')
        from disciplined_then_verifying[OF l, of l'] 1 cnt show ?case by (intro logs_return) simp
      qed auto
    next
      case (2 e l)
      then show ?case by (auto simp: disciplined_import_def filt)
    qed
  qed
qed

section \<open>Properties\<close>

text \<open>The claim store of the daemon's worker, over its database next to the rest of the world.\<close>

definition worker_claims :: "bool \<Rightarrow> string list \<Rightarrow> ('o \<times> store_db, bool) io" where
  "worker_claims reachable ks w = (case worker_claim reachable ks (snd w) of (b, db) \<Rightarrow> (Inr b, (fst w, db)))"

definition worker_unclaims :: "bool \<Rightarrow> string list \<Rightarrow> ('o \<times> store_db, unit) io" where
  "worker_unclaims reachable ks w = (Inr (), (fst w, worker_unclaim reachable ks (snd w)))"

definition hosted_import :: "bool \<Rightarrow> ('o \<times> store_db) menv \<Rightarrow> ('o \<times> store_db) menv" where
  "hosted_import reachable E = E\<lparr>me_claim := Some (worker_claims reachable), me_unclaim := Some (worker_unclaims reachable)\<rparr>"

interpretation worker_import: import_claims "hosted_import reachable E" "worker_claims reachable" "worker_unclaims reachable" for reachable E
  by unfold_locales (auto simp: hosted_import_def answers_always_def worker_claims_def worker_unclaims_def split: prod.splits)

text \<open>C19. An import writes no record whose keys were not granted to it first; when it is over, however it ended, every
  key granted and not given back is a key of a record that was written, so no failed batch keeps its claims. It counts
  every event once, as posted or as skipped. The verification takes at most four naps; and a run that ends in
  an exception takes none: the records its earlier chunks posted are never verified.
\<close>

theorem imports_write_what_they_claimed:
  assumes "me_claim E = Some cl" "answers_always cl" "me_unclaim E = Some un" "answers_always un"
  shows "case run_import (watched_import E) st n pad False events (w, []) of (r, (w', l)) \<Rightarrow>
     claimed_first l {} \<and> held l {} \<subseteq> written l \<and> length (filter (\<lambda>x. x = Slept) l) \<le> 4
     \<and> (case r of Inl _ \<Rightarrow> Slept \<notin> set l | Inr res \<Rightarrow> ir_total res = length events \<and> ir_posted res + ir_skipped_existing res = length events)"
  using logsD[OF run_import_notes[OF import_claims.intro[OF assms], of events st n pad], of w "[]"] by (auto simp: LANDED_VERIFY_ATTEMPTS_def)

definition empty_db :: store_db where
  "empty_db = \<lparr>kv_table = Map.empty, claimed = []\<rparr>"

definition bare_menv :: "(nat \<times> store_db) menv" where
  "bare_menv = \<lparr>me_now = Pair 0, me_summary = (\<lambda>_ _. io_return 1), me_groups = (\<lambda>_ _ _. io_return []), me_ingest = (\<lambda>_. io_return ()),
     me_visible = (\<lambda>_ _ _. io_return []), me_sleep = map_prod Suc id, me_claim = None, me_unclaim = None\<rparr>"

definition demo_play :: "string \<Rightarrow> nevent" where
  "demo_play det = \<lparr>ne_service = ''lastfm'', ne_category = ''listened'', ne_note = ''a song'', ne_start = 0, ne_end = 10, ne_det = det,
     ne_confidence = ''high'', ne_external = [], ne_extra = [''fp'']\<rparr>"

definition demo_media_state :: media_state where
  "demo_media_state = \<lparr>ms_watched = None, ms_listened = Some ''d'', ms_read = None, ms_tags = []\<rparr>"

definition demo_plays :: "nevent list" where
  "demo_plays = [demo_play ''a'', demo_play ''b'']"

theorem imports_write_what_they_claimed_witness:
  "case run_import (watched_import (hosted_import True bare_menv)) demo_media_state 1 10 False demo_plays ((0, empty_db), []) of (r, (w', l)) \<Rightarrow>
     claimed_first l {} \<and> held l {} \<subseteq> written l \<and> length (filter (\<lambda>x. x = Slept) l) \<le> 4
     \<and> (case r of Inl _ \<Rightarrow> Slept \<notin> set l | Inr res \<Rightarrow> ir_total res = length demo_plays \<and> ir_posted res + ir_skipped_existing res = length demo_plays)"
  using imports_write_what_they_claimed[where E = "hosted_import True bare_menv",
      OF worker_import.claim worker_import.claim_answers worker_import.unclaim worker_import.unclaim_answers, where st = demo_media_state and n = 1 and pad = 10 and w = "(0, empty_db)"
      and events = demo_plays] by simp

lemma logs_dry_chunk: "logs silent (import_chunk (watched_import E) st pad True c a)"
  unfolding import_chunk_def Let_def
  by (rule logs_silent_bind[OF logs_read_existing], rule logs_silent_bind)
    (auto simp del: io_run intro!: logs_return split: option.splits)

lemma logs_dry_chunks: "logs silent (import_chunks (watched_import E) st pad True cs a)"
  by (induction cs arbitrary: a) (auto simp del: io_run intro!: logs_return logs_silent_bind[OF logs_dry_chunk])

text \<open>A dry run claims nothing, writes nothing, waits for nothing and gives nothing back.
\<close>

theorem dry_import_changes_nothing:
  "snd (snd (run_import (watched_import E) st n pad True events (w, l))) = l"
proof -
  have "logs silent (run_import (watched_import E) st n pad True events)"
    unfolding run_import_def
    by (auto simp del: io_run intro!: logs_return logs_raise logs_silent_bind[OF logs_dry_chunks])
  from logsD[OF this, of w l] show ?thesis by auto
qed

text \<open>What the readback leaves of a chunk: no event left shares a key with a stored record, an event that
  shared none is left as it is, and each event left is one of the chunk, less some of its fingerprints.
\<close>

theorem survivors_are_new:
  "(\<forall>e \<in> set (survivors groups es). set (keyset e) \<inter> set (concat groups) = {} \<and> (\<exists>e0 \<in> set es. \<exists>fps. e = without_sources fps e0))
   \<and> set (filter (\<lambda>e. set (keyset e) \<inter> set (concat groups) = {}) es) \<subseteq> set (survivors groups es)"
proof -
  have id: "without_sources [] e = e" for e :: nevent by (simp add: without_sources_def)
  have "\<exists>e0 \<in> set es. \<exists>fps. e = without_sources fps e0" if "e \<in> set (survivors groups es)" for e
    using that by (induction es) (auto simp: Let_def split: if_splits intro: id[symmetric])
  with survivors_new survivors_kept show ?thesis by fastforce
qed

text \<open>C28. The delayed verification ends after at most four naps, and it takes at least one: when it stops before
  the fourth, the readback failed or nothing is missing; and unless it failed, every pending record is either
  counted as verified once or still missing.
\<close>

theorem verification_ends:
  assumes "verify_attempts (watched_import E) LANDED_VERIFY_ATTEMPTS p 0 (w, []) = ((p', v, ok), (w', l))" "keyed p"
  shows "\<exists>k. 1 \<le> k \<and> k \<le> 4 \<and> l = replicate k Slept \<and> (k < 4 \<longrightarrow> \<not> ok \<or> landed p') \<and> (ok \<longrightarrow> v + left_over p' = left_over p)"
proof -
  from verify_attempts_notes[OF assms(1)] assms(2) obtain k where "k \<le> LANDED_VERIFY_ATTEMPTS" "l = replicate k Slept"
    "LANDED_VERIFY_ATTEMPTS > 0 \<longrightarrow> k > 0" "k < LANDED_VERIFY_ATTEMPTS \<longrightarrow> \<not> ok \<or> landed p'" "ok \<longrightarrow> v + left_over p' = left_over p" by auto
  then show ?thesis by (intro exI[of _ k]) (simp add: LANDED_VERIFY_ATTEMPTS_def)
qed

theorem verification_ends_witness:
  "keyed [(0, 1, [(''a'', [''a''])])] \<and> (\<exists>k. 1 \<le> k \<and> k \<le> 4 \<and> snd (snd (verify_attempts (watched_import (hosted_import True bare_menv)) LANDED_VERIFY_ATTEMPTS
     [(0, 1, [(''a'', [''a''])])] 0 ((0, empty_db), []))) = replicate k Slept)"
proof -
  let ?p = "[(0, 1, [(''a'', [''a''])])] :: pending"
  have keyed: "keyed ?p" by (simp add: dict_ok_def)
  obtain p' v ok w' l where run: "verify_attempts (watched_import (hosted_import True bare_menv)) LANDED_VERIFY_ATTEMPTS ?p 0 ((0, empty_db), []) = ((p', v, ok), (w', l))"
    by (metis prod.exhaust)
  from verification_ends[OF run keyed] keyed show ?thesis by (auto simp: run)
qed

end
