(* ===== verification/Spec2Isabelle.thy ===== *)
theory Spec2Isabelle
  imports Fold_Cli Engine_Reads Cutover_Props Tasks_Props Review_Props Roles_Props Vacancy_Props Merge_Props
    Records_Props Cursor_Ledger Stream_Props Sync_Authority Sync_Checkpoint
    Collect_Consent Collect_Runner_Props Media_Props
begin

text \<open>
  A verification library for fulcra-tools, a collection of Python programs that share one store. Two groups of
  them carry the logic modelled here. The coordination programs (packages/coord-fold, packages/coord-engine)
  let agents on several hosts owe, answer, review and hand over work through documents and an append-only
  stream of records. The collection programs (packages/collect, packages/task-sync, packages/media-helpers, with
  packages/apple-reminders as a client) run plugins that import events and keep tasks in step with a vault.

  \<^bold>\<open>Foundations.\<close> Prelude: dictionaries as association lists in insertion order, JSON values, documents, the
  sum of errors. Py_Text and Py_Time: the methods of str and datetime the sources call. Py_IO: statements that
  act on the world and may raise, their sequence, handlers and context managers, with one proof rule for each;
  \<open>always\<close> is a property of every run.

  \<^bold>\<open>coord-fold.\<close> Fold_Transport (transport.py), Fold_Events (events.py, pointers.py, channel.py), Fold_Checkpoint
  (checkpoint.py), Fold_Run (fold.py) and Fold_Cli (cli.py): one agent folds the stream into a checkpoint of what
  it owes. Fold_Props and Fold_Race show which events a pass applies, that bounded passes over overlapping windows
  compute what one pass would, and what interleaved hosts do to each other's saves, with hosts as a step relation.
  The \<open>fulcra\<close> command is the locale \<open>fulcra_cli\<close>, which gives the \<open>pointer_store\<close> of the fold; Fold_Memory
  interprets it on a store in memory, which the witnesses use.

  \<^bold>\<open>coord-engine.\<close> Budget (budget.py, read_retry.py) and Engine_Transport (transport.py), with Engine_Reads on what a
  classified read affirms; Obligations (obligations.py, outcome.py) and Cutover (cutover.py and the obligations
  verb of cli.py) with Cutover_Props; Okf (okf.py), Tasks (tasks.py, model.py, directives.py), Review (review.py and
  the scan of shards in cli.py), Roles (roles.py and the reading of leases in cli.py), Merge_Ready (merge_ready.py,
  forge.py), Records and Records_Cursor (records.py) and Stream_Fold (stream_fold.py), each with its theory of
  properties. Cursor_Ledger relates the transactional cursor, under any interleaving of processes, to the list
  of deliveries it committed.

  \<^bold>\<open>task-sync.\<close> Sync_State (state.py), Sync_Documents (documents.py) and Sync_Engine (engine.py): the run that
  completes a source task when its document in the vault says so. Sync_Log observes the effects of a run; the
  locales \<open>effect_log\<close>, \<open>upload_log\<close> and \<open>run_log\<close> carry a property of logs from single effects to a run, and
  Sync_Props interprets them for previews and for live runs. Sync_Authority shows what authorises a completion,
  Sync_Checkpoint that a record is saved as a whole and read back, over the key-value contract that Collect_Store
  provides.

  \<^bold>\<open>collect.\<close> Collect_Config (config.py and the consent of the Reminders plugin), Collect_Store (the rows of db.py
  that plugins write), Collect_Schedule (scheduler.py, supervisor.py, freshness.py, state.py) and Collect_Runner
  (runner.py, worker.py, activity.py, the guard of daemon.py). Collect_Consent joins configuration and task-sync:
  work that was revoked passes no further check of consent. Collect_Schedule_Props and Collect_Runner_Props show
  the decisions of a tick against a policy for one service, what a freshness verdict rests on, and what a run of
  a plugin leaves behind.

  \<^bold>\<open>media-helpers.\<close> Media_Import (fulcra.py, importers/base.py): the import of normalized events with readback, claims,
  posting and the delayed verification. In Media_Props the locale \<open>import_claims\<close> states what it asks of the
  claim store; it is interpreted on the claims of the daemon's worker over Collect_Store.

  \<^bold>\<open>Reading the definitions.\<close> A definition has the name of the function, class or constant it models, or names the
  part of it that its entry in the map points at. Classes are records, their methods functions from the old
  record to the new one. An exception is the left value of a sum, its name a text; a handler that catches every
  exception is a branch on it. What the code reaches outside the repository (the store, HTTP, the keychain, TOML
  and YAML libraries, hashes, uuids, clocks, processes) is a parameter: a field of a record of operations over an
  arbitrary world, or a function. Stored JSON is the decoded value; a text is a list of 8-bit characters, and
  literals beyond ASCII are written with ASCII letters. Floats are exact rationals, times are microseconds, sets
  are lists without repetition, and a comparison of mappings goes through their sorted keys. A uuid is the value
  of a function at the thing it is drawn for.

  \<^bold>\<open>Bounds and fuel.\<close> No definition runs on fuel: loops over data are structural, or have a measure (\<open>chunked\<close>, the redactions of
  Collect_Runner, the readers of Okf and Sync_Documents), and the retries of the code (the four passes of the delayed verification, the
  single retry of a read, the attempts of a swap) are counted by its own constants. The bounds of the code (500
  remembered events, 4000 stream identities, 600 chunks of a list, the tails of a worker's output, the sizes of
  plugin rows) are constants of the model.

  \<^bold>\<open>Where the code falls short.\<close> Some theorems show a run in which the code does not do what its comments say: an
  answered directive that opens again, an index that its own reader refuses, a refused claim that costs a source
  its event, a crash loop that is never noticed, an output that is never recorded, accepted records that a timeout
  discards, a stream state that could not be read and is started over. Each theory says so at the theorem.

  \<^bold>\<open>Not modelled.\<close> The rest of cli.py of coord-engine (some eighty verbs that format what the modelled functions
  answer, and send it), its mesh-wide maintenance (reconcile, projection, router, presence, generation, forge
  mirror) and its digests; the HTTP handlers, OAuth flows, menus and web pages of collect; the importers, each of
  which turns the export format of one service into normalized events; packages whose substance is a third-party
  service, a user interface or another language (coord-v5, aicq-claude-mod, web-ui, menubar); scripts and skills.
  Within modelled files the printing of reports, logging, argument parsing and the mechanics of processes, threads
  and file locks are left out; a file lock makes what it protects one step.
\<close>

end
